(* ===== verification/JS_Number.thy ===== *)
theory JS_Number
  imports Prelude "HOL-Library.Log_Nat" "HOL-Library.Signed_Division" Complex_Main
begin

text \<open>
  Arithmetic of the \<open>number\<close> type shared by the TypeScript and the Python code: IEEE-754
  binary64. A finite value is the rational it denotes; an operation of the source is the exact
  rational operation followed by \<open>fl\<close>, rounding to the nearest binary64 value with ties to the
  even significand, subnormals included. Overflow to infinity (magnitudes of \<open>2 ^ 1024\<close> and
  more) and NaN are outside the model: the values are durations in seconds and small counts.
  Since \<open>-0\<close> and \<open>0\<close> denote the same rational and print the same, they are not told apart.
\<close>

type_synonym f64 = rat

subsection \<open>Rounding to binary64\<close>

definition expo :: "rat \<Rightarrow> int" where
  \<comment> \<open>the binary exponent: \<open>2 powi expo x \<le> \<bar>x\<bar> < 2 powi (expo x + 1)\<close>\<close>
  "expo x = (let (n, d) = quotient_of \<bar>x\<bar>; e = bitlen n - bitlen d
     in if 2 powi e \<le> \<bar>x\<bar> then e else e - 1)"

definition round_half_even :: "rat \<Rightarrow> int" where
  "round_half_even x = (let f = \<lfloor>x\<rfloor>; r = x - of_int f
     in if r < 1/2 then f else if r > 1/2 then f + 1 else if even f then f else f + 1)"

definition ulp_expo :: "rat \<Rightarrow> int" where
  "ulp_expo x = max (expo x) (-1022) - 52"

definition fl :: "rat \<Rightarrow> f64" where
  "fl x = (if x = 0 then 0
     else of_int (round_half_even (x / 2 powi ulp_expo x)) * 2 powi ulp_expo x)"


subsection \<open>The exponent\<close>

lemma bitlen_bounds_powi:
  assumes "0 < n"
  shows "2 powi (bitlen n - 1) \<le> (of_int n :: rat)" and "(of_int n :: rat) < 2 powi bitlen n"
proof -
  have b: "1 \<le> bitlen n" using assms bitlen_nonneg [of n] bitlen_eq_zero_iff [of n] by linarith
  have "(of_int (2 ^ nat (bitlen n - 1)) :: rat) \<le> of_int n"
    and "(of_int n :: rat) < of_int (2 ^ nat (bitlen n))"
    using bitlen_bounds [OF assms] by (simp_all only: of_int_le_iff of_int_less_iff)
  then show "2 powi (bitlen n - 1) \<le> (of_int n :: rat)" and "(of_int n :: rat) < 2 powi bitlen n"
    using b by (simp_all add: power_int_nonneg_exp)
qed

lemma expo_bounds:
  assumes "x \<noteq> 0"
  shows "2 powi expo x \<le> \<bar>x\<bar>" and "\<bar>x\<bar> < 2 powi (expo x + 1)"
proof -
  obtain n d where q: "quotient_of \<bar>x\<bar> = (n, d)" by fastforce
  have d: "0 < d" and x: "\<bar>x\<bar> = of_int n / of_int d"
    using quotient_of_denom_pos [OF q] quotient_of_div [OF q] by simp_all
  have n: "0 < n"
    using assms x d by (metis abs_ge_zero divide_eq_0_iff not_less of_int_0_le_iff of_int_eq_0_iff
        abs_eq_0_iff zero_le_divide_iff of_int_pos order_le_less)
  let ?e = "bitlen n - bitlen d"
  have up: "\<bar>x\<bar> < 2 powi (?e + 1)"
  proof -
    have "of_int n / of_int d < (2 powi bitlen n / 2 powi (bitlen d - 1) :: rat)"
      using bitlen_bounds_powi [OF n] bitlen_bounds_powi [OF d] d n
      by (intro frac_less) auto
    also have "\<dots> = 2 powi (bitlen n - (bitlen d - 1))" by (simp add: power_int_diff)
    finally show ?thesis using x by (simp add: algebra_simps)
  qed
  have lo: "2 powi (?e - 1) \<le> \<bar>x\<bar>"
  proof -
    have "2 powi (bitlen n - 1) / 2 powi bitlen d \<le> (of_int n / of_int d :: rat)"
      using bitlen_bounds_powi [OF n] bitlen_bounds_powi [OF d] d n
      by (intro frac_le) auto
    moreover have "2 powi (bitlen n - 1) / 2 powi bitlen d = (2 powi (bitlen n - 1 - bitlen d) :: rat)"
      by (simp add: power_int_diff)
    ultimately show ?thesis using x by (simp add: algebra_simps)
  qed
  have e: "expo x = (if 2 powi ?e \<le> \<bar>x\<bar> then ?e else ?e - 1)"
    by (simp add: expo_def q)
  show "2 powi expo x \<le> \<bar>x\<bar>" and "\<bar>x\<bar> < 2 powi (expo x + 1)"
    using up lo e by auto
qed

lemma powi_less_imp_less: "(2::rat) powi a < 2 powi b \<Longrightarrow> a < b"
  using power_int_increasing [of b a "2::rat"] by (cases "a < b") auto

lemma expo_unique:
  assumes "2 powi e \<le> \<bar>x\<bar>" and "\<bar>x\<bar> < 2 powi (e + 1)"
  shows "expo x = e"
proof -
  have "(0::rat) < 2 powi e" by simp
  then have "0 < \<bar>x\<bar>" using assms(1) by (rule less_le_trans)
  then have "x \<noteq> 0" by simp
  from expo_bounds [OF this] assms
  have "(2::rat) powi e < 2 powi (expo x + 1)" and "(2::rat) powi expo x < 2 powi (e + 1)" by linarith+
  then have "e < expo x + 1" and "expo x < e + 1" by (blast intro: powi_less_imp_less)+
  then show ?thesis by simp
qed

lemma expo_mono: "x \<noteq> 0 \<Longrightarrow> \<bar>x\<bar> \<le> \<bar>y\<bar> \<Longrightarrow> expo x \<le> expo y"
proof -
  assume "x \<noteq> 0" and le: "\<bar>x\<bar> \<le> \<bar>y\<bar>"
  then have "(2::rat) powi expo x < 2 powi (expo y + 1)"
    using expo_bounds [of x] expo_bounds [of y] by fastforce
  then show ?thesis using powi_less_imp_less by fastforce
qed

lemma expo_minus [simp]: "expo (- x) = expo x"
  by (simp add: expo_def)

lemma ulp_expo_minus [simp]: "ulp_expo (- x) = ulp_expo x"
  by (simp add: ulp_expo_def)

subsection \<open>Rounding to an integer\<close>

lemma round_half_even_of_int [simp]: "round_half_even (of_int n) = n"
  by (simp add: round_half_even_def)

lemma round_half_even_error: "\<bar>of_int (round_half_even x) - x\<bar> \<le> 1/2"
proof -
  have "of_int \<lfloor>x\<rfloor> \<le> x" and "x < of_int \<lfloor>x\<rfloor> + 1" by linarith+
  then show ?thesis by (simp add: round_half_even_def Let_def abs_le_iff)
qed

lemma round_half_even_mono:
  assumes "x \<le> y"
  shows "round_half_even x \<le> round_half_even y"
proof (cases "\<lfloor>x\<rfloor> = \<lfloor>y\<rfloor>")
  case True
  then show ?thesis using assms by (auto simp: round_half_even_def Let_def)
next
  case False
  then have "\<lfloor>x\<rfloor> + 1 \<le> \<lfloor>y\<rfloor>" using floor_mono [OF assms] by linarith
  moreover have "round_half_even x \<le> \<lfloor>x\<rfloor> + 1" and "\<lfloor>y\<rfloor> \<le> round_half_even y"
    by (auto simp: round_half_even_def Let_def)
  ultimately show ?thesis by linarith
qed

lemma round_half_even_minus: "round_half_even (- x) = - round_half_even x"
proof (cases "x = of_int \<lfloor>x\<rfloor>")
  case True
  then show ?thesis by (metis of_int_minus round_half_even_of_int)
next
  case False
  then have "\<lfloor>- x\<rfloor> = - \<lfloor>x\<rfloor> - 1"
    by linarith
  then show ?thesis
    by (auto simp: round_half_even_def Let_def)
qed

subsection \<open>Laws of the rounding\<close>

definition fl_at :: "int \<Rightarrow> rat \<Rightarrow> rat" where
  \<comment> \<open>rounding to a multiple of \<open>2 powi k\<close>\<close>
  "fl_at k x = of_int (round_half_even (x / 2 powi k)) * 2 powi k"

lemma fl_eq_fl_at: "fl x = fl_at (ulp_expo x) x"
  by (auto simp: fl_def fl_at_def round_half_even_of_int [of 0, simplified])

lemma fl_at_mono: "x \<le> y \<Longrightarrow> fl_at k x \<le> fl_at k y"
  by (simp add: fl_at_def round_half_even_mono divide_right_mono)

lemma fl_at_exact: "fl_at k (of_int m * 2 powi k) = of_int m * 2 powi k"
  by (simp add: fl_at_def)

lemma fl_at_powi:
  assumes "k \<le> j"
  shows "fl_at k (2 powi j) = 2 powi j"
proof -
  have "(2 powi j :: rat) = of_int (2 ^ nat (j - k)) * 2 powi k"
    using assms by (simp add: power_int_nonneg_exp [symmetric] power_int_add [symmetric])
  then show ?thesis using fl_at_exact [of k "2 ^ nat (j - k)"] by simp
qed

lemma fl_at_error: "\<bar>fl_at k x - x\<bar> \<le> 2 powi k / 2"
proof -
  have "fl_at k x - x = (of_int (round_half_even (x / 2 powi k)) - x / 2 powi k) * 2 powi k"
    by (simp add: fl_at_def left_diff_distrib)
  then have "\<bar>fl_at k x - x\<bar> = \<bar>of_int (round_half_even (x / 2 powi k)) - x / 2 powi k\<bar> * 2 powi k"
    by (simp add: abs_mult)
  also have "\<dots> \<le> 1/2 * 2 powi k"
    by (intro mult_right_mono round_half_even_error) simp
  finally show ?thesis by simp
qed

lemma fl_0 [simp]: "fl 0 = 0"
  by (simp add: fl_def)

lemma fl_minus: "fl (- x) = - fl x"
  by (simp add: fl_def round_half_even_minus)

lemma fl_nonneg: "0 \<le> x \<Longrightarrow> 0 \<le> fl x"
  using fl_at_mono [of 0 x "ulp_expo x"] round_half_even_of_int [of 0]
  by (simp add: fl_eq_fl_at fl_at_def)

lemma fl_mono_pos:
  assumes "0 < x" and "x \<le> y"
  shows "fl x \<le> fl y"
proof (cases "ulp_expo x = ulp_expo y")
  case True
  then show ?thesis using assms by (simp add: fl_eq_fl_at fl_at_mono)
next
  case False
  have "expo x \<le> expo y" using assms by (intro expo_mono) auto
  with False have k: "ulp_expo x < ulp_expo y" and ky: "ulp_expo y + 52 = expo y"
    by (auto simp: ulp_expo_def max_def split: if_splits)
  have "x \<le> 2 powi (expo x + 1)" using expo_bounds [of x] assms by auto
  also have "(2::rat) powi (expo x + 1) \<le> 2 powi (ulp_expo x + 53)"
    by (intro power_int_increasing) (auto simp: ulp_expo_def)
  finally have "fl x \<le> 2 powi (ulp_expo x + 53)"
    using fl_at_mono [of x _ "ulp_expo x"] fl_at_powi [of "ulp_expo x" "ulp_expo x + 53"]
    by (metis fl_eq_fl_at le_add_same_cancel1 zero_le_numeral)
  also have "\<dots> \<le> 2 powi (ulp_expo y + 52)" using k by (intro power_int_increasing) auto
  also have "\<dots> \<le> fl y"
    using fl_at_mono [of "2 powi (ulp_expo y + 52)" y "ulp_expo y"] expo_bounds [of y] assms ky
      fl_at_powi [of "ulp_expo y" "ulp_expo y + 52"] by (simp add: fl_eq_fl_at)
  finally show ?thesis .
qed

lemma fl_mono:
  assumes "x \<le> y"
  shows "fl x \<le> fl y"
proof -
  consider "0 < x" | "x \<le> 0" "0 \<le> y" | "y < 0" by linarith
  then show ?thesis
  proof cases
    case 1
    then show ?thesis using assms by (rule fl_mono_pos)
  next
    case 2
    then have "0 \<le> fl (- x)" and "0 \<le> fl y" by (auto intro: fl_nonneg)
    then show ?thesis by (simp add: fl_minus)
  next
    case 3
    then show ?thesis using fl_mono_pos [of "- y" "- x"] assms by (simp add: fl_minus)
  qed
qed

lemma fl_of_int:
  assumes "\<bar>n\<bar> < 2 ^ 53"
  shows "fl (of_int n) = of_int n"
proof (cases "n = 0")
  case False
  have "(2::rat) powi expo (of_int n) \<le> of_int \<bar>n\<bar>"
    using expo_bounds(1) [of "of_int n"] False by simp
  also have "\<dots> < 2 powi 53"
    using assms by (metis of_int_less_iff of_int_numeral of_int_power power_int_numeral)
  finally have "expo (of_int n) < 53" by (rule powi_less_imp_less)
  then have k: "ulp_expo (of_int n) \<le> 0" by (simp add: ulp_expo_def)
  let ?k = "ulp_expo (of_int n)"
  have "(of_int n :: rat) = of_int (n * 2 ^ nat (- ?k)) * 2 powi ?k"
    using k by (simp add: power_int_nonneg_exp [symmetric] power_int_minus)
  then show ?thesis using fl_at_exact [of ?k "n * 2 ^ nat (- ?k)"] by (simp only: fl_eq_fl_at)
qed simp

lemma fl_error:
  assumes "2 powi (-1022) \<le> \<bar>x\<bar>"
  shows "\<bar>fl x - x\<bar> \<le> \<bar>x\<bar> / 2 ^ 53"
proof -
  have nz: "x \<noteq> 0" using assms zero_less_power_int [of "2::rat" "-1022"] by auto
  have "(2::rat) powi (-1022) < 2 powi (expo x + 1)"
    using assms expo_bounds(2) [OF nz] by linarith
  then have k: "ulp_expo x = expo x - 52"
    using powi_less_imp_less by (fastforce simp: ulp_expo_def)
  have "\<bar>fl x - x\<bar> \<le> 2 powi (expo x - 52) / 2"
    using fl_at_error [of "ulp_expo x" x] k by (simp add: fl_eq_fl_at)
  also have "\<dots> = 2 powi expo x / 2 ^ 53"
    by (simp add: power_int_diff)
  also have "\<dots> \<le> \<bar>x\<bar> / 2 ^ 53"
    using expo_bounds(1) [OF nz] by (intro divide_right_mono) auto
  finally show ?thesis .
qed

subsection \<open>The operations of the source\<close>

definition js_add :: "f64 \<Rightarrow> f64 \<Rightarrow> f64" where [js_defs]: "js_add a b = fl (a + b)"
definition js_sub :: "f64 \<Rightarrow> f64 \<Rightarrow> f64" where [js_defs]: "js_sub a b = fl (a - b)"
definition js_mul :: "f64 \<Rightarrow> f64 \<Rightarrow> f64" where [js_defs]: "js_mul a b = fl (a * b)"
definition js_div :: "f64 \<Rightarrow> f64 \<Rightarrow> f64" where [js_defs]: "js_div a b = fl (a / b)"

text \<open>
  \<open>Math.floor\<close> and \<open>Math.round\<close> are exact; \<open>Math.round\<close> sends a tie upwards. Their results are
  integers, and the remainder \<open>%\<close> of two integers has the sign of the dividend.
\<close>

definition math_floor :: "f64 \<Rightarrow> int" where [js_defs]: "math_floor x = \<lfloor>x\<rfloor>"
definition math_round :: "f64 \<Rightarrow> int" where [js_defs]: "math_round x = \<lfloor>x + 1/2\<rfloor>"
definition js_rem :: "int \<Rightarrow> int \<Rightarrow> int" where [js_defs]: "js_rem a b = a smod b"

lemma js_rem_nonneg: "0 \<le> a \<Longrightarrow> 0 < b \<Longrightarrow> js_rem a b = a mod b"
  by (cases "a = 0") (simp_all add: js_rem_def signed_modulo_int_def)

lemma js_rem_nat: "js_rem (int a) (numeral b) = int (a mod numeral b)"
  by (simp add: js_rem_nonneg zmod_int)

lemma math_round_mono: "x \<le> y \<Longrightarrow> math_round x \<le> math_round y"
  by (simp add: math_round_def floor_mono)

lemma math_round_of_int [simp]: "math_round (of_int n) = n"
  unfolding math_round_def by linarith

lemma math_round_error: "\<bar>of_int (math_round x) - x\<bar> \<le> 1/2"
  unfolding math_round_def abs_le_iff by linarith

lemma math_round_nonneg: "0 \<le> x \<Longrightarrow> 0 \<le> math_round x"
  by (simp add: math_round_def)

subsection \<open>What clients rely on\<close>

text \<open>
  The components only use three facts of the rounding: it is monotone, exact on the integers
  below \<open>2 ^ prec\<close>, and its relative error is at most \<open>1 / 2 ^ prec\<close> on the normal range.
\<close>

locale rounding =
  fixes rnd :: "rat \<Rightarrow> rat" and prec :: nat
  assumes rnd_mono: "x \<le> y \<Longrightarrow> rnd x \<le> rnd y"
    and rnd_int: "\<bar>n\<bar> < 2 ^ prec \<Longrightarrow> rnd (of_int n) = of_int n"
    and rnd_error: "2 powi (-1022) \<le> \<bar>x\<bar> \<Longrightarrow> \<bar>rnd x - x\<bar> \<le> \<bar>x\<bar> / 2 ^ prec"
    and prec_small: "prec \<le> 1000"
begin

lemma rnd_0: "rnd 0 = 0"
  using rnd_int [of 0] by simp

lemma rnd_nonneg: "0 \<le> x \<Longrightarrow> 0 \<le> rnd x"
  using rnd_mono [of 0 x] by (simp add: rnd_0)

lemma quotient_lower:
  assumes "0 < n" and "0 < d" and "d < 2 ^ prec" and "prec \<le> m"
  shows "2 powi (- int m) \<le> (of_int n / of_int d :: rat)"
proof -
  have "(of_int d :: rat) \<le> of_int (2 ^ prec)" using assms by (simp only: of_int_le_iff)
  also have "\<dots> \<le> (2::rat) ^ m"
    using assms by (simp add: power_increasing)
  finally have "1 / 2 ^ m \<le> 1 / (of_int d :: rat)"
    using assms by (intro divide_left_mono) auto
  also have "\<dots> \<le> of_int n / of_int d"
    using assms by (intro divide_right_mono) auto
  finally show ?thesis by (simp add: power_int_minus inverse_eq_divide)
qed

lemma normal_quotient:
  assumes "0 < n" and "0 < d" and "d < 2 ^ prec"
  shows "2 powi (-1022) \<le> (of_int n / of_int d :: rat)"
  using quotient_lower [OF assms, of 1022] prec_small by simp

text \<open>Dividing and flooring is integer division, as long as the dividend is exact.\<close>

lemma rnd_floor_div:
  assumes "0 \<le> n" and "n < 2 ^ prec" and "0 < d" and "d < 2 ^ prec"
  shows "\<lfloor>rnd (of_int n / of_int d)\<rfloor> = n div d"
proof (cases "n = 0")
  case False
  let ?x = "of_int n / of_int d :: rat" and ?q = "n div d"
  have "0 \<le> ?q" and "?q \<le> n"
    using assms zdiv_mono2 [of n 1 d] by (simp_all add: pos_imp_zdiv_nonneg_iff)
  then have q: "\<bar>?q\<bar> < 2 ^ prec" using assms by simp
  have "(of_int n :: rat) = of_int (?q * d + n mod d)" by simp
  then have x: "?x = of_int ?q + of_int (n mod d) / of_int d"
    using assms by (simp only: of_int_add of_int_mult) (simp add: add_divide_distrib)
  have "of_int ?q \<le> ?x" using assms unfolding x by simp
  then have lo: "of_int ?q \<le> rnd ?x" using rnd_mono rnd_int [OF q] by metis
  have "rnd ?x \<le> ?x + ?x / 2 ^ prec"
    using rnd_error [of ?x] normal_quotient [of n d] assms False by auto
  moreover have "?x / 2 ^ prec < 1 / of_int d"
  proof -
    have "(of_int n :: rat) < 2 ^ prec"
      using assms by (metis of_int_less_iff of_int_numeral of_int_power)
    then have "of_int n / 2 ^ prec / of_int d < 1 / (of_int d :: rat)"
      using assms by (intro divide_strict_right_mono) auto
    then show ?thesis by (simp add: mult.commute)
  qed
  moreover have "?x + 1 / of_int d \<le> of_int ?q + 1"
  proof -
    have "n mod d + 1 \<le> d" using pos_mod_bound [of d n] assms by linarith
    then have "(of_int (n mod d + 1) :: rat) \<le> of_int d" by (simp only: of_int_le_iff)
    then show ?thesis using assms unfolding x by (simp add: field_simps)
  qed
  ultimately have "rnd ?x < of_int ?q + 1" by linarith
  with lo show ?thesis by (simp add: floor_eq_iff)
qed (simp add: rnd_0)

end

interpretation binary64: rounding fl 53
proof unfold_locales
  fix x y :: rat and n :: int
  show "x \<le> y \<Longrightarrow> fl x \<le> fl y" by (rule fl_mono)
  show "\<bar>n\<bar> < 2 ^ 53 \<Longrightarrow> fl (of_int n) = of_int n" by (rule fl_of_int)
  show "2 powi (-1022) \<le> \<bar>x\<bar> \<Longrightarrow> \<bar>fl x - x\<bar> \<le> \<bar>x\<bar> / 2 ^ 53" by (rule fl_error)
qed simp

lemma math_floor_div:
  assumes "0 \<le> n" and "n < 2 ^ 53" and "0 < d" and "d < 2 ^ 53"
  shows "math_floor (js_div (of_int n) (of_int d)) = n div d"
  using binary64.rnd_floor_div [OF assms] by (simp add: math_floor_def js_div_def)

lemma math_floor_div_nat:
  assumes "n < 2 ^ 53" and "numeral d < (2 ^ 53 :: int)"
  shows "math_floor (js_div (of_int (int n)) (numeral d)) = int (n div numeral d)"
proof -
  have "int n < 2 ^ 53" using assms(1) by (metis of_nat_less_numeral_power_cancel_iff)
  then show ?thesis using math_floor_div [of "int n" "numeral d"] assms(2) by (simp add: zdiv_int)
qed

end
