(* ===== verification/JS_String.thy ===== *)
theory JS_String
  imports Prelude "HOL-Library.Sublist"
begin

text \<open>
  The string operations of JavaScript the source uses. A string is its list of UTF-16 code
  units; a \<^typ>\<open>char\<close> is a code unit below 256. That is what the server sees where it inspects
  characters: Node decodes header values and busboy decodes file names as Latin-1. Text that
  is only passed on (transcript text, messages) is never inspected.
\<close>

type_synonym byte = nat

subsection \<open>Decimal numbers\<close>

definition digit_char :: "nat \<Rightarrow> char" where
  "digit_char d = char_of (48 + d)"

fun digits :: "nat \<Rightarrow> string" where
  "digits n = (if n < 10 then [digit_char n] else digits (n div 10) @ [digit_char (n mod 10)])"

declare digits.simps [simp del]

definition js_string_of_int :: "int \<Rightarrow> string" where
  \<comment> \<open>\<open>String(n)\<close> for an integer below \<open>10 ^ 21\<close>\<close>
  [js_defs]: "js_string_of_int i = (if i < 0 then ''-'' @ digits (nat (- i)) else digits (nat i))"

definition is_digit :: "char \<Rightarrow> bool" where
  "is_digit c \<longleftrightarrow> 48 \<le> (of_char c :: nat) \<and> (of_char c :: nat) < 58"

definition decimal_value :: "string \<Rightarrow> nat" where
  "decimal_value s = foldl (\<lambda>a c. 10 * a + (of_char c - 48)) 0 s"

definition parse_decimal :: "string \<Rightarrow> nat option" where
  "parse_decimal s = (if s \<noteq> [] \<and> list_all is_digit s then Some (decimal_value s) else None)"

lemma digit_char [simp]:
  assumes "d < 10"
  shows "is_digit (digit_char d)" and "(of_char (digit_char d) :: nat) = 48 + d"
  using assms by (simp_all add: is_digit_def digit_char_def)

lemma digits_nonempty [simp]: "digits n \<noteq> []"
  by (subst digits.simps) simp

lemma digits_are_digits [simp]: "list_all is_digit (digits n)"
proof (induction n rule: digits.induct)
  case (1 n)
  then show ?case by (cases "n < 10") (simp_all add: digits.simps [of n])
qed

lemma decimal_value_snoc: "decimal_value (s @ [c]) = 10 * decimal_value s + (of_char c - 48)"
  by (simp add: decimal_value_def)

lemma decimal_value_digits [simp]: "decimal_value (digits n) = n"
proof (induction n rule: digits.induct)
  case (1 n)
  show ?case
  proof (cases "n < 10")
    case True
    then show ?thesis by (simp add: digits.simps [of n] decimal_value_def)
  next
    case False
    with 1 show ?thesis by (simp add: digits.simps [of n] decimal_value_snoc)
  qed
qed

lemma decimal_value_zeros [simp]: "decimal_value (replicate k (CHR ''0'') @ s) = decimal_value s"
  by (induction k) (simp_all add: decimal_value_def)

lemma length_digits_le:
  "n < 10 ^ k \<Longrightarrow> 0 < k \<Longrightarrow> length (digits n) \<le> k"
proof (induction n arbitrary: k rule: digits.induct)
  case (1 n)
  show ?case
  proof (cases "n < 10")
    case True
    then show ?thesis using "1.prems" by (simp add: digits.simps [of n])
  next
    case False
    then have k: "1 < k" using "1.prems" by (cases "k = 1") auto
    moreover have "n div 10 < 10 ^ (k - 1)"
      using "1.prems" k by (simp add: less_mult_imp_div_less power_eq_if)
    ultimately have "length (digits (n div 10)) \<le> k - 1"
      using 1(1) [OF False, of "k - 1"] by simp
    then show ?thesis using False k by (simp add: digits.simps [of n])
  qed
qed

lemma js_string_of_nat [simp]: "js_string_of_int (int n) = digits n"
  by (simp add: js_string_of_int_def)

subsection \<open>padStart\<close>

definition pad_start :: "nat \<Rightarrow> char \<Rightarrow> string \<Rightarrow> string" where
  \<comment> \<open>\<open>s.padStart(n, c)\<close> with a fill string of one character\<close>
  [js_defs]: "pad_start n c s = replicate (n - length s) c @ s"

lemma length_pad_start: "length (pad_start n c s) = max n (length s)"
  by (simp add: pad_start_def)

lemma is_digit_0 [simp]: "is_digit (CHR ''0'')"
  by (simp add: is_digit_def)

lemma pad_start_digits [simp]: "list_all is_digit (pad_start n (CHR ''0'') (digits k))"
  by (auto simp: pad_start_def list_all_iff) (metis Ball_set digits_are_digits)

lemma parse_decimal_pad_start [simp]:
  "parse_decimal (pad_start n (CHR ''0'') (digits k)) = Some k"
  by (simp add: parse_decimal_def) (simp add: pad_start_def)

lemma parse_decimal_digits [simp]: "parse_decimal (digits k) = Some k"
  by (simp add: parse_decimal_def)

lemma digits_inj: "digits m = digits n \<longleftrightarrow> m = n"
  by (metis decimal_value_digits)

subsection \<open>Searching, slicing, case\<close>

definition last_index_of :: "char \<Rightarrow> string \<Rightarrow> int" where
  [js_defs]: "last_index_of c s = (if c \<in> set s
     then int (length s) - 1 - int (length (takeWhile (\<lambda>x. x \<noteq> c) (rev s))) else -1)"

definition slice_from :: "int \<Rightarrow> string \<Rightarrow> string" where
  \<comment> \<open>\<open>s.slice(k)\<close>; the source only calls it with \<open>k \<ge> 0\<close>\<close>
  [js_defs]: "slice_from k s = drop (nat k) s"

definition lower_unit :: "char \<Rightarrow> char" where
  \<comment> \<open>\<open>A\<close>-\<open>Z\<close> and the Latin-1 capitals (192-222 but for 215) are 32 below their small letters\<close>
  "lower_unit c = (let n = of_char c :: nat in
     if 65 \<le> n \<and> n \<le> 90 \<or> 192 \<le> n \<and> n \<le> 222 \<and> n \<noteq> 215 then char_of (n + 32) else c)"

definition to_lower_case :: "string \<Rightarrow> string" where
  [js_defs]: "to_lower_case s = map lower_unit s"

definition starts_with :: "string \<Rightarrow> string \<Rightarrow> bool" where
  [js_defs]: "starts_with s p \<longleftrightarrow> take (length p) s = p"

fun js_join :: "string \<Rightarrow> string list \<Rightarrow> string" where
  "js_join sep [] = []"
| "js_join sep [x] = x"
| "js_join sep (x # y # xs) = x @ sep @ js_join sep (y # xs)"

lemma last_index_of_absent: "c \<notin> set s \<Longrightarrow> last_index_of c s = -1"
  by (simp add: last_index_of_def)

lemma last_index_of_last:
  "c \<notin> set e \<Longrightarrow> last_index_of c (p @ c # e) = int (length p)"
  by (simp add: last_index_of_def)

lemma slice_after:
  "slice_from (int (length p) + 1) (p @ c # e) = e"
  by (simp add: slice_from_def nat_add_distrib)

lemma last_split:
  assumes "c \<in> set s"
  obtains p e where "s = p @ c # e" and "c \<notin> set e"
  using split_list_last [OF assms] by blast

lemma js_join_snoc: "xs \<noteq> [] \<Longrightarrow> js_join sep (xs @ [y]) = js_join sep xs @ sep @ y"
  by (induction sep xs rule: js_join.induct) auto

lemma js_join_Cons: "js_join sep (x # xs) = (if xs = [] then x else x @ sep @ js_join sep xs)"
  by (cases xs) auto

subsection \<open>Splitting at a character\<close>

definition split_at_char :: "char \<Rightarrow> string \<Rightarrow> string \<times> string" where
  "split_at_char c s = (takeWhile (\<lambda>x. x \<noteq> c) s, drop 1 (dropWhile (\<lambda>x. x \<noteq> c) s))"

lemma split_at_char_hit: "c \<notin> set a \<Longrightarrow> split_at_char c (a @ c # b) = (a, b)"
  by (simp add: split_at_char_def)

lemma split_at_char_miss: "c \<notin> set a \<Longrightarrow> split_at_char c a = (a, [])"
  by (simp add: split_at_char_def)

lemma split_at_char_length: "s \<noteq> [] \<Longrightarrow> split_at_char c s = (a, b) \<Longrightarrow> length b < length s"
proof -
  assume "s \<noteq> []" and "split_at_char c s = (a, b)"
  then have "b = drop 1 (dropWhile (\<lambda>x. x \<noteq> c) s)" by (simp add: split_at_char_def)
  moreover have "length (dropWhile (\<lambda>x. x \<noteq> c) s) \<le> length s" by (rule length_dropWhile_le)
  ultimately show ?thesis using \<open>s \<noteq> []\<close> by (cases s) auto
qed

lemma split_at_char_length_le: "split_at_char c s = (a, b) \<Longrightarrow> length b \<le> length s"
  using split_at_char_length [of s c a b] by (cases "s = []") (auto simp: split_at_char_def)

subsection \<open>UTF-8, as \<open>Buffer.from(s)\<close> encodes\<close>

definition utf8_unit :: "char \<Rightarrow> byte list" where
  "utf8_unit c = (let n = of_char c in if n < 128 then [n] else [192 + n div 64, 128 + n mod 64])"

definition utf8 :: "string \<Rightarrow> byte list" where
  [js_defs]: "utf8 s = concat (map utf8_unit s)"

fun utf8_decode :: "byte list \<Rightarrow> string" where
  "utf8_decode [] = []"
| "utf8_decode [b] = [char_of b]"
| "utf8_decode (b # b' # bs) =
     (if b < 128 then char_of b # utf8_decode (b' # bs)
      else char_of (64 * (b - 192) + (b' - 128)) # utf8_decode bs)"

lemma utf8_decode_ascii: "b < 128 \<Longrightarrow> utf8_decode (b # bs) = char_of b # utf8_decode bs"
  by (cases bs) auto

lemma utf8_decode_unit: "utf8_decode (utf8_unit c @ bs) = c # utf8_decode bs"
proof (cases "(of_char c :: nat) < 128")
  case True
  then show ?thesis by (simp add: utf8_unit_def utf8_decode_ascii)
next
  case False
  then show ?thesis by (simp add: utf8_unit_def Let_def)
qed

lemma utf8_decode_utf8 [simp]: "utf8_decode (utf8 s) = s"
  by (induction s) (simp_all add: utf8_def utf8_decode_unit)

lemma utf8_inj: "utf8 a = utf8 b \<longleftrightarrow> a = b"
  by (metis utf8_decode_utf8)

subsection \<open>POSIX paths, as \<open>path.join\<close> computes them\<close>

fun split_on :: "char \<Rightarrow> string \<Rightarrow> string list" where
  "split_on c [] = [[]]"
| "split_on c (x # xs) = (if x = c then [] # split_on c xs
     else (case split_on c xs of [] \<Rightarrow> [[x]] | s # ss \<Rightarrow> (x # s) # ss))"

fun normalize_segments :: "bool \<Rightarrow> string list \<Rightarrow> string list \<Rightarrow> string list" where
  \<comment> \<open>the segments kept so far are in reverse; the flag allows \<open>..\<close> above the start\<close>
  "normalize_segments up acc [] = rev acc"
| "normalize_segments up acc (s # ss) =
     (if s = [] \<or> s = ''.'' then normalize_segments up acc ss
      else if s = ''..'' then
        (case acc of
           [] \<Rightarrow> normalize_segments up (if up then [s] else []) ss
         | a # as \<Rightarrow> if a = ''..'' then normalize_segments up (s # acc) ss
                   else normalize_segments up as ss)
      else normalize_segments up (s # acc) ss)"

definition is_absolute :: "string \<Rightarrow> bool" where
  "is_absolute p \<longleftrightarrow> starts_with p ''/''"

definition path_segments :: "string \<Rightarrow> string list" where
  "path_segments p = normalize_segments (\<not> is_absolute p) [] (split_on (CHR ''/'') p)"

definition path_normalize :: "string \<Rightarrow> string" where
  "path_normalize p = (if p = [] then ''.'' else
     let trailing = last p = CHR ''/''; body = js_join ''/'' (path_segments p);
       body' = (if body = [] then (if is_absolute p then [] else if trailing then ''./'' else ''.'')
                else if trailing then body @ ''/'' else body)
     in if is_absolute p then ''/'' @ body' else body')"

definition path_join :: "string \<Rightarrow> string \<Rightarrow> string" where
  \<comment> \<open>\<open>join(a, b)\<close>: empty arguments are left out\<close>
  [js_defs]: "path_join a b = path_normalize
     (if a = [] then b else if b = [] then a else a @ ''/'' @ b)"

definition plain_segment :: "string \<Rightarrow> bool" where
  "plain_segment s \<longleftrightarrow> s \<noteq> [] \<and> s \<noteq> ''.'' \<and> s \<noteq> ''..'' \<and> CHR ''/'' \<notin> set s"

lemma split_on_nonempty [simp]: "split_on c s \<noteq> []"
  by (induction s) (auto split: list.splits)

lemma split_on_plain: "c \<notin> set s \<Longrightarrow> split_on c s = [s]"
  by (induction s) auto

lemma split_on_append: "split_on c (a @ c # b) = split_on c a @ split_on c b"
proof (induction a)
  case (Cons x a)
  then show ?case by (cases "split_on c a") auto
qed simp

lemma normalize_segments_snoc:
  assumes "plain_segment name"
  shows "normalize_segments up acc (ss @ [name]) = normalize_segments up acc ss @ [name]"
  using assms
  by (induction up acc ss rule: normalize_segments.induct)
    (auto simp: plain_segment_def split: list.splits)

text \<open>Joining a plain file name to an absolute directory appends one segment, whatever the
  spelling of the directory.\<close>

lemma path_join_file:
  assumes "is_absolute dir" and name: "plain_segment name"
  shows "path_join dir name = ''/'' @ js_join ''/'' (path_segments dir @ [name])"
proof -
  let ?p = "dir @ ''/'' @ name"
  have abs: "is_absolute ?p" and ne: "dir \<noteq> []" "name \<noteq> []"
    using assms by (cases dir; auto simp: is_absolute_def starts_with_def plain_segment_def)+
  have "split_on (CHR ''/'') ?p = split_on (CHR ''/'') dir @ [name]"
    using name by (simp add: split_on_append split_on_plain plain_segment_def)
  then have seg: "path_segments ?p = path_segments dir @ [name]"
    using assms abs by (simp add: path_segments_def normalize_segments_snoc)
  have "last ?p \<noteq> CHR ''/''"
    using name by (auto simp: plain_segment_def dest: last_in_set)
  moreover have "js_join ''/'' (path_segments dir @ [name]) \<noteq> []"
    using ne by (cases "path_segments dir = []") (auto simp: js_join_snoc)
  ultimately show ?thesis
    using ne abs seg by (simp add: path_join_def path_normalize_def Let_def)
qed

subsection \<open>Normal paths\<close>

lemma split_on_no_sep: "s \<in> set (split_on c p) \<Longrightarrow> c \<notin> set s"
  by (induction p arbitrary: s) (auto split: list.splits if_splits)

lemma split_on_join:
  "ss \<noteq> [] \<Longrightarrow> \<forall>s \<in> set ss. c \<notin> set s \<Longrightarrow> split_on c (js_join [c] ss) = ss"
  by (induction "[c]" ss rule: js_join.induct) (auto simp: split_on_plain split_on_append)

lemma normalize_segments_plain:
  "(\<forall>s \<in> set ss. CHR ''/'' \<notin> set s) \<Longrightarrow> (\<forall>s \<in> set acc. plain_segment s) \<Longrightarrow>
     \<forall>s \<in> set (normalize_segments False acc ss). plain_segment s"
proof (induction ss arbitrary: acc)
  case (Cons s ss)
  consider "s = [] \<or> s = ''.''" | "s = ''..''" | "plain_segment s"
    using Cons.prems(1) by (auto simp: plain_segment_def)
  then show ?case
  proof cases
    case 2
    have ss: "\<forall>s \<in> set ss. CHR ''/'' \<notin> set s" using Cons.prems(1) by simp
    show ?thesis
    proof (cases acc)
      case Nil
      then show ?thesis using 2 Cons.IH [OF ss, of "[]"] by simp
    next
      case acc: (Cons a as)
      then have "a \<noteq> ''..''" and "\<forall>s \<in> set as. plain_segment s"
        using Cons.prems(2) by (simp_all add: plain_segment_def)
      then show ?thesis using 2 acc Cons.IH [OF ss, of as] by simp
    qed
  next
    case 3
    then have "s \<noteq> []" "s \<noteq> ''.''" "s \<noteq> ''..''" by (auto simp: plain_segment_def)
    then have step: "normalize_segments False acc (s # ss) = normalize_segments False (s # acc) ss"
      by simp
    have "\<forall>x \<in> set ss. CHR ''/'' \<notin> set x" and "\<forall>x \<in> set (s # acc). plain_segment x"
      using 3 Cons.prems by simp_all
    then show ?thesis unfolding step by (rule Cons.IH)
  qed (use Cons in auto)
qed simp

lemma normalize_segments_id:
  "\<forall>s \<in> set ss. plain_segment s \<Longrightarrow> normalize_segments up acc ss = rev acc @ ss"
proof (induction ss arbitrary: acc)
  case (Cons s ss)
  then have "s \<noteq> []" "s \<noteq> ''.''" "s \<noteq> ''..''" by (auto simp: plain_segment_def)
  with Cons show ?case by simp
qed simp

lemma path_segments_plain: "is_absolute p \<Longrightarrow> \<forall>s \<in> set (path_segments p). plain_segment s"
  using normalize_segments_plain [of "split_on (CHR ''/'') p" "[]"] split_on_no_sep
  by (auto simp: path_segments_def)

definition path_of :: "string list \<Rightarrow> string" where
  \<comment> \<open>the normal spelling of an absolute path\<close>
  "path_of ss = ''/'' @ js_join ''/'' ss"

lemma is_absolute_path_of [simp]: "is_absolute (path_of ss)"
  by (simp add: path_of_def is_absolute_def starts_with_def)

lemma path_segments_path_of:
  assumes "\<forall>s \<in> set ss. plain_segment s"
  shows "path_segments (path_of ss) = ss"
proof (cases "ss = []")
  case False
  then have "split_on (CHR ''/'') (path_of ss) = [] # ss"
    using assms split_on_join [of ss "CHR ''/''"] by (simp add: path_of_def plain_segment_def)
  then have "path_segments (path_of ss) = normalize_segments False [] ss"
    using is_absolute_path_of [of ss] by (simp add: path_segments_def)
  then show ?thesis using normalize_segments_id [OF assms] by simp
qed (simp add: path_segments_def path_of_def is_absolute_def starts_with_def)

lemma path_join_abs:
  "is_absolute dir \<Longrightarrow> plain_segment name \<Longrightarrow> path_join dir name = path_of (path_segments dir @ [name])"
  by (simp add: path_join_file path_of_def)

lemma path_join_path_of:
  assumes "\<forall>s \<in> set ss. plain_segment s" and "plain_segment name"
  shows "path_join (path_of ss) name = path_of (ss @ [name])"
  using path_join_abs [of "path_of ss" name] assms path_segments_path_of by simp

lemma path_of_snoc: "ss \<noteq> [] \<Longrightarrow> path_of (ss @ [name]) = path_of ss @ ''/'' @ name"
  by (simp add: path_of_def js_join_snoc)

lemma path_normalize_path_of:
  assumes "\<forall>s \<in> set ss. plain_segment s" and "ss \<noteq> []"
  shows "path_normalize (path_of ss) = path_of ss"
proof -
  obtain ts t where ss: "ss = ts @ [t]" using assms(2) by (cases ss rule: rev_cases) auto
  then have t: "plain_segment t" using assms(1) by simp
  have j: "js_join ''/'' ss \<noteq> []" "last (js_join ''/'' ss) = last t"
    using t by (cases "ts = []"; simp add: ss js_join_snoc plain_segment_def)+
  have "last t \<noteq> CHR ''/''" using t by (metis last_in_set plain_segment_def)
  then show ?thesis
    using j assms path_segments_path_of [OF assms(1)] is_absolute_path_of [of ss]
    by (simp add: path_normalize_def path_of_def)
qed

end
