(* ===== verification/Job_Entity.thy ===== *)
theory Job_Entity
  imports JS_Number JS_String
begin

text \<open>
  The \<open>Job\<close> entity (\<open>api/src/transcriptions/entities/job.entity.ts\<close>) and the response shapes
  computed from it (\<open>api/src/transcriptions/dto/job-response.dto.ts\<close>).

  The columns that the list query selects come first (record \<open>job_row\<close>); \<open>job\<close> extends them with
  the columns that query leaves out, so that the projection done by \<open>select\<close> is
  \<open>job_row.truncate\<close> and a summary can be computed from either. A nullable column is an option;
  a date is its number of milliseconds.
\<close>

datatype job_status = Queued | Processing | Completed | Failed

fun status_text :: "job_status \<Rightarrow> string" where
  "status_text Queued = ''queued''"
| "status_text Processing = ''processing''"
| "status_text Completed = ''completed''"
| "status_text Failed = ''failed''"

lemma status_text_inj: "status_text a = status_text b \<longleftrightarrow> a = b"
  by (cases a; cases b) simp_all

type_synonym date = int

record transcript_segment =
  seg_id :: int
  seg_start :: f64
  seg_end :: f64
  seg_text :: string

record transcript =
  text_of :: string
  transcript_language :: string
  transcript_duration :: f64
  segments :: "transcript_segment list"

record job_row =
  jid :: string
  status :: job_status
  originalName :: string
  language :: "string option"
  durationSec :: "f64 option"
  progress :: f64
  attempts :: int
  createdAt :: date
  updatedAt :: date

record job = job_row +
  filePath :: string
  contentHash :: "string option"
  job_error :: "string option"
  job_transcript :: "transcript option"

subsection \<open>Responses\<close>

record created_job_dto =
  dto_id :: string
  dto_status :: job_status

record job_summary_dto = created_job_dto +
  dto_originalName :: string
  dto_language :: "string option"
  dto_durationSec :: "f64 option"
  dto_progress :: f64
  dto_attempts :: int
  dto_createdAt :: date
  dto_updatedAt :: date

text \<open>
  An optional property \<open>error?: string | null\<close> has three states: absent (\<open>None\<close>), \<open>null\<close>
  (\<open>Some None\<close>) and a string.
\<close>

record job_detail_dto = job_summary_dto +
  dto_error :: "string option option"
  dto_transcript :: "transcript option option"

definition to_job_summary :: "'a job_row_scheme \<Rightarrow> job_summary_dto" where
  "to_job_summary job = \<lparr>dto_id = jid job, dto_status = status job,
     dto_originalName = originalName job, dto_language = language job,
     dto_durationSec = durationSec job, dto_progress = progress job,
     dto_attempts = attempts job, dto_createdAt = createdAt job,
     dto_updatedAt = updatedAt job\<rparr>"

definition to_job_detail :: "job \<Rightarrow> job_detail_dto" where
  "to_job_detail job = job_summary_dto.extend (to_job_summary job)
     \<lparr>dto_error = (if status job = Failed then Some (job_error job) else None),
      dto_transcript = (if status job = Completed then Some (job_transcript job) else None)\<rparr>"

lemma to_job_summary_truncate [simp]:
  "to_job_summary (job_row.truncate j) = to_job_summary j"
  by (simp add: to_job_summary_def job_row.defs)

lemma to_job_summary_simps [simp]:
  "dto_id (to_job_summary j) = jid j"
  "dto_status (to_job_summary j) = status j"
  by (simp_all add: to_job_summary_def)

text \<open>
  What a poll discloses: the stored error text appears in the detail response exactly when
  the job has failed, and the transcript exactly when it is completed; a queued or processing
  job shows neither, even when an earlier attempt stored an error.
\<close>

theorem detail_disclosure:
  "dto_error (to_job_detail j) = (case status j of Failed \<Rightarrow> Some (job_error j) | _ \<Rightarrow> None) \<and>
   dto_transcript (to_job_detail j) =
     (case status j of Completed \<Rightarrow> Some (job_transcript j) | _ \<Rightarrow> None) \<and>
   job_summary_dto.truncate (to_job_detail j) = to_job_summary j"
  by (cases "status j") (simp_all add: to_job_detail_def to_job_summary_def job_summary_dto.defs)

end
