(* ===== verification/Http_Errors.thy ===== *)
theory Http_Errors
  imports Prelude
begin

text \<open>
  What the API code throws: the exceptions of \<open>@nestjs/common\<close> that the source constructs, and
  any other error (a rejected promise of the database, the file system or the broker), which the
  framework answers with status 500. \<open>status_code\<close> is the table of \<open>README.md\<close> (API reference).
\<close>

datatype exn =
    BadRequestException string
  | UnauthorizedException string
  | NotFoundException string
  | ConflictException string
  | UnsupportedMediaTypeException string
  | PayloadTooLargeException string          \<comment> \<open>only thrown by the framework\<close>
  | ServiceUnavailableException string
  | RangeError
  | Error string

fun status_code :: "exn \<Rightarrow> nat" where
  "status_code (BadRequestException _) = 400"
| "status_code (UnauthorizedException _) = 401"
| "status_code (NotFoundException _) = 404"
| "status_code (ConflictException _) = 409"
| "status_code (UnsupportedMediaTypeException _) = 415"
| "status_code (PayloadTooLargeException _) = 413"
| "status_code (ServiceUnavailableException _) = 503"
| "status_code RangeError = 500"
| "status_code (Error _) = 500"

end
