(* ===== verification/Job_Repository.thy ===== *)
theory Job_Repository
  imports Job_Entity Http_Errors
begin

text \<open>
  The interface of the job table as the API uses it: TypeORM's \<open>Repository<Job>\<close>. The library and
  the database behind it are not part of the repository, so the service takes its operations as a
  record and relies on the laws of the locale \<open>job_repository\<close>. Any call may instead throw: a
  statement that failed leaves the rows as they were, and one whose commit went through but whose
  answer was lost (a dropped connection) has had its effect although it throws. \<open>insert_row\<close> is the row an insert creates, with the column
  defaults the entity declares. A table kept as a list provides the interface.
\<close>

record new_job =
  n_id :: string
  n_status :: job_status
  n_originalName :: string
  n_filePath :: string
  n_contentHash :: "string option"

definition insert_row :: "new_job \<Rightarrow> date \<Rightarrow> job" where
  "insert_row n now = \<lparr>jid = n_id n, status = n_status n, originalName = n_originalName n,
     language = None, durationSec = None, progress = 0, attempts = 0,
     createdAt = now, updatedAt = now, filePath = n_filePath n,
     contentHash = n_contentHash n, job_error = None, job_transcript = None\<rparr>"

text \<open>A \<open>where\<close> clause constrains the columns it mentions to be equal to a value.\<close>

record where_clause =
  w_id :: "string option"
  w_contentHash :: "string option"
  w_status :: "job_status option"

definition matches :: "where_clause \<Rightarrow> job \<Rightarrow> bool" where
  "matches w j \<longleftrightarrow> (w_id w = None \<or> w_id w = Some (jid j)) \<and>
     (w_contentHash w = None \<or> w_contentHash w = contentHash j) \<and>
     (w_status w = None \<or> w_status w = Some (status j))"

datatype row_order = CreatedAtDesc

record find_options =
  fo_order :: row_order
  fo_take :: nat
  fo_skip :: nat

record 'db repository =
  repo_findOne :: "where_clause \<Rightarrow> 'db \<Rightarrow> (exn, job option) result"
  repo_save :: "new_job \<Rightarrow> 'db \<Rightarrow> (exn, job) result \<times> 'db"
  repo_delete :: "string \<Rightarrow> 'db \<Rightarrow> (exn, unit) result \<times> 'db"
  repo_find :: "find_options \<Rightarrow> 'db \<Rightarrow> (exn, job_row list) result"

definition newest_first :: "'a job_row_scheme list \<Rightarrow> bool" where
  "newest_first js \<longleftrightarrow> sorted_wrt (\<lambda>a b. createdAt b \<le> createdAt a) js"

definition lists_rows :: "(string \<Rightarrow> job option) \<Rightarrow> job list \<Rightarrow> bool" where
  "lists_rows rows js \<longleftrightarrow> distinct (map jid js) \<and> (\<forall>i j. rows i = Some j \<longleftrightarrow> j \<in> set js \<and> jid j = i)"

locale job_repository =
  fixes repo :: "'db repository"
    and rows :: "'db \<Rightarrow> string \<Rightarrow> job option"
    and inv :: "'db \<Rightarrow> bool"
  assumes rows_jid: "inv db \<Longrightarrow> rows db i = Some j \<Longrightarrow> jid j = i"
    and findOne_Some: "inv db \<Longrightarrow> repo_findOne repo w db = Inr (Some j) \<Longrightarrow>
      matches w j \<and> rows db (jid j) = Some j"
    and findOne_None: "inv db \<Longrightarrow> repo_findOne repo w db = Inr None \<Longrightarrow> rows db i = Some j \<Longrightarrow>
      \<not> matches w j"
    and save_new: "inv db \<Longrightarrow> rows db (n_id n) = None \<Longrightarrow> repo_save repo n db = (Inr j, db') \<Longrightarrow>
      inv db' \<and> rows db' = (rows db)(n_id n \<mapsto> j) \<and> (\<exists>now. j = insert_row n now)"
    and save_throws: "inv db \<Longrightarrow> rows db (n_id n) = None \<Longrightarrow> repo_save repo n db = (Inl e, db') \<Longrightarrow>
      inv db' \<and> (rows db' = rows db \<or> (\<exists>now. rows db' = (rows db)(n_id n \<mapsto> insert_row n now)))"
    and delete_row: "inv db \<Longrightarrow> repo_delete repo i db = (Inr u, db') \<Longrightarrow>
      inv db' \<and> rows db' = (rows db)(i := None)"
    and delete_throws: "inv db \<Longrightarrow> repo_delete repo i db = (Inl e, db') \<Longrightarrow>
      inv db' \<and> (rows db' = rows db \<or> rows db' = (rows db)(i := None))"
    and find_page: "inv db \<Longrightarrow> repo_find repo opts db = Inr rs \<Longrightarrow>
      \<exists>js. lists_rows (rows db) js \<and> newest_first js \<and>
        rs = map job_row.truncate (take (fo_take opts) (drop (fo_skip opts) js))"
begin

lemma findOne_by_id:
  assumes "inv db" and "repo_findOne repo \<lparr>w_id = Some i, w_contentHash = None, w_status = None\<rparr> db = Inr r"
  shows "r = rows db i"
proof (cases r)
  case None
  have "\<not> (\<exists>j. rows db i = Some j)"
  proof
    assume "\<exists>j. rows db i = Some j"
    then obtain j where "rows db i = Some j" ..
    with findOne_None [OF assms(1) assms(2) [unfolded None] this] rows_jid [OF assms(1) this]
    show False by (simp add: matches_def)
  qed
  with None show ?thesis by simp
next
  case (Some j)
  then show ?thesis using findOne_Some [OF assms(1) assms(2) [unfolded Some]]
    by (simp add: matches_def)
qed

lemma save_then_delete:
  assumes "inv db" and "rows db (n_id n) = None" and "repo_save repo n db = (Inr j, db')"
    and "repo_delete repo (n_id n) db' = (Inr u, db'')"
  shows "inv db'' \<and> rows db'' = rows db"
  using save_new [OF assms(1-3)] delete_row [OF _ assms(4)] assms(2) by (auto simp: fun_upd_idem)

end

subsection \<open>A table as a list of rows\<close>

type_synonym table = "job list"

definition table_rows :: "table \<Rightarrow> string \<Rightarrow> job option" where
  "table_rows t i = find (\<lambda>j. jid j = i) t"

definition table_inv :: "table \<Rightarrow> bool" where
  "table_inv t \<longleftrightarrow> distinct (map jid t)"

definition table_repository :: "date \<Rightarrow> table repository" where
  "table_repository now = \<lparr>
     repo_findOne = (\<lambda>w t. Inr (find (matches w) t)),
     repo_save = (\<lambda>n t. if table_rows t (n_id n) = None
       then (Inr (insert_row n now), t @ [insert_row n now]) else (Inl (Error ''duplicate key''), t)),
     repo_delete = (\<lambda>i t. (Inr (), filter (\<lambda>j. jid j \<noteq> i) t)),
     repo_find = (\<lambda>opts t. Inr (map job_row.truncate
       (take (fo_take opts) (drop (fo_skip opts) (sort_key (\<lambda>j. - createdAt j) t)))))\<rparr>"

lemma table_rows_Some_iff:
  "table_inv t \<Longrightarrow> table_rows t i = Some j \<longleftrightarrow> j \<in> set t \<and> jid j = i"
proof (induction t)
  case (Cons k t)
  then show ?case by (auto simp: table_rows_def table_inv_def image_iff)
qed (simp add: table_rows_def)

lemma table_rows_None_iff: "table_rows t i = None \<longleftrightarrow> i \<notin> jid ` set t"
  by (auto simp: table_rows_def find_None_iff)

lemma table_rows_append:
  "table_rows (t @ [j]) i = (case table_rows t i of None \<Rightarrow> if jid j = i then Some j else None | r \<Rightarrow> r)"
  by (induction t) (auto simp: table_rows_def)

lemma table_rows_filter:
  "table_rows (filter (\<lambda>j. jid j \<noteq> i) t) = (table_rows t)(i := None)"
  by (induction t) (auto simp: table_rows_def fun_eq_iff)

lemma table_inv_filter: "table_inv t \<Longrightarrow> table_inv (filter P t)"
  by (simp add: table_inv_def distinct_map_filter)

lemma table_inv_snoc: "table_inv t \<Longrightarrow> table_rows t (jid j) = None \<Longrightarrow> table_inv (t @ [j])"
  by (auto simp: table_inv_def table_rows_None_iff)

lemma newest_first_sort: "newest_first (sort_key (\<lambda>j. - createdAt j) t)"
proof -
  have "sorted (map (\<lambda>j. - createdAt j) (sort_key (\<lambda>j. - createdAt j) t))" by (rule sorted_sort_key)
  then show ?thesis by (simp add: newest_first_def sorted_map)
qed

interpretation jobs_table: job_repository "table_repository now" table_rows table_inv for now
proof unfold_locales
  fix db db' :: table and i w j n e u opts rs
  assume inv: "table_inv db"
  show "table_rows db i = Some j \<Longrightarrow> jid j = i" using inv by (simp add: table_rows_Some_iff)
  show "repo_findOne (table_repository now) w db = Inr (Some j) \<Longrightarrow>
      matches w j \<and> table_rows db (jid j) = Some j"
    using inv by (auto simp: table_repository_def table_rows_Some_iff find_Some_iff)
  show "repo_findOne (table_repository now) w db = Inr None \<Longrightarrow> table_rows db i = Some j \<Longrightarrow> \<not> matches w j"
    using inv by (auto simp: table_repository_def table_rows_Some_iff find_None_iff)
  show "table_rows db (n_id n) = None \<Longrightarrow> repo_save (table_repository now) n db = (Inr j, db') \<Longrightarrow>
      table_inv db' \<and> table_rows db' = (table_rows db)(n_id n \<mapsto> j) \<and> (\<exists>now. j = insert_row n now)"
    using inv table_inv_snoc [of db "insert_row n now"]
    by (auto simp: table_repository_def table_rows_append fun_eq_iff insert_row_def split: option.splits)
  show "table_rows db (n_id n) = None \<Longrightarrow> repo_save (table_repository now) n db = (Inl e, db') \<Longrightarrow>
      table_inv db' \<and> (table_rows db' = table_rows db \<or>
        (\<exists>now. table_rows db' = (table_rows db)(n_id n \<mapsto> insert_row n now)))"
    using inv by (auto simp: table_repository_def split: if_splits)
  show "repo_delete (table_repository now) i db = (Inr u, db') \<Longrightarrow>
      table_inv db' \<and> table_rows db' = (table_rows db)(i := None)"
    using inv by (auto simp: table_repository_def table_rows_filter table_inv_filter)
  show "repo_delete (table_repository now) i db = (Inl e, db') \<Longrightarrow>
      table_inv db' \<and> (table_rows db' = table_rows db \<or> table_rows db' = (table_rows db)(i := None))"
    by (simp add: table_repository_def)
  show "repo_find (table_repository now) opts db = Inr rs \<Longrightarrow>
      \<exists>js. lists_rows (table_rows db) js \<and> newest_first js \<and>
        rs = map job_row.truncate (take (fo_take opts) (drop (fo_skip opts) js))"
    using inv newest_first_sort [of db]
    by (intro exI [of _ "sort_key (\<lambda>j. - createdAt j) db"])
      (auto simp: table_repository_def lists_rows_def table_rows_Some_iff table_inv_def distinct_map)
qed

end
