(* ===== verification/Upload_Validation.thy ===== *)
theory Upload_Validation
  imports JS_String
begin

text \<open>
  Checks on an upload before it is accepted (\<open>api/src/storage/upload-validation.ts\<close>) and the
  options given to multer (\<open>api/src/transcriptions/transcriptions.module.ts\<close>).
\<close>

abbreviation dquote :: char where "dquote \<equiv> CHR 0x22"
abbreviation dot :: char where "dot \<equiv> CHR ''.''"
abbreviation slash :: char where "slash \<equiv> CHR ''/''"

definition ALLOWED_EXTENSIONS :: "string list" where
  "ALLOWED_EXTENSIONS = [''wav'', ''mp3'', ''m4a'', ''flac'', ''ogg'', ''webm'']"

definition ALLOWED_NON_AUDIO_MIMES :: "string list" where
  "ALLOWED_NON_AUDIO_MIMES =
     [''application/octet-stream'', ''application/ogg'', ''video/webm'']"

definition extension_of :: "string \<Rightarrow> string" where
  "extension_of filename = (let idx = last_index_of dot filename
     in if idx > 0 then to_lower_case (slice_from (idx + 1) filename) else [])"

text \<open>The result is the reason of the rejection, or \<open>None\<close> (\<open>null\<close> in the source).\<close>

definition validate_upload :: "string \<Rightarrow> string \<Rightarrow> string option" where
  "validate_upload originalName mimeType =
    (let ext = extension_of originalName
     in if ext \<notin> set ALLOWED_EXTENSIONS then
          Some (''Unsupported file extension '' @ [dquote, dot] @ ext @ [dquote] @ ''; allowed: '' @
            js_join '', '' ALLOWED_EXTENSIONS)
        else if \<not> starts_with mimeType ''audio/'' \<and> mimeType \<notin> set ALLOWED_NON_AUDIO_MIMES then
          Some (''Unsupported content type '' @ [dquote] @ mimeType @ [dquote])
        else None)"

subsection \<open>The multer options\<close>

definition upload_filename :: "string \<Rightarrow> string" where
  \<comment> \<open>the name a received file is stored under, for a fresh uuid\<close>
  "upload_filename uuid = uuid @ ''.upload''"

definition upload_size_limit :: "int \<Rightarrow> int" where
  "upload_size_limit max_upload_mb = max_upload_mb * 1024 * 1024"

definition file_filter :: "string \<Rightarrow> string \<Rightarrow> string option \<times> bool" where
  \<comment> \<open>the arguments of the callback: the reason of an UnsupportedMediaTypeException, and
     whether the file is accepted\<close>
  "file_filter originalname mimetype = (case validate_upload originalname mimetype of
     Some rejection \<Rightarrow> (Some rejection, False)
   | None \<Rightarrow> (None, True))"

subsection \<open>Extensions\<close>

lemma extension_of_last_dot:
  "p \<noteq> [] \<Longrightarrow> dot \<notin> set e \<Longrightarrow> extension_of (p @ dot # e) = to_lower_case e"
  by (simp add: extension_of_def last_index_of_last slice_after)

lemma extension_of_hidden: "dot \<notin> set e \<Longrightarrow> extension_of (dot # e) = []"
  using last_index_of_last [of dot e "[]"] by (simp add: extension_of_def)

lemma extension_of_none: "dot \<notin> set s \<Longrightarrow> extension_of s = []"
  by (simp add: extension_of_def last_index_of_absent)

lemma extension_of_cases:
  assumes "extension_of name \<noteq> []"
  obtains p e where "name = p @ dot # e" and "p \<noteq> []" and "dot \<notin> set e"
    and "extension_of name = to_lower_case e"
proof -
  have "dot \<in> set name" using assms extension_of_none by blast
  then obtain p e where split: "name = p @ dot # e" "dot \<notin> set e" by (rule last_split)
  then have "p \<noteq> []" using assms extension_of_hidden by fastforce
  then show ?thesis using that split extension_of_last_dot by metis
qed

lemma allowed_plain: "ext \<in> set ALLOWED_EXTENSIONS \<Longrightarrow> ext \<noteq> [] \<and> slash \<notin> set ext \<and> dot \<notin> set ext"
  by (auto simp: ALLOWED_EXTENSIONS_def)

lemma validate_upload_None_iff:
  "validate_upload name mime = None \<longleftrightarrow> extension_of name \<in> set ALLOWED_EXTENSIONS \<and>
     (starts_with mime ''audio/'' \<or> mime \<in> set ALLOWED_NON_AUDIO_MIMES)"
  by (auto simp: validate_upload_def Let_def)

subsection \<open>Properties\<close>

text \<open>
  Which uploads pass, stated over the file name itself: the name is a non-empty stem, its
  last dot, and a suffix that is one of the six extensions up to letter case; and the content
  type is an audio type or one of the three generic ones. The filter that runs while the
  request is received and the check of the service accept the same uploads.
\<close>

theorem upload_accepted_iff:
  "(validate_upload name mime = None \<longleftrightarrow>
     (\<exists>p e. name = p @ dot # e \<and> p \<noteq> [] \<and> dot \<notin> set e \<and>
        to_lower_case e \<in> {''wav'', ''mp3'', ''m4a'', ''flac'', ''ogg'', ''webm''}) \<and>
     ((\<exists>t. mime = ''audio/'' @ t) \<or>
      mime \<in> {''application/octet-stream'', ''application/ogg'', ''video/webm''})) \<and>
   (snd (file_filter name mime) \<longleftrightarrow> validate_upload name mime = None)"
proof -
  have ext: "extension_of name \<in> set ALLOWED_EXTENSIONS \<longleftrightarrow>
    (\<exists>p e. name = p @ dot # e \<and> p \<noteq> [] \<and> dot \<notin> set e \<and> to_lower_case e \<in> set ALLOWED_EXTENSIONS)"
    (is "?L \<longleftrightarrow> ?R")
  proof
    assume L: ?L
    then have "extension_of name \<noteq> []" using allowed_plain by blast
    then show ?R by (rule extension_of_cases) (use L in auto)
  next
    assume ?R then show ?L by (auto simp: extension_of_last_dot)
  qed
  have audio: "starts_with mime ''audio/'' \<longleftrightarrow> (\<exists>t. mime = ''audio/'' @ t)"
    unfolding starts_with_def by (metis append_eq_conv_conj append_take_drop_id)
  have sets: "set ALLOWED_EXTENSIONS = {''wav'', ''mp3'', ''m4a'', ''flac'', ''ogg'', ''webm''}"
    "set ALLOWED_NON_AUDIO_MIMES = {''application/octet-stream'', ''application/ogg'', ''video/webm''}"
    by (simp_all add: ALLOWED_EXTENSIONS_def ALLOWED_NON_AUDIO_MIMES_def)
  show ?thesis
  proof
    show "snd (file_filter name mime) \<longleftrightarrow> validate_upload name mime = None"
      by (simp add: file_filter_def split: option.split)
  qed (unfold validate_upload_None_iff ext audio, unfold sets, rule refl)
qed

end
