(* ===== verification/Storage.thy ===== *)
theory Storage
  imports Http_Errors Upload_Validation "HOL-Library.AList"
begin

text \<open>
  The file store of the API (\<open>api/src/storage/storage.service.ts\<close>). The file system is the list
  of its files, by path, with the operations of \<open>fs/promises\<close> the service calls; the digest
  function of \<open>crypto\<close> is a parameter. Paths are the strings the service passes around.
\<close>

type_synonym path = string
type_synonym files = "(path \<times> byte list) list"

subsection \<open>fs/promises\<close>

definition fs_read :: "path \<Rightarrow> files \<Rightarrow> (exn, byte list) result" where
  "fs_read p fs = (case map_of fs p of None \<Rightarrow> Inl (Error ''ENOENT'') | Some c \<Rightarrow> Inr c)"

definition fs_rename :: "path \<Rightarrow> path \<Rightarrow> files \<Rightarrow> (exn, files) result" where
  "fs_rename old new fs = (case map_of fs old of
     None \<Rightarrow> Inl (Error ''ENOENT'')
   | Some c \<Rightarrow> Inr (AList.update new c (AList.delete old fs)))"

definition fs_unlink :: "path \<Rightarrow> files \<Rightarrow> (exn, files) result" where
  "fs_unlink p fs = (case map_of fs p of
     None \<Rightarrow> Inl (Error ''ENOENT'') | Some _ \<Rightarrow> Inr (AList.delete p fs))"

definition fs_readdir :: "path \<Rightarrow> files \<Rightarrow> string list" where
  \<comment> \<open>the names of the files directly under a directory\<close>
  "fs_readdir dir fs = (let prefix = path_normalize dir @ [slash] in
     [drop (length prefix) p. (p, _) \<leftarrow> fs, starts_with p prefix \<and>
        plain_segment (drop (length prefix) p)])"

subsection \<open>The service\<close>

definition upload_temp_dir :: "path \<Rightarrow> path" where
  "upload_temp_dir audioDir = path_join audioDir ''tmp''"

definition sha256 :: "(byte list \<Rightarrow> string) \<Rightarrow> path \<Rightarrow> files \<Rightarrow> (exn, string) result" where
  "sha256 digest_hex filePath fs = bind_result (fs_read filePath fs) (\<lambda>c. Inr (digest_hex c))"

definition final_path :: "path \<Rightarrow> string \<Rightarrow> string \<Rightarrow> path" where
  "final_path audioDir jobId ext = path_join audioDir (jobId @ [dot] @ ext)"

definition promote :: "path \<Rightarrow> path \<Rightarrow> string \<Rightarrow> string \<Rightarrow> files \<Rightarrow> (exn, path \<times> files) result" where
  "promote audioDir tempPath jobId ext fs =
    (let finalPath = final_path audioDir jobId ext
     in bind_result (fs_rename tempPath finalPath fs) (\<lambda>fs'. Inr (finalPath, fs')))"

definition remove :: "path \<Rightarrow> files \<Rightarrow> files" where
  \<comment> \<open>the rejection of \<open>unlink\<close> is swallowed\<close>
  "remove filePath fs = (case fs_unlink filePath fs of Inl _ \<Rightarrow> fs | Inr fs' \<Rightarrow> fs')"

definition purge_stale_temp_files :: "path \<Rightarrow> files \<Rightarrow> files" where
  "purge_stale_temp_files audioDir fs =
    (let tempDir = upload_temp_dir audioDir; entries = fs_readdir tempDir fs
     in fold (\<lambda>e. remove (path_join tempDir e)) entries fs)"

definition storage_on_module_init :: "path \<Rightarrow> files \<Rightarrow> files" where
  \<comment> \<open>\<open>mkdir\<close> creates no file\<close>
  "storage_on_module_init audioDir fs = purge_stale_temp_files audioDir fs"

subsection \<open>What each operation does to the stored files\<close>

lemma map_of_remove: "map_of (remove p fs) = (map_of fs)(p := None)"
  by (auto simp: remove_def fs_unlink_def delete_conv' split: option.splits)

lemma promote_Inr:
  "promote audioDir t i ext fs = Inr (p, fs') \<longleftrightarrow>
    p = final_path audioDir i ext \<and> (\<exists>c. map_of fs t = Some c \<and> fs' = AList.update p c (AList.delete t fs))"
  by (auto simp: promote_def fs_rename_def Let_def split: option.splits)

lemma map_of_promote:
  "promote audioDir t i ext fs = Inr (p, fs') \<Longrightarrow>
    map_of fs' = (map_of fs)(t := None, p := map_of fs t)"
  by (auto simp: promote_Inr update_conv' delete_conv')

text \<open>What a client of a file store relies on.\<close>

locale file_store =
  fixes stored :: "'s \<Rightarrow> path \<Rightarrow> byte list option"
    and move :: "path \<Rightarrow> string \<Rightarrow> string \<Rightarrow> 's \<Rightarrow> (exn, path \<times> 's) result"
    and drop_file :: "path \<Rightarrow> 's \<Rightarrow> 's"
  assumes stored_move: "move t i ext s = Inr (p, s') \<Longrightarrow>
      stored s' = (stored s)(t := None, p := stored s t) \<and> stored s t \<noteq> None"
    and move_missing: "stored s t = None \<Longrightarrow> \<exists>e. move t i ext s = Inl e"
    and stored_drop: "stored (drop_file p s) = (stored s)(p := None)"
begin

text \<open>Moving a file and dropping it leaves the store as if the temporary file had been dropped.\<close>

lemma move_then_drop:
  assumes "move t i ext s = Inr (p, s')" and "stored s p = None"
  shows "stored (drop_file p s') = stored (drop_file t s)"
  using stored_move [OF assms(1)] assms(2) by (auto simp: stored_drop fun_eq_iff)

lemma move_keeps_others:
  "move t i ext s = Inr (p, s') \<Longrightarrow> q \<noteq> t \<Longrightarrow> q \<noteq> p \<Longrightarrow> stored s' q = stored s q"
  using stored_move by fastforce

end

interpretation disk: file_store map_of "promote audioDir" remove for audioDir
proof unfold_locales
  fix t i ext p and s s' :: files
  show "promote audioDir t i ext s = Inr (p, s') \<Longrightarrow>
      map_of s' = (map_of s)(t := None, p := map_of s t) \<and> map_of s t \<noteq> None"
    using map_of_promote by (fastforce simp: promote_Inr)
  show "map_of s t = None \<Longrightarrow> \<exists>e. promote audioDir t i ext s = Inl e"
    by (simp add: promote_def fs_rename_def)
  show "map_of (remove p s) = (map_of s)(p := None)" by (rule map_of_remove)
qed

subsection \<open>Paths\<close>

lemma final_path_segments:
  assumes "is_absolute audioDir" and "slash \<notin> set jobId" and "jobId \<noteq> []"
    and "ext \<in> set ALLOWED_EXTENSIONS"
  shows "final_path audioDir jobId ext = path_of (path_segments audioDir @ [jobId @ [dot] @ ext])"
proof -
  have "plain_segment (jobId @ [dot] @ ext)"
    using assms allowed_plain [of ext] by (cases jobId; cases ext) (auto simp: plain_segment_def)
  then show ?thesis unfolding final_path_def by (rule path_join_abs [OF assms(1)])
qed

text \<open>
  C26. No upload can choose where it is stored: whatever the client calls its file, if the upload
  is accepted then the stored file is a direct child of the audio directory, named by the job id
  and one of the six extensions. In particular a name with slashes or dots cannot leave the
  directory, for any spelling of it.
\<close>

theorem stored_path_confined:
  assumes "validate_upload originalName mimeType = None"
    and "is_absolute audioDir" and "slash \<notin> set jobId" and "jobId \<noteq> []"
  shows "\<exists>ext \<in> {''wav'', ''mp3'', ''m4a'', ''flac'', ''ogg'', ''webm''}.
    extension_of originalName = ext \<and>
    final_path audioDir jobId (extension_of originalName) =
      path_of (path_segments audioDir @ [jobId @ ''.'' @ ext])"
proof -
  have "extension_of originalName \<in> set ALLOWED_EXTENSIONS"
    using assms(1) by (simp add: validate_upload_None_iff)
  with final_path_segments [OF assms(2-4) this] show ?thesis
    by (auto simp: ALLOWED_EXTENSIONS_def)
qed

theorem stored_path_confined_witness:
  "validate_upload ''a/../b.MP3'' ''audio/mpeg'' = None \<and>
   final_path ''/data//audio/./'' ''j1'' (extension_of ''a/../b.MP3'') = ''/data/audio/j1.mp3''"
proof -
  have "validate_upload ''a/../b.MP3'' ''audio/mpeg'' = None" by code_simp
  moreover have "path_segments ''/data//audio/./'' = [''data'', ''audio'']"
    and "is_absolute ''/data//audio/./''" by code_simp+
  moreover have "extension_of ''a/../b.MP3'' = ''mp3''" by code_simp
  ultimately show ?thesis
    using stored_path_confined [of "''a/../b.MP3''" "''audio/mpeg''" "''/data//audio/./''" "''j1''"]
    by (auto simp: path_of_def)
qed

subsection \<open>Start-up purge\<close>

definition temp_path :: "path \<Rightarrow> string \<Rightarrow> path" where
  \<comment> \<open>the path of a file directly under the temporary directory\<close>
  "temp_path audioDir name = path_of (path_segments audioDir @ [''tmp'', name])"

lemma map_of_fold_remove:
  "map_of (fold (\<lambda>e. remove (f e)) es fs) p = (if p \<in> f ` set es then None else map_of fs p)"
  by (induction es arbitrary: fs) (auto simp: map_of_remove)

lemma upload_temp_dir_abs:
  "is_absolute audioDir \<Longrightarrow> upload_temp_dir audioDir = path_of (path_segments audioDir @ [''tmp''])"
  unfolding upload_temp_dir_def by (rule path_join_abs) (simp_all add: plain_segment_def)

lemma temp_dir_plain: "is_absolute audioDir \<Longrightarrow> \<forall>s \<in> set (path_segments audioDir @ [''tmp'']). plain_segment s"
  using path_segments_plain [of audioDir] by (auto simp: plain_segment_def)

lemma join_temp:
  assumes "is_absolute audioDir" and "plain_segment e"
  shows "path_join (upload_temp_dir audioDir) e = temp_path audioDir e"
  using path_join_path_of [OF temp_dir_plain [OF assms(1)] assms(2)]
  by (simp add: upload_temp_dir_abs [OF assms(1)] temp_path_def)

lemma readdir_prefix:
  "set (fs_readdir dir fs) =
    {e. plain_segment e \<and> map_of fs ((path_normalize dir @ [slash]) @ e) \<noteq> None}"
proof -
  let ?q = "path_normalize dir @ [slash]"
  have sw: "starts_with p ?q \<longleftrightarrow> (\<exists>e. p = ?q @ e)" for p
    unfolding starts_with_def by (metis append_eq_conv_conj append_take_drop_id)
  have dom: "map_of fs p \<noteq> None \<longleftrightarrow> p \<in> fst ` set fs" for p
    by (simp add: map_of_eq_None_iff)
  have "set (fs_readdir dir fs) =
    {drop (length ?q) p |p. p \<in> fst ` set fs \<and> starts_with p ?q \<and> plain_segment (drop (length ?q) p)}"
    by (force simp: fs_readdir_def Let_def)
  also have "\<dots> = {e. plain_segment e \<and> ?q @ e \<in> fst ` set fs}"
  proof (intro set_eqI iffI)
    fix e assume "e \<in> {e. plain_segment e \<and> ?q @ e \<in> fst ` set fs}"
    then have "e = drop (length ?q) (?q @ e) \<and> ?q @ e \<in> fst ` set fs \<and> (\<exists>e'. ?q @ e = ?q @ e') \<and>
        plain_segment (drop (length ?q) (?q @ e))" by simp
    then show "e \<in> {drop (length ?q) p |p. p \<in> fst ` set fs \<and> starts_with p ?q \<and>
        plain_segment (drop (length ?q) p)}" unfolding sw by blast
  next
    fix e assume "e \<in> {drop (length ?q) p |p. p \<in> fst ` set fs \<and> starts_with p ?q \<and>
        plain_segment (drop (length ?q) p)}"
    then show "e \<in> {e. plain_segment e \<and> ?q @ e \<in> fst ` set fs}" unfolding sw by (clarify, simp only: append_eq_conv_conj drop_append) force
  qed
  finally show ?thesis unfolding dom .
qed

lemma readdir_temp:
  assumes "is_absolute audioDir"
  shows "set (fs_readdir (upload_temp_dir audioDir) fs) =
    {e. plain_segment e \<and> map_of fs (temp_path audioDir e) \<noteq> None}"
proof -
  let ?T = "path_of (path_segments audioDir @ [''tmp''])"
  have "path_normalize (upload_temp_dir audioDir) = ?T"
    using path_normalize_path_of [OF temp_dir_plain [OF assms]] upload_temp_dir_abs [OF assms] by simp
  moreover have "temp_path audioDir e = (?T @ [slash]) @ e" for e
    using path_of_snoc [of "path_segments audioDir @ [''tmp'']" e] by (simp add: temp_path_def)
  ultimately show ?thesis by (simp only: readdir_prefix)
qed

text \<open>
  Start-up clears the temporary directory and nothing else: afterwards no file lies directly
  in it, and every other stored file, the promoted uploads included, is as before.
\<close>

theorem purge_clears_temp_only:
  assumes "is_absolute audioDir"
  shows "map_of (storage_on_module_init audioDir fs) p =
    (if \<exists>e. plain_segment e \<and> p = temp_path audioDir e then None else map_of fs p)"
proof -
  let ?es = "fs_readdir (upload_temp_dir audioDir) fs"
  have "(\<lambda>e. path_join (upload_temp_dir audioDir) e) ` set ?es = temp_path audioDir ` set ?es"
    using join_temp [OF assms] readdir_temp [OF assms] by (intro image_cong) auto
  then show ?thesis
    unfolding storage_on_module_init_def purge_stale_temp_files_def Let_def map_of_fold_remove
    by (auto simp: readdir_temp [OF assms])
qed

theorem purge_clears_temp_only_witness:
  "map_of (storage_on_module_init ''/d'' [(''/d/tmp/a.upload'', [1]), (''/d/j.mp3'', [2])]) ''/d/j.mp3'' = Some [2]"
proof -
  have abs: "is_absolute ''/d''" by code_simp
  have "map_of (storage_on_module_init ''/d'' [(''/d/tmp/a.upload'', [1]), (''/d/j.mp3'', [2])]) ''/d/j.mp3''
    = (if \<exists>e. plain_segment e \<and> ''/d/j.mp3'' = temp_path ''/d'' e then None else Some [2])"
    using purge_clears_temp_only [OF abs, of "[(''/d/tmp/a.upload'', [1]), (''/d/j.mp3'', [2])]" "''/d/j.mp3''"]
    by simp
  moreover have "path_segments ''/d'' = [''d'']" by code_simp
  ultimately show ?thesis by (simp add: temp_path_def path_of_def)
qed

end
