(* ===== verification/Topology.thy ===== *)
theory Topology
  imports Prelude
begin

text \<open>
  The queue contract shared by the API and the worker: the names and declarations of
  \<open>api/src/queue/topology.ts\<close> and \<open>worker/queue_topology.py\<close>. A declaration is a command sent to
  the broker; the broker itself is not modelled beyond what AMQP defines for a direct exchange:
  a message goes to the queues bound to its exchange with exactly its routing key, and a queue's
  dead letters are republished to its dead-letter exchange with its dead-letter routing key.
\<close>

definition EXCHANGE :: string where "EXCHANGE = ''scribeflow''"
definition DLX_EXCHANGE :: string where "DLX_EXCHANGE = ''scribeflow.dlx''"
definition JOBS_QUEUE :: string where "JOBS_QUEUE = ''transcription.jobs''"
definition RETRY_QUEUE :: string where "RETRY_QUEUE = ''transcription.retry''"
definition DEAD_QUEUE :: string where "DEAD_QUEUE = ''transcription.dead''"
definition ROUTING_KEY_JOB :: string where "ROUTING_KEY_JOB = ''job''"
definition ROUTING_KEY_RETRY :: string where "ROUTING_KEY_RETRY = ''retry''"
definition ROUTING_KEY_DEAD :: string where "ROUTING_KEY_DEAD = ''dead''"

lemmas topology_names [js_defs] = EXCHANGE_def DLX_EXCHANGE_def JOBS_QUEUE_def RETRY_QUEUE_def
  DEAD_QUEUE_def ROUTING_KEY_JOB_def ROUTING_KEY_RETRY_def ROUTING_KEY_DEAD_def

record job_message =
  m_jobId :: string
  m_filePath :: string
  m_attempt :: int

datatype amqp_declaration =
    AssertExchange string string bool
  | AssertQueue string bool "(string \<times> string) option"
      \<comment> \<open>the pair of \<open>x-dead-letter-exchange\<close> and \<open>x-dead-letter-routing-key\<close>\<close>
  | BindQueue string string string

definition assert_topology :: "amqp_declaration list" where
  "assert_topology =
    [AssertExchange EXCHANGE ''direct'' True,
     AssertExchange DLX_EXCHANGE ''direct'' True,
     AssertQueue JOBS_QUEUE True (Some (DLX_EXCHANGE, ROUTING_KEY_DEAD)),
     BindQueue JOBS_QUEUE EXCHANGE ROUTING_KEY_JOB,
     AssertQueue RETRY_QUEUE True (Some (EXCHANGE, ROUTING_KEY_JOB)),
     BindQueue RETRY_QUEUE EXCHANGE ROUTING_KEY_RETRY,
     AssertQueue DEAD_QUEUE True None,
     BindQueue DEAD_QUEUE DLX_EXCHANGE ROUTING_KEY_DEAD]"

subsection \<open>The worker's declarations\<close>

record topology_settings =
  set_exchange :: string
  set_dlx_exchange :: string
  set_jobs_queue :: string
  set_retry_queue :: string
  set_dead_queue :: string

definition default_topology_settings :: topology_settings where
  "default_topology_settings = \<lparr>set_exchange = ''scribeflow'', set_dlx_exchange = ''scribeflow.dlx'',
     set_jobs_queue = ''transcription.jobs'', set_retry_queue = ''transcription.retry'',
     set_dead_queue = ''transcription.dead''\<rparr>"

definition declare_topology :: "topology_settings \<Rightarrow> amqp_declaration list" where
  "declare_topology settings =
    [AssertExchange (set_exchange settings) ''direct'' True,
     AssertExchange (set_dlx_exchange settings) ''direct'' True,
     AssertQueue (set_jobs_queue settings) True
       (Some (set_dlx_exchange settings, ''dead'')),
     BindQueue (set_jobs_queue settings) (set_exchange settings) ''job'',
     AssertQueue (set_retry_queue settings) True
       (Some (set_exchange settings, ''job'')),
     BindQueue (set_retry_queue settings) (set_exchange settings) ''retry'',
     AssertQueue (set_dead_queue settings) True None,
     BindQueue (set_dead_queue settings) (set_dlx_exchange settings) ''dead'']"

subsection \<open>Routing\<close>

fun route :: "amqp_declaration list \<Rightarrow> string \<Rightarrow> string \<Rightarrow> string list" where
  "route [] e k = []"
| "route (BindQueue q e' k' # ds) e k = (if e' = e \<and> k' = k then q # route ds e k else route ds e k)"
| "route (_ # ds) e k = route ds e k"

fun dead_letter_of :: "amqp_declaration list \<Rightarrow> string \<Rightarrow> (string \<times> string) option" where
  "dead_letter_of [] q = None"
| "dead_letter_of (AssertQueue q' d dl # ds) q = (if q' = q then dl else dead_letter_of ds q)"
| "dead_letter_of (_ # ds) q = dead_letter_of ds q"

definition dead_letter_targets :: "amqp_declaration list \<Rightarrow> string \<Rightarrow> string list" where
  \<comment> \<open>the queues that receive a message rejected by, or expired in, a queue\<close>
  "dead_letter_targets ds q = (case dead_letter_of ds q of None \<Rightarrow> [] | Some (e, k) \<Rightarrow> route ds e k)"

text \<open>
  Both sides of the queue declare the same topology: with its default settings the worker
  sends the broker exactly the declarations of the API, in the same order with the same
  arguments, so neither is refused with a precondition failure.
\<close>

theorem topology_agreement:
  "declare_topology default_topology_settings = assert_topology"
  by (simp add: declare_topology_def default_topology_settings_def assert_topology_def topology_names)

lemma routes:
  "route assert_topology EXCHANGE ROUTING_KEY_JOB = [JOBS_QUEUE]"
  "route assert_topology EXCHANGE ROUTING_KEY_RETRY = [RETRY_QUEUE]"
  "route assert_topology DLX_EXCHANGE ROUTING_KEY_DEAD = [DEAD_QUEUE]"
  "dead_letter_targets assert_topology RETRY_QUEUE = [JOBS_QUEUE]"
  "dead_letter_targets assert_topology JOBS_QUEUE = [DEAD_QUEUE]"
  by (simp_all add: assert_topology_def dead_letter_targets_def topology_names)

text \<open>
  Where messages go under the declared topology: a job goes to the work queue only, a retry
  to the retry queue only and a dead message to the dead queue only; an expired retry re-enters
  the work queue, a rejected job is parked in the dead queue, and nothing leaves the dead queue.
\<close>

theorem topology_routes:
  "route assert_topology EXCHANGE k =
     (if k = ROUTING_KEY_JOB then [JOBS_QUEUE]
      else if k = ROUTING_KEY_RETRY then [RETRY_QUEUE] else []) \<and>
   route assert_topology DLX_EXCHANGE k = (if k = ROUTING_KEY_DEAD then [DEAD_QUEUE] else []) \<and>
   dead_letter_targets assert_topology RETRY_QUEUE = [JOBS_QUEUE] \<and>
   dead_letter_targets assert_topology JOBS_QUEUE = [DEAD_QUEUE] \<and>
   dead_letter_targets assert_topology DEAD_QUEUE = []"
  by (simp add: assert_topology_def dead_letter_targets_def topology_names)

end
