(* ===== verification/Publisher.thy ===== *)
theory Publisher
  imports Topology Http_Errors JS_Json
begin

text \<open>
  The RabbitMQ publisher of the API (\<open>api/src/queue/publisher.service.ts\<close>): the fields of
  \<open>PublisherService\<close>, its running asynchronous functions and the callbacks it registers.

  The event loop interleaves the callbacks with the running calls of \<open>connectWithRetry\<close> and
  \<open>reconnectForever\<close>; a \<open>task\<close> is one such call, at the \<open>await\<close> where it is suspended. Each
  connection has a number, and its confirm channel has the same number. What the broker and the
  network do is the choice of the next event; what the code does in the callback or after the
  \<open>await\<close> is the step. The delays are the state \<open>StartupSleep\<close> or \<open>ReconnectSleep\<close>, without a
  clock.
\<close>

definition STARTUP_RETRY_MAX :: nat where "STARTUP_RETRY_MAX = 30"

datatype connect_pc =
    Dialing                \<comment> \<open>awaits \<open>connect(this.url)\<close>\<close>
  | OpeningChannel nat     \<comment> \<open>awaits \<open>createConfirmChannel()\<close>\<close>
  | Asserting nat          \<comment> \<open>awaits \<open>assertTopology(channel)\<close>\<close>
  | Aborting nat           \<comment> \<open>awaits \<open>connection.close()\<close> in the catch block\<close>

datatype task =
    Startup nat connect_pc     \<comment> \<open>\<open>connectWithRetry\<close>, in the given attempt\<close>
  | StartupSleep nat
  | Reconnect connect_pc       \<comment> \<open>\<open>reconnectForever\<close>\<close>
  | ReconnectSleep

record publisher =
  connection :: "nat option"
  channel :: "nat option"
  shuttingDown :: bool

text \<open>
  The world around the fields: the connections whose close event has not been emitted, those
  among them that the code has asked to close, the suspended tasks, the number of the next
  connection, and whether \<open>connectWithRetry\<close> has thrown.
\<close>

record pub_world = publisher +
  open_conns :: "nat list"
  closing :: "nat list"
  tasks :: "task list"
  next_conn :: nat
  startup_failed :: bool

definition on_module_init :: pub_world where
  "on_module_init = \<lparr>connection = None, channel = None, shuttingDown = False, open_conns = [],
     closing = [], tasks = [Startup 1 Dialing], next_conn = 0, startup_failed = False\<rparr>"

definition is_connected :: "'a publisher_scheme \<Rightarrow> bool" where
  "is_connected p \<longleftrightarrow> channel p \<noteq> None"

definition request_close :: "nat \<Rightarrow> pub_world \<Rightarrow> pub_world" where
  \<comment> \<open>\<open>connection.close()\<close>: the close event comes later\<close>
  "request_close c w = w\<lparr>closing := c # closing w\<rparr>"

definition remove_task :: "nat \<Rightarrow> pub_world \<Rightarrow> pub_world" where
  "remove_task i w = w\<lparr>tasks := take i (tasks w) @ drop (Suc i) (tasks w)\<rparr>"

definition set_task :: "nat \<Rightarrow> task \<Rightarrow> pub_world \<Rightarrow> pub_world" where
  "set_task i t w = w\<lparr>tasks := (tasks w)[i := t]\<rparr>"

text \<open>\<open>void this.reconnectForever()\<close> runs the guard of the loop at once, up to its first \<open>await\<close>.\<close>

definition start_reconnect :: "pub_world \<Rightarrow> pub_world" where
  "start_reconnect w = (if \<not> shuttingDown w \<and> channel w = None
     then w\<lparr>tasks := tasks w @ [Reconnect Dialing]\<rparr> else w)"

definition reconnect_loop_head :: "nat \<Rightarrow> pub_world \<Rightarrow> pub_world" where
  "reconnect_loop_head i w = (if \<not> shuttingDown w \<and> channel w = None
     then set_task i (Reconnect Dialing) w else remove_task i w)"

subsection \<open>Callbacks\<close>

definition on_connection_close :: "nat \<Rightarrow> pub_world \<Rightarrow> pub_world" where
  "on_connection_close c w =
    (let w' = w\<lparr>open_conns := removeAll c (open_conns w), channel := None, connection := None\<rparr>
     in if \<not> shuttingDown w' then start_reconnect w' else w')"

definition on_channel_close :: "nat \<Rightarrow> pub_world \<Rightarrow> pub_world" where
  "on_channel_close c w = (if \<not> shuttingDown w \<and> channel w = Some c
     then request_close c (w\<lparr>channel := None\<rparr>) else w)"

definition on_module_destroy :: "pub_world \<Rightarrow> pub_world" where
  "on_module_destroy w = (case connection w of
     None \<Rightarrow> w\<lparr>shuttingDown := True\<rparr>
   | Some c \<Rightarrow> request_close c (w\<lparr>shuttingDown := True\<rparr>))"

subsection \<open>Continuing a suspended task\<close>

datatype task_event = DialOk | DialFail | ChannelOk | SetupFail | AssertOk | CloseSettled | Slept

definition set_pc :: "nat \<Rightarrow> task \<Rightarrow> connect_pc \<Rightarrow> pub_world \<Rightarrow> pub_world" where
  "set_pc i t pc w = (case t of
     Startup n _ \<Rightarrow> set_task i (Startup n pc) w
   | Reconnect _ \<Rightarrow> set_task i (Reconnect pc) w
   | _ \<Rightarrow> w)"

definition connect_threw :: "nat \<Rightarrow> task \<Rightarrow> pub_world \<Rightarrow> pub_world" where
  \<comment> \<open>the catch block around \<open>await this.connect()\<close>: log, then sleep\<close>
  "connect_threw i t w = (case t of
     Startup n _ \<Rightarrow> set_task i (StartupSleep n) w
   | Reconnect _ \<Rightarrow> set_task i ReconnectSleep w
   | _ \<Rightarrow> w)"

definition connect_returned :: "nat \<Rightarrow> task \<Rightarrow> pub_world \<Rightarrow> pub_world" where
  "connect_returned i t w = (case t of
     Startup _ _ \<Rightarrow> remove_task i w
   | Reconnect _ \<Rightarrow> reconnect_loop_head i w
   | _ \<Rightarrow> w)"

fun pc_of :: "task \<Rightarrow> connect_pc option" where
  "pc_of (Startup _ pc) = Some pc"
| "pc_of (Reconnect pc) = Some pc"
| "pc_of _ = None"

fun connect_step :: "task_event \<Rightarrow> nat \<Rightarrow> task \<Rightarrow> connect_pc \<Rightarrow> pub_world \<Rightarrow> pub_world option" where
  \<comment> \<open>one continuation of \<open>connect()\<close>\<close>
  "connect_step DialOk i t Dialing w =
     Some (set_pc i t (OpeningChannel (next_conn w))
       (w\<lparr>open_conns := next_conn w # open_conns w, next_conn := Suc (next_conn w)\<rparr>))"
| "connect_step DialFail i t Dialing w = Some (connect_threw i t w)"
| "connect_step ChannelOk i t (OpeningChannel c) w =
     (if c \<in> set (open_conns w) then Some (set_pc i t (Asserting c) w) else None)"
| "connect_step SetupFail i t (OpeningChannel c) w = Some (set_pc i t (Aborting c) (request_close c w))"
| "connect_step SetupFail i t (Asserting c) w = Some (set_pc i t (Aborting c) (request_close c w))"
| "connect_step AssertOk i t (Asserting c) w =
     (if c \<in> set (open_conns w)
      then Some (connect_returned i t (w\<lparr>connection := Some c, channel := Some c\<rparr>)) else None)"
| "connect_step CloseSettled i t (Aborting c) w = Some (connect_threw i t w)"
| "connect_step _ _ _ _ _ = None"

fun task_step :: "task_event \<Rightarrow> nat \<Rightarrow> task \<Rightarrow> pub_world \<Rightarrow> pub_world option" where
  "task_step Slept i (StartupSleep n) w =
     Some (if n < STARTUP_RETRY_MAX then set_task i (Startup (Suc n) Dialing) w
           else remove_task i (w\<lparr>startup_failed := True\<rparr>))"
| "task_step Slept i ReconnectSleep w = Some (reconnect_loop_head i w)"
| "task_step e i t w = (case pc_of t of Some pc \<Rightarrow> connect_step e i t pc w | None \<Rightarrow> None)"

datatype pub_event = Task nat task_event | ConnectionClosed nat | ChannelClosed nat | Destroy

fun pub_step :: "pub_event \<Rightarrow> pub_world \<Rightarrow> pub_world option" where
  "pub_step (Task i e) w = (if i < length (tasks w) then task_step e i (tasks w ! i) w else None)"
| "pub_step (ConnectionClosed c) w =
     (if c \<in> set (open_conns w) then Some (on_connection_close c w) else None)"
| "pub_step (ChannelClosed c) w =
     (if c \<in> set (open_conns w) then Some (on_channel_close c w) else None)"
| "pub_step Destroy w = Some (on_module_destroy w)"

fun pub_run :: "pub_event list \<Rightarrow> pub_world \<Rightarrow> pub_world option" where
  "pub_run [] w = Some w"
| "pub_run (e # es) w = (case pub_step e w of None \<Rightarrow> None | Some w' \<Rightarrow> pub_run es w')"

inductive pub_reach :: "pub_world \<Rightarrow> bool" where
  init: "pub_reach on_module_init"
| step: "pub_reach w \<Longrightarrow> pub_step e w = Some w' \<Longrightarrow> pub_reach w'"

lemma pub_reach_run: "pub_reach w \<Longrightarrow> pub_run es w = Some w' \<Longrightarrow> pub_reach w'"
proof (induction es arbitrary: w)
  case (Cons e es)
  then show ?case by (auto split: option.splits intro: pub_reach.step)
qed simp

lemma pub_run_append:
  "pub_run (es @ fs) w = (case pub_run es w of None \<Rightarrow> None | Some w' \<Rightarrow> pub_run fs w')"
  by (induction es arbitrary: w) (auto split: option.splits)

subsection \<open>Publishing\<close>

text \<open>
  What becomes of a published message is the broker's choice: it is confirmed; or refused; or the
  confirm is lost with the channel although the message was routed. The callback reports the last
  two alike, as an error.
\<close>

datatype publish_outcome = Confirmed | Refused string | ConfirmLost string

record outgoing =
  out_exchange :: string
  out_routing_key :: string
  out_body :: "byte list"
  out_persistent :: bool
  out_content_type :: string

definition stringify_message :: "job_message \<Rightarrow> string" where
  \<comment> \<open>\<open>JSON.stringify\<close> of a message\<close>
  "stringify_message m = json_object [(''jobId'', json_string (m_jobId m)),
     (''filePath'', json_string (m_filePath m)), (''attempt'', js_string_of_int (m_attempt m))]"

definition publish_job :: "(job_message \<Rightarrow> publish_outcome) \<Rightarrow> 'a publisher_scheme \<Rightarrow> job_message \<Rightarrow>
    outgoing list \<Rightarrow> (exn, unit) result \<times> outgoing list" where
  \<comment> \<open>the last argument and the second result are the messages the broker has taken\<close>
  "publish_job outcome p message taken = (case channel p of
     None \<Rightarrow> (Inl (Error ''RabbitMQ channel is not available''), taken)
   | Some _ \<Rightarrow>
      let body = utf8 (stringify_message message);
          out = \<lparr>out_exchange = EXCHANGE, out_routing_key = ROUTING_KEY_JOB, out_body = body,
            out_persistent = True, out_content_type = ''application/json''\<rparr>
      in case outcome message of
           Confirmed \<Rightarrow> (Inr (), taken @ [out])
         | Refused err \<Rightarrow> (Inl (Error err), taken)
         | ConfirmLost err \<Rightarrow> (Inl (Error err), taken @ [out]))"

lemmas pub_update_defs = request_close_def remove_task_def set_task_def start_reconnect_def
  reconnect_loop_head_def on_connection_close_def on_channel_close_def on_module_destroy_def
  Let_def set_pc_def connect_threw_def connect_returned_def

subsection \<open>Invariants\<close>

definition channel_open :: "pub_world \<Rightarrow> bool" where
  "channel_open w \<longleftrightarrow> (\<forall>c. channel w = Some c \<longrightarrow> connection w = Some c \<and> c \<in> set (open_conns w))"

definition reconnect_owned :: "pub_world \<Rightarrow> bool" where
  \<comment> \<open>without a channel, somebody is going to look for one\<close>
  "reconnect_owned w \<longleftrightarrow> shuttingDown w \<or> channel w \<noteq> None \<or> startup_failed w \<or>
     tasks w \<noteq> [] \<or> set (closing w) \<inter> set (open_conns w) \<noteq> {}"

fun attempt_ok :: "task \<Rightarrow> bool" where
  "attempt_ok (Startup n _) \<longleftrightarrow> 1 \<le> n \<and> n \<le> STARTUP_RETRY_MAX"
| "attempt_ok (StartupSleep n) \<longleftrightarrow> 1 \<le> n \<and> n \<le> STARTUP_RETRY_MAX"
| "attempt_ok _ \<longleftrightarrow> True"

definition attempts_bounded :: "pub_world \<Rightarrow> bool" where
  "attempts_bounded w \<longleftrightarrow> list_all attempt_ok (tasks w)"

fun_cases task_step_SomeE: "task_step e i t w = Some w'"
fun_cases connect_step_SomeE: "connect_step e i t pc w = Some w'"
fun_cases pub_step_SomeE: "pub_step e w = Some w'"

lemma connect_step_channel_open:
  "connect_step e i t pc w = Some w' \<Longrightarrow> channel_open w \<Longrightarrow> channel_open w'"
  by (erule connect_step_SomeE)
    (auto simp: channel_open_def pub_update_defs split: if_splits task.splits)

lemma task_step_cases:
  assumes "task_step e i t w = Some w'"
  obtains (startup) n where "t = StartupSleep n" "n < STARTUP_RETRY_MAX"
      "w' = set_task i (Startup (Suc n) Dialing) w"
  | (gives_up) n where "t = StartupSleep n" "\<not> n < STARTUP_RETRY_MAX"
      "w' = remove_task i (w\<lparr>startup_failed := True\<rparr>)"
  | (wakes) "t = ReconnectSleep" "w' = reconnect_loop_head i w"
  | (connects) pc where "pc_of t = Some pc" "connect_step e i t pc w = Some w'"
  using assms
  by (elim task_step_SomeE) (auto split: option.splits if_splits)

lemma pub_step_cases:
  assumes "pub_step e w = Some w'"
  obtains (task) i te where "i < length (tasks w)" "task_step te i (tasks w ! i) w = Some w'"
  | (connection_closed) c where "c \<in> set (open_conns w)" "w' = on_connection_close c w"
  | (channel_closed) c where "c \<in> set (open_conns w)" "w' = on_channel_close c w"
  | (destroy) "w' = on_module_destroy w"
  using assms by (elim pub_step_SomeE) (auto split: if_splits)

lemma pub_step_channel_open:
  assumes "pub_step e w = Some w'" and "channel_open w"
  shows "channel_open w'"
  using assms(1)
proof (cases rule: pub_step_cases)
  case (task i te)
  from task(2) show ?thesis
  proof (cases rule: task_step_cases)
    case (connects pc)
    then show ?thesis using connect_step_channel_open assms(2) by blast
  qed (use assms(2) in \<open>auto simp: channel_open_def pub_update_defs\<close>)
qed (use assms(2) in \<open>auto simp: channel_open_def pub_update_defs split: option.splits if_splits\<close>)

lemma connect_step_owned:
  assumes "connect_step te i t pc w = Some w'" and "pc_of t = Some pc" and "i < length (tasks w)"
  shows "reconnect_owned w'"
  using assms
  by (elim connect_step_SomeE)
    (auto simp: reconnect_owned_def pub_update_defs split: if_splits task.splits)

lemma pub_step_owned:
  assumes "pub_step e w = Some w'" and "reconnect_owned w"
  shows "reconnect_owned w'"
  using assms(1)
proof (cases rule: pub_step_cases)
  case (task i te)
  from task(2) show ?thesis
  proof (cases rule: task_step_cases)
    case (connects pc)
    then show ?thesis using task(1) connect_step_owned by blast
  qed (use task(1) in \<open>auto simp: reconnect_owned_def pub_update_defs\<close>)
qed (use assms(2) in \<open>auto simp: reconnect_owned_def pub_update_defs split: option.splits if_splits\<close>)

lemma list_all_update: "list_all P xs \<Longrightarrow> P x \<Longrightarrow> list_all P (xs[i := x])"
  by (auto simp: list_all_iff dest: set_update_subset_insert [THEN subsetD])

lemma list_all_take: "list_all P xs \<Longrightarrow> list_all P (take i xs)"
  by (auto simp: list_all_iff dest: in_set_takeD)

lemma list_all_drop: "list_all P xs \<Longrightarrow> list_all P (drop i xs)"
  by (auto simp: list_all_iff dest: in_set_dropD)

lemmas list_all_edits = list_all_update list_all_take list_all_drop

lemma connect_step_attempts:
  assumes "connect_step te i t pc w = Some w'" and "attempts_bounded w" and "attempt_ok t"
  shows "attempts_bounded w'"
  using assms
  by (elim connect_step_SomeE)
    (auto simp: attempts_bounded_def pub_update_defs
      intro!: list_all_edits split: if_splits task.splits)

lemma pub_step_attempts:
  assumes "pub_step e w = Some w'" and b: "attempts_bounded w"
  shows "attempts_bounded w'"
  using assms(1)
proof (cases rule: pub_step_cases)
  case (task i te)
  have ok: "attempt_ok (tasks w ! i)" using b task(1) by (simp add: attempts_bounded_def list_all_length)
  from task(2) show ?thesis
  proof (cases rule: task_step_cases)
    case (connects pc)
    then show ?thesis using connect_step_attempts b ok by blast
  qed (use b ok in \<open>auto simp: attempts_bounded_def pub_update_defs intro!: list_all_edits\<close>)
qed (use b in \<open>auto simp: attempts_bounded_def pub_update_defs split: option.splits if_splits\<close>)

lemma pub_reach_invariants: "pub_reach w \<Longrightarrow> channel_open w \<and> reconnect_owned w \<and> attempts_bounded w"
proof (induction rule: pub_reach.induct)
  case init
  show ?case
    by (simp add: on_module_init_def channel_open_def reconnect_owned_def attempts_bounded_def
        STARTUP_RETRY_MAX_def)
next
  case (step w e w')
  then show ?case using pub_step_channel_open pub_step_owned pub_step_attempts by blast
qed

subsection \<open>Recovery\<close>

fun is_startup :: "task \<Rightarrow> bool" where
  "is_startup (Startup _ _) \<longleftrightarrow> True"
| "is_startup (StartupSleep _) \<longleftrightarrow> True"
| "is_startup _ \<longleftrightarrow> False"

text \<open>
  Events the code has asked for: the continuations of its own tasks, and the close event of a
  connection on which it has called \<open>close()\<close>. A run of such events needs nothing from the broker
  but answers; it does not lose connections of its own accord.
\<close>

fun asked_event :: "pub_event \<Rightarrow> pub_world \<Rightarrow> bool" where
  "asked_event (Task i e) w \<longleftrightarrow> True"
| "asked_event (ConnectionClosed c) w \<longleftrightarrow> c \<in> set (closing w)"
| "asked_event _ w \<longleftrightarrow> False"

fun asked_run :: "pub_event list \<Rightarrow> pub_world \<Rightarrow> bool" where
  "asked_run [] w \<longleftrightarrow> True"
| "asked_run (e # es) w \<longleftrightarrow> asked_event e w \<and>
     (case pub_step e w of None \<Rightarrow> False | Some w' \<Rightarrow> asked_run es w')"

definition recovers :: "nat \<Rightarrow> pub_world \<Rightarrow> bool" where
  "recovers n w \<longleftrightarrow> (\<exists>es w'. length es \<le> n \<and> asked_run es w \<and> pub_run es w = Some w' \<and>
     is_connected w')"

lemma recovers_step:
  assumes "pub_step e w = Some w'" and "asked_event e w" and "recovers n w'"
  shows "recovers (Suc n) w"
proof -
  obtain es w'' where "length es \<le> n" "asked_run es w'" "pub_run es w' = Some w''" "is_connected w''"
    using assms(3) unfolding recovers_def by blast
  with assms(1,2) show ?thesis
    unfolding recovers_def by (intro exI [of _ "e # es"] exI [of _ w'']) simp
qed

lemma recovers_mono: "recovers m w \<Longrightarrow> m \<le> n \<Longrightarrow> recovers n w"
  unfolding recovers_def by (meson le_trans)

lemma recovers_dialing:
  assumes "i < length (tasks w)" and "tasks w ! i = Reconnect Dialing"
  shows "recovers 3 w"
  unfolding recovers_def
  by (rule exI [of _ "[Task i DialOk, Task i ChannelOk, Task i AssertOk]"])
    (use assms in \<open>simp add: pub_update_defs is_connected_def\<close>)

lemma recovers_sleeping:
  assumes "i < length (tasks w)" and "tasks w ! i = ReconnectSleep"
    and "\<not> shuttingDown w" and "channel w = None"
  shows "recovers 4 w"
proof -
  have "recovers (Suc 3) w"
    by (rule recovers_step [of "Task i Slept"])
      (use assms recovers_dialing [of i "set_task i (Reconnect Dialing) w"]
        in \<open>simp_all add: reconnect_loop_head_def set_task_def\<close>)
  then show ?thesis by simp
qed

lemma recovers_aborting:
  assumes "i < length (tasks w)" and "tasks w ! i = Reconnect (Aborting c)"
    and "\<not> shuttingDown w" and "channel w = None"
  shows "recovers 5 w"
proof -
  have "recovers (Suc 4) w"
    by (rule recovers_step [of "Task i CloseSettled"])
      (use assms recovers_sleeping [of i "set_task i ReconnectSleep w"]
        in \<open>simp_all add: connect_threw_def set_task_def\<close>)
  then show ?thesis by simp
qed

lemma recovers_setting_up:
  assumes "i < length (tasks w)" and "tasks w ! i \<in> {Reconnect (OpeningChannel c), Reconnect (Asserting c)}"
    and "\<not> shuttingDown w" and "channel w = None"
  shows "recovers 6 w"
proof -
  have "recovers (Suc 5) w"
    by (rule recovers_step [of "Task i SetupFail" _ "set_task i (Reconnect (Aborting c)) (request_close c w)"])
      (use assms recovers_aborting [of i "set_task i (Reconnect (Aborting c)) (request_close c w)" c]
        in \<open>auto simp: set_pc_def request_close_def set_task_def\<close>)
  then show ?thesis by simp
qed

lemma recovers_reconnect_task:
  assumes "i < length (tasks w)" and "\<not> is_startup (tasks w ! i)"
    and "\<not> shuttingDown w" and "channel w = None"
  shows "recovers 6 w"
proof (cases "tasks w ! i")
  case (Reconnect pc)
  then show ?thesis
  proof (cases pc)
    case Dialing
    then show ?thesis using assms Reconnect recovers_mono [OF recovers_dialing [of i w], of 6] by simp
  next
    case (Aborting c)
    then show ?thesis using assms Reconnect recovers_mono [OF recovers_aborting [of i w c], of 6] by simp
  qed (use assms Reconnect recovers_setting_up in auto)
next
  case ReconnectSleep
  then show ?thesis using assms recovers_mono [OF recovers_sleeping [of i w], of 6] by simp
qed (use assms in auto)

lemma recovers_closing:
  assumes "c \<in> set (closing w) \<inter> set (open_conns w)" and "\<not> shuttingDown w"
  shows "recovers 6 w"
proof -
  let ?w = "on_connection_close c w"
  have w: "tasks ?w = tasks w @ [Reconnect Dialing]" "\<not> shuttingDown ?w"
    using assms(2) by (simp_all add: on_connection_close_def start_reconnect_def)
  have "recovers 3 ?w" by (rule recovers_dialing [of "length (tasks w)"]) (simp_all add: w)
  then have "recovers (Suc 3) w"
    by (rule recovers_step [of "ConnectionClosed c", rotated 2]) (use assms(1) in simp_all)
  then show ?thesis by (rule recovers_mono) simp
qed

text \<open>
  C11. The API never gives up on the broker. In every reachable state after a successful start-up
  and before shutdown, a publisher without a channel has a suspended reconnect task, or has itself
  called \<open>close()\<close> on a connection that is still open and whose close event will start one. And
  from every such state at most six events that the code has asked for (answers to the calls its
  tasks await, the close event of a connection it is closing) give it a channel: the broker need
  not drop a connection for the publisher to recover. No sequence of connection losses, channel
  closures and failed attempts leaves it disconnected for good.
\<close>

theorem reconnect_never_lost:
  assumes "pub_reach w" and "\<not> shuttingDown w" and "\<not> startup_failed w"
    and "list_all (\<lambda>t. \<not> is_startup t) (tasks w)"
  shows "(is_connected w \<or> (\<exists>t \<in> set (tasks w). \<not> is_startup t) \<or>
      set (closing w) \<inter> set (open_conns w) \<noteq> {}) \<and>
    (\<exists>es w'. length es \<le> 6 \<and> asked_run es w \<and> pub_run es w = Some w' \<and> is_connected w')"
proof (rule conjI)
  have "reconnect_owned w" using pub_reach_invariants [OF assms(1)] by blast
  with assms(2,3) have own: "is_connected w \<or> tasks w \<noteq> [] \<or> set (closing w) \<inter> set (open_conns w) \<noteq> {}"
    by (simp add: reconnect_owned_def is_connected_def)
  then show "is_connected w \<or> (\<exists>t \<in> set (tasks w). \<not> is_startup t) \<or>
      set (closing w) \<inter> set (open_conns w) \<noteq> {}"
    using assms(4) by (cases "tasks w") auto
  have "recovers 6 w"
  proof (cases "is_connected w")
    case True
    then show ?thesis unfolding recovers_def by (intro exI [of _ "[]"] exI [of _ w]) simp
  next
    case False
    with own consider "tasks w \<noteq> []" | c where "c \<in> set (closing w) \<inter> set (open_conns w)" by blast
    then show ?thesis
    proof cases
      case 1
      then show ?thesis
        using assms(2,4) False recovers_reconnect_task [of 0 w]
        by (cases "tasks w") (auto simp: is_connected_def)
    qed (use recovers_closing assms(2) in blast)
  qed
  then show "\<exists>es w'. length es \<le> 6 \<and> asked_run es w \<and> pub_run es w = Some w' \<and> is_connected w'"
    by (simp add: recovers_def)
qed

definition lost_connection :: "pub_event list" where
  "lost_connection = [Task 0 DialOk, Task 0 ChannelOk, Task 0 AssertOk, ConnectionClosed 0]"

definition after_loss :: pub_world where
  "after_loss = \<lparr>connection = None, channel = None, shuttingDown = False, open_conns = [],
     closing = [], tasks = [Reconnect Dialing], next_conn = 1, startup_failed = False\<rparr>"

lemma run_lost_connection: "pub_run lost_connection on_module_init = Some after_loss"
  by code_simp

lemma reach_after_loss: "pub_reach after_loss"
  using pub_reach_run [OF pub_reach.init run_lost_connection] .

theorem reconnect_never_lost_witness:
  "\<not> is_connected after_loss \<and> (\<exists>es w'. length es \<le> 6 \<and> asked_run es after_loss \<and>
     pub_run es after_loss = Some w' \<and> is_connected w')"
  using reconnect_never_lost [OF reach_after_loss] by (simp add: after_loss_def is_connected_def)

text \<open>
  What \<open>isConnected\<close> (and with it the health endpoint) reports is backed by a connection: in
  every reachable state with a channel, the stored connection is the one of that channel and has
  not emitted its close event; and the start-up loop makes at most thirty attempts.
\<close>

theorem connected_means_open:
  assumes "pub_reach w" and "is_connected w"
  shows "\<exists>c. channel w = Some c \<and> connection w = Some c \<and> c \<in> set (open_conns w) \<and>
    list_all attempt_ok (tasks w)"
  using pub_reach_invariants [OF assms(1)] assms(2)
  by (auto simp: channel_open_def attempts_bounded_def is_connected_def)

theorem connected_means_open_witness:
  "\<exists>w. pub_reach w \<and> channel w = Some 0 \<and> 0 \<in> set (open_conns w)"
proof -
  let ?es = "[Task 0 DialOk, Task 0 ChannelOk, Task 0 AssertOk]"
  let ?w = "\<lparr>connection = Some 0, channel = Some 0, shuttingDown = False, open_conns = [0],
    closing = [], tasks = [], next_conn = 1, startup_failed = False\<rparr> :: pub_world"
  have "pub_run ?es on_module_init = Some ?w" by code_simp
  then have "pub_reach ?w" using pub_reach_run pub_reach.init by blast
  with connected_means_open [OF this] show ?thesis by (auto simp: is_connected_def)
qed

subsection \<open>Reconnect loops multiply\<close>

text \<open>
  A failed set-up closes its own connection, whose close handler starts a second loop, while the
  first loop goes on after its delay.
\<close>

definition failed_setup :: "nat \<Rightarrow> pub_event list" where
  "failed_setup c = [Task 0 DialOk, Task 0 SetupFail, ConnectionClosed c, Task 0 CloseSettled, Task 0 Slept]"

lemma failed_setup_adds_loop:
  assumes "tasks w = Reconnect Dialing # ts" and "channel w = None" and "\<not> shuttingDown w"
  shows "\<exists>w'. pub_run (failed_setup (next_conn w)) w = Some w' \<and>
    tasks w' = Reconnect Dialing # ts @ [Reconnect Dialing] \<and> channel w' = None \<and> \<not> shuttingDown w'"
  using assms by (simp add: failed_setup_def pub_update_defs)

text \<open>
  The number of concurrent reconnect loops has no bound: while the broker accepts connections
  but refuses the topology, every failed attempt leaves one more loop running, so for every n
  there is a reachable state in which n of them dial at the same time. (The comment in \<open>connect\<close>
  says the close handler drives a single reconnect path.)
\<close>

theorem reconnect_loops_unbounded:
  "\<exists>w. pub_reach w \<and> \<not> shuttingDown w \<and> tasks w = replicate (Suc n) (Reconnect Dialing)"
proof -
  have "\<exists>w. pub_reach w \<and> channel w = None \<and> \<not> shuttingDown w \<and>
    tasks w = replicate (Suc n) (Reconnect Dialing)"
  proof (induction n)
    case 0
    show ?case using reach_after_loss by (intro exI [of _ after_loss]) (simp add: after_loss_def)
  next
    case (Suc n)
    then obtain w where w: "pub_reach w" "channel w = None" "\<not> shuttingDown w"
      "tasks w = Reconnect Dialing # replicate n (Reconnect Dialing)" by auto
    obtain w' where "pub_run (failed_setup (next_conn w)) w = Some w'" and w':
      "tasks w' = Reconnect Dialing # replicate n (Reconnect Dialing) @ [Reconnect Dialing]"
      "channel w' = None" "\<not> shuttingDown w'"
      using failed_setup_adds_loop [OF w(4,2,3)] by blast
    then have "pub_reach w'" using pub_reach_run w(1) by blast
    with w' show ?case by (auto simp: replicate_append_same)
  qed
  then show ?thesis by blast
qed

text \<open>
  With two loops running, the second one to finish replaces the stored connection, and the
  close event of the first, now unreferenced, connection discards the live channel: the handler
  does not check which connection was closed. The publisher then reports itself disconnected
  although the connection it forgot is open.
\<close>

theorem stale_close_drops_live_channel:
  "\<exists>w w'. pub_reach w \<and> channel w = Some 2 \<and> connection w = Some 2 \<and>
     pub_step (ConnectionClosed 3) w = Some w' \<and> \<not> is_connected w' \<and> 2 \<in> set (open_conns w')"
proof -
  let ?es = "lost_connection @ failed_setup 1 @ [Task 0 DialOk, Task 1 DialOk, Task 1 ChannelOk,
    Task 1 AssertOk, Task 0 ChannelOk, Task 0 AssertOk]"
  let ?w = "\<lparr>connection = Some 2, channel = Some 2, shuttingDown = False, open_conns = [3, 2],
    closing = [1], tasks = [], next_conn = 4, startup_failed = False\<rparr> :: pub_world"
  have "pub_run ?es on_module_init = Some ?w" by code_simp
  then have "pub_reach ?w" using pub_reach_run pub_reach.init by blast
  then show ?thesis
    by (intro exI [of _ ?w] exI [of _ "on_connection_close 3 ?w"])
      (simp add: on_connection_close_def start_reconnect_def is_connected_def)
qed

end
