(* ===== verification/Transcriptions_Service.thy ===== *)
theory Transcriptions_Service
  imports Job_Repository Storage Publisher
begin

text \<open>
  \<open>TranscriptionsService\<close> (\<open>api/src/transcriptions/transcriptions.service.ts\<close>).

  An asynchronous method is a function of the state that returns its result or what it throws,
  and the new state: the file store, the job table (of any type, behind the repository
  interface), the messages the broker has taken, and the list of effects in the order of the
  calls. What the environment decides is a parameter: the repository, the digest function, the
  uuid drawn, the publisher's fields and the broker's answer to a publish.
\<close>

record multer_file =
  originalname :: string
  mimetype :: string
  file_path :: path

datatype effect =
    Unlinked path
  | Renamed path path
  | Inserted string
  | Published string
  | Deleted string

record 'db api_state =
  files_of :: files
  db :: 'db
  taken :: "outgoing list"
  effects :: "effect list"

record 'db service_env =
  repo :: "'db repository"
  digest_hex :: "byte list \<Rightarrow> string"
  audioDir :: path
  randomUUID :: string
  publisher_fields :: publisher
  outcome :: "job_message \<Rightarrow> publish_outcome"

record create_result =
  result_job :: job
  deduplicated :: bool

subsection \<open>Methods as state transformers\<close>

type_synonym ('s, 'a) io = "'s \<Rightarrow> (exn, 'a) result \<times> 's"

definition io_return :: "'a \<Rightarrow> ('s, 'a) io" where
  "io_return a s = (Inr a, s)"

definition io_throw :: "exn \<Rightarrow> ('s, 'a) io" where
  "io_throw e s = (Inl e, s)"

definition io_await :: "('s, 'a) io \<Rightarrow> ('a \<Rightarrow> ('s, 'b) io) \<Rightarrow> ('s, 'b) io" where
  \<comment> \<open>\<open>const x = await m; ...\<close>: what \<open>m\<close> throws is thrown on\<close>
  "io_await m f s = (case m s of (Inl e, s') \<Rightarrow> (Inl e, s') | (Inr a, s') \<Rightarrow> f a s')"

definition io_catch :: "('s, 'a) io \<Rightarrow> (exn \<Rightarrow> ('s, 'a) io) \<Rightarrow> ('s, 'a) io" where
  "io_catch m h s = (case m s of (Inl e, s') \<Rightarrow> h e s' | r \<Rightarrow> r)"

subsection \<open>The collaborators, on the state\<close>

definition do_remove :: "path \<Rightarrow> ('db api_state, unit) io" where
  "do_remove p s = (Inr (), s\<lparr>files_of := remove p (files_of s), effects := effects s @ [Unlinked p]\<rparr>)"

definition do_sha256 :: "'db service_env \<Rightarrow> path \<Rightarrow> ('db api_state, string) io" where
  "do_sha256 env p s = (sha256 (digest_hex env) p (files_of s), s)"

definition do_findOne :: "'db service_env \<Rightarrow> where_clause \<Rightarrow> ('db api_state, job option) io" where
  "do_findOne env w s = (repo_findOne (repo env) w (db s), s)"

definition do_promote :: "'db service_env \<Rightarrow> path \<Rightarrow> string \<Rightarrow> string \<Rightarrow> ('db api_state, path) io" where
  "do_promote env tempPath jobId ext s = (case promote (audioDir env) tempPath jobId ext (files_of s) of
     Inl e \<Rightarrow> (Inl e, s)
   | Inr (p, fs) \<Rightarrow> (Inr p, s\<lparr>files_of := fs, effects := effects s @ [Renamed tempPath p]\<rparr>))"

definition do_save :: "'db service_env \<Rightarrow> new_job \<Rightarrow> ('db api_state, job) io" where
  "do_save env n s = (case repo_save (repo env) n (db s) of
     (Inl e, d) \<Rightarrow> (Inl e, s\<lparr>db := d\<rparr>)
   | (Inr j, d) \<Rightarrow> (Inr j, s\<lparr>db := d, effects := effects s @ [Inserted (n_id n)]\<rparr>))"

definition do_publish :: "'db service_env \<Rightarrow> job_message \<Rightarrow> ('db api_state, unit) io" where
  "do_publish env m s = (case publish_job (outcome env) (publisher_fields env) m (taken s) of
     (Inl e, q) \<Rightarrow> (Inl e, s\<lparr>taken := q\<rparr>)
   | (Inr u, q) \<Rightarrow> (Inr u, s\<lparr>taken := q, effects := effects s @ [Published (m_jobId m)]\<rparr>))"

definition do_delete :: "'db service_env \<Rightarrow> string \<Rightarrow> ('db api_state, unit) io" where
  "do_delete env i s = (case repo_delete (repo env) i (db s) of
     (Inl e, d) \<Rightarrow> (Inl e, s\<lparr>db := d\<rparr>)
   | (Inr u, d) \<Rightarrow> (Inr u, s\<lparr>db := d, effects := effects s @ [Deleted i]\<rparr>))"

subsection \<open>The service\<close>

definition enqueue :: "'db service_env \<Rightarrow> string \<Rightarrow> path \<Rightarrow> ('db api_state, unit) io" where
  \<comment> \<open>the try block of \<open>create\<close> and its catch block\<close>
  "enqueue env jobId finalPath =
    io_catch (do_publish env \<lparr>m_jobId = jobId, m_filePath = finalPath, m_attempt = 0\<rparr>)
      (\<lambda>err. io_await (do_delete env jobId) (\<lambda>_.
             io_await (do_remove finalPath) (\<lambda>_.
             io_throw (ServiceUnavailableException ''Transcription queue unavailable''))))"

definition create :: "'db service_env \<Rightarrow> multer_file \<Rightarrow> ('db api_state, create_result) io" where
  "create env file = (case validate_upload (originalname file) (mimetype file) of
     Some rejection \<Rightarrow>
       io_await (do_remove (file_path file)) (\<lambda>_. io_throw (UnsupportedMediaTypeException rejection))
   | None \<Rightarrow>
       io_await (do_sha256 env (file_path file)) (\<lambda>hash.
       io_await (do_findOne env \<lparr>w_id = None, w_contentHash = Some hash, w_status = Some Completed\<rparr>) (\<lambda>existing.
         case existing of
           Some j \<Rightarrow>
             io_await (do_remove (file_path file)) (\<lambda>_.
             io_return \<lparr>result_job = j, deduplicated = True\<rparr>)
         | None \<Rightarrow>
             let jobId = randomUUID env in
             io_await (do_promote env (file_path file) jobId (extension_of (originalname file))) (\<lambda>finalPath.
             io_await (do_save env \<lparr>n_id = jobId, n_status = Queued, n_originalName = originalname file,
               n_filePath = finalPath, n_contentHash = Some hash\<rparr>) (\<lambda>job.
             io_await (enqueue env jobId finalPath) (\<lambda>_.
             io_return \<lparr>result_job = job, deduplicated = False\<rparr>))))))"

definition find_by_id :: "'db service_env \<Rightarrow> string \<Rightarrow> 'db \<Rightarrow> (exn, job) result" where
  "find_by_id env i d = bind_result
     (repo_findOne (repo env) \<lparr>w_id = Some i, w_contentHash = None, w_status = None\<rparr> d) (\<lambda>job.
     case job of None \<Rightarrow> Inl (NotFoundException (''No transcription job with id '' @ i))
     | Some j \<Rightarrow> Inr j)"

definition list_jobs :: "'db service_env \<Rightarrow> nat \<Rightarrow> nat \<Rightarrow> 'db \<Rightarrow> (exn, job_row list) result" where
  "list_jobs env limit offset d =
     repo_find (repo env) \<lparr>fo_order = CreatedAtDesc, fo_take = limit, fo_skip = offset\<rparr> d"

lemmas io_defs = io_return_def io_throw_def io_await_def io_catch_def
lemmas do_defs = do_remove_def do_sha256_def do_findOne_def do_promote_def do_save_def do_publish_def
  do_delete_def

subsection \<open>The phases of an upload\<close>

abbreviation job_file :: "'db service_env \<Rightarrow> multer_file \<Rightarrow> path" where
  "job_file env file \<equiv> final_path (audioDir env) (randomUUID env) (extension_of (originalname file))"

definition job_out :: "string \<Rightarrow> path \<Rightarrow> outgoing" where
  \<comment> \<open>the message of a job\<close>
  "job_out i p = \<lparr>out_exchange = EXCHANGE, out_routing_key = ROUTING_KEY_JOB,
     out_body = utf8 (stringify_message \<lparr>m_jobId = i, m_filePath = p, m_attempt = 0\<rparr>),
     out_persistent = True, out_content_type = ''application/json''\<rparr>"

definition unconfirmed :: "'db service_env \<Rightarrow> string \<Rightarrow> path \<Rightarrow> outgoing list \<Rightarrow> outgoing list" where
  \<comment> \<open>what a publish that throws leaves in the broker\<close>
  "unconfirmed env i p q = (case channel (publisher_fields env) of None \<Rightarrow> q
     | Some _ \<Rightarrow> (case outcome env \<lparr>m_jobId = i, m_filePath = p, m_attempt = 0\<rparr> of
         ConfirmLost _ \<Rightarrow> q @ [job_out i p] | _ \<Rightarrow> q))"

definition existing_job :: "'db service_env \<Rightarrow> multer_file \<Rightarrow> 'db api_state \<Rightarrow> string \<Rightarrow>
    (exn, job option) result \<Rightarrow> bool" where
  \<comment> \<open>the upload is valid and readable, with this digest, and the lookup answers this\<close>
  "existing_job env file s hash r \<longleftrightarrow> validate_upload (originalname file) (mimetype file) = None \<and>
     (\<exists>c. map_of (files_of s) (file_path file) = Some c \<and> hash = digest_hex env c) \<and>
     repo_findOne (repo env) \<lparr>w_id = None, w_contentHash = Some hash, w_status = Some Completed\<rparr> (db s) = r"

definition promoted :: "'db service_env \<Rightarrow> multer_file \<Rightarrow> 'db api_state \<Rightarrow> 'db api_state" where
  "promoted env file s = s\<lparr>files_of := (case promote (audioDir env) (file_path file) (randomUUID env)
       (extension_of (originalname file)) (files_of s) of Inl _ \<Rightarrow> files_of s | Inr (_, fs) \<Rightarrow> fs),
     effects := effects s @ [Renamed (file_path file) (job_file env file)]\<rparr>"

definition new_row :: "'db service_env \<Rightarrow> multer_file \<Rightarrow> string \<Rightarrow> new_job" where
  "new_row env file hash = \<lparr>n_id = randomUUID env, n_status = Queued,
     n_originalName = originalname file, n_filePath = job_file env file, n_contentHash = Some hash\<rparr>"

lemma publish_job_eq:
  "publish_job oc f \<lparr>m_jobId = i, m_filePath = p, m_attempt = 0\<rparr> q = (case channel f of
     None \<Rightarrow> (Inl (Error ''RabbitMQ channel is not available''), q)
   | Some _ \<Rightarrow> (case oc \<lparr>m_jobId = i, m_filePath = p, m_attempt = 0\<rparr> of
       Confirmed \<Rightarrow> (Inr (), q @ [job_out i p])
     | Refused err \<Rightarrow> (Inl (Error err), q)
     | ConfirmLost err \<Rightarrow> (Inl (Error err), q @ [job_out i p])))"
  by (simp only: publish_job_def Let_def job_out_def)

lemma enqueue_cases:
  assumes "enqueue env i p s = (r, s')"
  obtains (published) "channel (publisher_fields env) \<noteq> None"
      "outcome env \<lparr>m_jobId = i, m_filePath = p, m_attempt = 0\<rparr> = Confirmed" "r = Inr ()"
      "s' = s\<lparr>taken := taken s @ [job_out i p],
         effects := effects s @ [Published i]\<rparr>"
  | (stuck) q e d where "repo_delete (repo env) i (db s) = (Inl e, d)" "r = Inl e"
      "q = unconfirmed env i p (taken s)"
      "s' = s\<lparr>db := d, taken := q\<rparr>"
  | (undone) q u d where "repo_delete (repo env) i (db s) = (Inr u, d)"
      "r = Inl (ServiceUnavailableException ''Transcription queue unavailable'')"
      "q = unconfirmed env i p (taken s)"
      "s' = s\<lparr>files_of := remove p (files_of s), db := d, taken := q,
         effects := effects s @ [Deleted i, Unlinked p]\<rparr>"
proof -
  let ?m = "\<lparr>m_jobId = i, m_filePath = p, m_attempt = 0\<rparr>"
  obtain v q where pub: "publish_job (outcome env) (publisher_fields env) ?m (taken s) = (v, q)"
    by fastforce
  show thesis
  proof (cases v)
    case (Inr u)
    with pub have "channel (publisher_fields env) \<noteq> None" "outcome env ?m = Confirmed"
      "q = taken s @ [job_out i p]"
      by (auto simp: publish_job_eq split: option.splits publish_outcome.splits)
    with that(1) assms pub Inr show thesis by (simp add: enqueue_def io_catch_def do_publish_def)
  next
    case (Inl e)
    have q: "q = unconfirmed env i p (taken s)"
      using pub Inl by (auto simp: publish_job_eq unconfirmed_def split: option.splits publish_outcome.splits)
    obtain w d where del: "repo_delete (repo env) i (db s) = (w, d)" by fastforce
    show thesis
    proof (cases w)
      case (Inl e')
      with assms pub \<open>v = Inl e\<close> del have "r = Inl e'" "s' = s\<lparr>db := d, taken := q\<rparr>"
        by (auto simp: enqueue_def io_catch_def io_await_def do_publish_def do_delete_def)
      with that(2) del Inl q show thesis by blast
    next
      case (Inr u)
      with assms pub \<open>v = Inl e\<close> del
      have "r = Inl (ServiceUnavailableException ''Transcription queue unavailable'')"
        "s' = s\<lparr>files_of := remove p (files_of s), db := d, taken := q,
          effects := effects s @ [Deleted i, Unlinked p]\<rparr>"
        by (auto simp: enqueue_def io_defs do_publish_def do_delete_def do_remove_def)
      with that(3) del Inr q show thesis by blast
    qed
  qed
qed


text \<open>How \<open>create\<close> ends, by the first collaborator that answers otherwise than hoped.\<close>

lemma create_cases:
  assumes "create env file s = (r, s')"
  obtains (rejected) reason where "validate_upload (originalname file) (mimetype file) = Some reason"
      "r = Inl (UnsupportedMediaTypeException reason)" "s' = snd (do_remove (file_path file) s)"
  | (unreadable) "validate_upload (originalname file) (mimetype file) = None"
      "map_of (files_of s) (file_path file) = None" "r = Inl (Error ''ENOENT'')" "s' = s"
  | (lookup_threw) hash e where "existing_job env file s hash (Inl e)" "r = Inl e" "s' = s"
  | (duplicate) hash j where "existing_job env file s hash (Inr (Some j))"
      "r = Inr \<lparr>result_job = j, deduplicated = True\<rparr>" "s' = snd (do_remove (file_path file) s)"
  | (save_threw) hash e d where "existing_job env file s hash (Inr None)"
      "repo_save (repo env) (new_row env file hash) (db s) = (Inl e, d)"
      "r = Inl e" "s' = (promoted env file s)\<lparr>db := d\<rparr>"
  | (saved) hash j d q where "existing_job env file s hash (Inr None)"
      "repo_save (repo env) (new_row env file hash) (db s) = (Inr j, d)"
      "enqueue env (randomUUID env) (job_file env file)
         ((promoted env file s)\<lparr>db := d, effects := effects (promoted env file s) @ [Inserted (randomUUID env)]\<rparr>)
       = (q, s')"
      "r = (case q of Inl e \<Rightarrow> Inl e | Inr _ \<Rightarrow> Inr \<lparr>result_job = j, deduplicated = False\<rparr>)"
proof (cases "validate_upload (originalname file) (mimetype file)")
  case (Some reason)
  from assms [unfolded create_def Some option.case io_await_def do_remove_def prod.case sum.case io_throw_def]
  show ?thesis using that(1) [OF Some] by (simp add: do_remove_def)
next
  case valid: None
  show ?thesis
  proof (cases "map_of (files_of s) (file_path file)")
    case None
    then have "do_sha256 env (file_path file) s = (Inl (Error ''ENOENT''), s)"
      by (simp add: do_sha256_def sha256_def fs_read_def)
    from assms [unfolded create_def valid option.case io_await_def this prod.case sum.case]
    show ?thesis using that(2) [OF valid None] by simp
  next
    case (Some c)
    let ?h = "digest_hex env c"
    have promote: "do_promote env (file_path file) (randomUUID env) (extension_of (originalname file)) s
        = (Inr (job_file env file), promoted env file s)"
      using Some by (simp add: do_promote_def promoted_def promote_def fs_rename_def Let_def)
    have hash: "do_sha256 env (file_path file) s = (Inr ?h, s)"
      using Some by (simp add: do_sha256_def sha256_def fs_read_def)
    let ?find = "repo_findOne (repo env)
      \<lparr>w_id = None, w_contentHash = Some ?h, w_status = Some Completed\<rparr> (db s)"
    have found: "do_findOne env \<lparr>w_id = None, w_contentHash = Some ?h, w_status = Some Completed\<rparr> s = (?find, s)"
      by (simp add: do_findOne_def)
    note run = assms [unfolded create_def valid option.case io_await_def hash prod.case sum.case found]
    have ex: "existing_job env file s ?h (repo_findOne (repo env)
        \<lparr>w_id = None, w_contentHash = Some ?h, w_status = Some Completed\<rparr> (db s))"
      using valid Some by (simp add: existing_job_def)
    show ?thesis
    proof (cases "repo_findOne (repo env)
        \<lparr>w_id = None, w_contentHash = Some ?h, w_status = Some Completed\<rparr> (db s)")
      case (Inl e)
      from run [unfolded Inl sum.case prod.case] ex [unfolded Inl]
      show ?thesis using that(3) by blast
    next
      case (Inr o')
      show ?thesis
      proof (cases o')
        case (Some j)
        from run [unfolded Inr Some sum.case prod.case option.case do_remove_def io_return_def]
        show ?thesis using that(4) [OF ex [unfolded Inr Some]] by (simp add: do_remove_def)
      next
        case None
        obtain v d where save: "repo_save (repo env) (new_row env file ?h) (db s) = (v, d)"
          by fastforce
        have row: "\<lparr>n_id = randomUUID env, n_status = Queued, n_originalName = originalname file,
            n_filePath = job_file env file, n_contentHash = Some ?h\<rparr> = new_row env file ?h"
          by (simp add: new_row_def)
        have db: "db (promoted env file s) = db s" by (simp add: promoted_def)
        have id: "n_id (new_row env file ?h) = randomUUID env" by (simp add: new_row_def)
        note run' = run [unfolded Inr None sum.case option.case Let_def promote prod.case row]
        show ?thesis
        proof (cases v)
          case (Inl e)
          have "do_save env (new_row env file ?h) (promoted env file s)
              = (Inl e, (promoted env file s)\<lparr>db := d\<rparr>)"
            by (simp add: do_save_def db save Inl)
          from run' [unfolded this prod.case sum.case]
          show ?thesis using that(5) [OF ex [unfolded \<open>?find = Inr o'\<close> None] save [unfolded Inl]] by simp
        next
          case (Inr j)
          have saved: "do_save env (new_row env file ?h) (promoted env file s) = (Inr j,
              (promoted env file s)\<lparr>db := d, effects := effects (promoted env file s) @ [Inserted (randomUUID env)]\<rparr>)"
            by (simp add: do_save_def db save Inr id)
          obtain q s'' where enq: "enqueue env (randomUUID env) (job_file env file)
              ((promoted env file s)\<lparr>db := d, effects := effects (promoted env file s) @ [Inserted (randomUUID env)]\<rparr>)
            = (q, s'')" by fastforce
          from run' [unfolded saved prod.case sum.case enq io_return_def]
          have "s'' = s'" and "r = (case q of Inl e \<Rightarrow> Inl e | Inr _ \<Rightarrow> Inr \<lparr>result_job = j, deduplicated = False\<rparr>)"
            by (auto split: sum.splits)
          then show ?thesis
            using that(6) [OF ex [unfolded \<open>?find = Inr o'\<close> None] save [unfolded Inr]] enq by simp
        qed
      qed
    qed
  qed
qed


lemma promoted_simps:
  "db (promoted env file s) = db s" "taken (promoted env file s) = taken s"
  "effects (promoted env file s) = effects s @ [Renamed (file_path file) (job_file env file)]"
  by (simp_all add: promoted_def)

lemma promoted_files:
  assumes "map_of (files_of s) (file_path file) = Some c"
  shows "map_of (files_of (promoted env file s)) =
    (map_of (files_of s))(file_path file := None, job_file env file \<mapsto> c)"
  using assms by (simp add: promoted_def promote_def fs_rename_def Let_def update_conv' delete_conv')

lemma new_row_simps:
  "n_id (new_row env file h) = randomUUID env" "n_status (new_row env file h) = Queued"
  "n_originalName (new_row env file h) = originalname file"
  "n_filePath (new_row env file h) = job_file env file" "n_contentHash (new_row env file h) = Some h"
  by (simp_all add: new_row_def)

lemmas state_simps = promoted_simps new_row_simps do_remove_def map_of_remove

subsection \<open>What the service promises over any table that obeys the laws\<close>

locale service = job_repository "repo env" rows inv
  for env :: "'db service_env" and rows :: "'db \<Rightarrow> string \<Rightarrow> job option" and inv :: "'db \<Rightarrow> bool"
begin

lemma no_completed:
  assumes "inv (db s)" and "existing_job env file s h (Inr None)"
  shows "\<nexists>i j. rows (db s) i = Some j \<and> status j = Completed \<and> contentHash j = Some h"
  using findOne_None [OF assms(1)] assms(2) by (fastforce simp: existing_job_def matches_def)

lemma completed_found:
  assumes "inv (db s)" and "existing_job env file s h (Inr (Some j))"
  shows "rows (db s) (jid j) = Some j \<and> status j = Completed \<and> contentHash j = Some h"
  using findOne_Some [OF assms(1)] assms(2) by (fastforce simp: existing_job_def matches_def)

lemma accepted:
  assumes "inv (db s)" and "rows (db s) (randomUUID env) = None"
    and "create env file s = (Inr res, s')" and "\<not> deduplicated res"
  obtains c now j where "map_of (files_of s) (file_path file) = Some c"
    and "existing_job env file s (digest_hex env c) (Inr None)"
    and "j = insert_row (new_row env file (digest_hex env c)) now" and "result_job res = j"
    and "inv (db s')" and "rows (db s') = (rows (db s))(randomUUID env \<mapsto> j)"
    and "map_of (files_of s') = (map_of (files_of s))(file_path file := None, job_file env file \<mapsto> c)"
    and "taken s' = taken s @ [job_out (randomUUID env) (job_file env file)]"
    and "effects s' = effects s @ [Renamed (file_path file) (job_file env file),
      Inserted (randomUUID env), Published (randomUUID env)]"
  using assms(3)
proof (cases rule: create_cases)
  case (duplicate hash j)
  then show ?thesis using assms(4) by simp
next
  case (saved hash j d q)
  have "n_id (new_row env file hash) = randomUUID env" by (simp add: new_row_simps)
  then have row: "inv d \<and> rows d = (rows (db s))(randomUUID env \<mapsto> j) \<and>
      (\<exists>now. j = insert_row (new_row env file hash) now)"
    using save_new [OF assms(1) _ saved(2)] assms(2) by simp
  obtain c where c: "map_of (files_of s) (file_path file) = Some c" "hash = digest_hex env c"
    using saved(1) by (auto simp: existing_job_def)
  from saved(3) show ?thesis
  proof (cases rule: enqueue_cases)
    case published
    then show ?thesis using row c saved(1,4) promoted_files [OF c(1)] that
      by (auto simp: promoted_simps)
  qed (use saved(4) in auto)
qed auto

lemma save_new_row:
  assumes "inv d" and "rows d (randomUUID env) = None"
    and "repo_save (repo env) (new_row env file h) d = (Inr j, d')"
  shows "inv d'" and "rows d' = (rows d)(randomUUID env \<mapsto> j)"
    and "\<exists>now. j = insert_row (new_row env file h) now"
  using save_new [OF assms(1) _ assms(3)] assms(2) by (simp_all add: new_row_simps)

text \<open>Whatever happens, only the row of the new id and the two files of the upload can change.\<close>

lemma enqueue_frame:
  assumes "inv (db s)" and "enqueue env i p s = (r, s')"
  shows "inv (db s') \<and> (\<forall>k. k \<noteq> i \<longrightarrow> rows (db s') k = rows (db s) k) \<and>
    (\<forall>q. q \<noteq> p \<longrightarrow> map_of (files_of s') q = map_of (files_of s) q)"
  using assms(2)
proof (cases rule: enqueue_cases)
  case published
  then show ?thesis using assms(1) by simp
next
  case (stuck q e d)
  then show ?thesis using delete_throws [OF assms(1) stuck(1)] by auto
next
  case (undone q u d)
  then show ?thesis using delete_row [OF assms(1) undone(1)] by (simp add: map_of_remove)
qed

lemma frame:
  assumes "inv (db s)" and "rows (db s) (randomUUID env) = None" and "create env file s = (r, s')"
  shows "inv (db s') \<and> (\<forall>k. k \<noteq> randomUUID env \<longrightarrow> rows (db s') k = rows (db s) k) \<and>
    (\<forall>q. q \<noteq> file_path file \<longrightarrow> q \<noteq> job_file env file \<longrightarrow> map_of (files_of s') q = map_of (files_of s) q)"
  using assms(3)
proof (cases rule: create_cases)
  case (save_threw hash e d)
  then obtain c where "map_of (files_of s) (file_path file) = Some c" by (auto simp: existing_job_def)
  moreover have "inv d \<and> (rows d = rows (db s) \<or>
      (\<exists>now. rows d = (rows (db s))(randomUUID env \<mapsto> insert_row (new_row env file hash) now)))"
    using save_throws [OF assms(1) _ save_threw(2)] assms(2) by (simp add: new_row_simps)
  ultimately show ?thesis using save_threw(4) by (auto simp: promoted_files)
next
  case (saved hash j d q)
  then obtain c where c: "map_of (files_of s) (file_path file) = Some c" by (auto simp: existing_job_def)
  note row = save_new_row [OF assms(1,2) saved(2)]
  show ?thesis using enqueue_frame [OF _ saved(3)] row(1,2) promoted_files [OF c, of env] by simp
qed (use assms(1) in \<open>auto simp: state_simps\<close>)

text \<open>The three ways an upload of a new file fails once the file has been moved.\<close>

lemma save_failed:
  assumes "inv (db s)" and "rows (db s) (randomUUID env) = None" and "existing_job env file s h (Inr None)"
    and "repo_save (repo env) (new_row env file h) (db s) = (Inl e, d)"
    and "map_of (files_of s) (file_path file) = Some c"
  obtains s' where "create env file s = (Inl e, s')" and "rows (db s') = rows (db s) \<or>
      (\<exists>now. rows (db s') = (rows (db s))(randomUUID env \<mapsto> insert_row (new_row env file h) now))"
    and "map_of (files_of s') = (map_of (files_of s))(file_path file := None, job_file env file \<mapsto> c)"
    and "taken s' = taken s"
proof -
  obtain r s' where run: "create env file s = (r, s')" by fastforce
  then show thesis
  proof (cases rule: create_cases)
    case (save_threw hash e' d')
    have "hash = h" using save_threw(1) assms(3) by (auto simp: existing_job_def)
    with save_threw assms(4) have "r = Inl e" "s' = (promoted env file s)\<lparr>db := d\<rparr>" by simp_all
    then show thesis using that [of s'] run save_throws [OF assms(1) _ assms(4)] assms(2)
        promoted_files [OF assms(5), of env]
      by (simp add: promoted_simps new_row_simps)
  qed (use assms(3,4,5) in \<open>auto simp: existing_job_def\<close>)
qed

lemma publish_failed:
  assumes "inv (db s)" and "rows (db s) (randomUUID env) = None"
    and "existing_job env file s h (Inr None)"
    and "map_of (files_of s) (file_path file) = Some c"
    and "repo_save (repo env) (new_row env file h) (db s) = (Inr j, d)"
    and "channel (publisher_fields env) = None \<or>
      outcome env \<lparr>m_jobId = randomUUID env, m_filePath = job_file env file, m_attempt = 0\<rparr> \<noteq> Confirmed"
    and "create env file s = (r, s')"
  obtains (stuck) e d' where "repo_delete (repo env) (randomUUID env) d = (Inl e, d')" and "r = Inl e"
    and "rows d = (rows (db s))(randomUUID env \<mapsto> j)" and "db s' = d'"
    and "map_of (files_of s') = (map_of (files_of s))(file_path file := None, job_file env file \<mapsto> c)"
    and "taken s' = unconfirmed env (randomUUID env) (job_file env file) (taken s)"
  | (undone) u d' where "repo_delete (repo env) (randomUUID env) d = (Inr u, d')"
    and "r = Inl (ServiceUnavailableException ''Transcription queue unavailable'')"
    and "rows (db s') = rows (db s)"
    and "map_of (files_of s') = (map_of (files_of s))(file_path file := None, job_file env file := None)"
    and "taken s' = unconfirmed env (randomUUID env) (job_file env file) (taken s)"
  using assms(7)
proof (cases rule: create_cases)
  case (saved hash j' d1 q)
  have "hash = h" using saved(1) assms(3) by (auto simp: existing_job_def)
  with saved(2) assms(5) have eq: "j' = j" "d1 = d" by simp_all
  note row = save_new_row [OF assms(1,2,5)]
  from saved(3) show thesis
  proof (cases rule: enqueue_cases)
    case published
    then show thesis using assms(6) by simp
  next
    case (stuck t e d')
    then show thesis using that(1) [of e d'] saved(4) eq row
        promoted_files [OF assms(4), of env] by (simp add: promoted_simps)
  next
    case (undone t u d')
    have "rows d' = rows (db s)"
      using delete_row [OF row(1), of "randomUUID env" u d'] undone(1) eq row(2) assms(2)
      by (simp add: fun_upd_idem)
    with undone show thesis using that(2) [of u d'] saved(4) eq
        promoted_files [OF assms(4), of env] by (simp add: promoted_simps map_of_remove)
  qed
qed (use assms(3,4,5) in \<open>auto simp: existing_job_def\<close>)

end

lemma lists_rows_dom:
  assumes "lists_rows rows js"
  shows "jid ` set js = dom rows" and "length js = card (dom rows)"
proof -
  show eq: "jid ` set js = dom rows"
  proof (rule set_eqI)
    fix i
    show "i \<in> jid ` set js \<longleftrightarrow> i \<in> dom rows"
      using assms by (fastforce simp: lists_rows_def image_iff dom_def)
  qed
  have "length js = card (jid ` set js)"
    using assms distinct_card [of "map jid js"] by (simp add: lists_rows_def)
  with eq show "length js = card (dom rows)" by simp
qed

lemma truncate_simps:
  "jid (job_row.truncate j) = jid j" "createdAt (job_row.truncate j) = createdAt j"
  by (simp_all add: job_row.truncate_def)

lemma page_rows:
  assumes "lists_rows rows js"
  shows "distinct (map jid (take m (drop n js)))"
    and "j \<in> set (take m (drop n js)) \<Longrightarrow> rows (jid j) = Some j"
    and "newest_first js \<Longrightarrow> newest_first (map job_row.truncate (take m (drop n js)))"
proof -
  show "distinct (map jid (take m (drop n js)))"
    using assms by (simp add: lists_rows_def take_map [symmetric] drop_map [symmetric])
  show "j \<in> set (take m (drop n js)) \<Longrightarrow> rows (jid j) = Some j"
    using assms by (auto simp: lists_rows_def dest: in_set_takeD in_set_dropD)
  show "newest_first js \<Longrightarrow> newest_first (map job_row.truncate (take m (drop n js)))"
    by (simp add: newest_first_def sorted_wrt_map truncate_simps sorted_wrt_take sorted_wrt_drop)
qed

interpretation jobs_service: service "env\<lparr>repo := table_repository now\<rparr>" table_rows table_inv for env now
  using jobs_table.job_repository_axioms [of now] by (simp add: service_def)

text \<open>
  A concrete service for the witnesses: an empty or given table, a broker that answers as told,
  and the first bytes of a file as its digest.
\<close>

definition sample_env :: "nat option \<Rightarrow> publish_outcome \<Rightarrow> table service_env" where
  "sample_env ch answer = \<lparr>repo = table_repository 7, digest_hex = map char_of, audioDir = ''/data'',
     randomUUID = ''u1'', publisher_fields = \<lparr>connection = ch, channel = ch, shuttingDown = False\<rparr>,
     outcome = (\<lambda>_. answer)\<rparr>"

definition sample_file :: multer_file where
  "sample_file = \<lparr>originalname = ''talk.mp3'', mimetype = ''audio/mpeg'', file_path = ''/data/tmp/x''\<rparr>"

definition sample_state :: "table \<Rightarrow> table api_state" where
  "sample_state t = \<lparr>files_of = [(''/data/tmp/x'', [97, 98])], db = t, taken = [], effects = []\<rparr>"

definition sample_job :: job where
  "sample_job = insert_row \<lparr>n_id = ''u1'', n_status = Queued, n_originalName = ''talk.mp3'',
     n_filePath = ''/data/u1.mp3'', n_contentHash = Some ''ab''\<rparr> 7"

lemma sample_laws: "job_repository (repo (sample_env ch a)) table_rows table_inv"
  using jobs_table.job_repository_axioms [of 7] by (simp add: sample_env_def)

definition failing_delete :: "table repository \<Rightarrow> table repository" where
  "failing_delete r = r\<lparr>repo_delete := (\<lambda>i t. (Inl (Error ''connection terminated''), t))\<rparr>"

definition failing_save :: "table repository \<Rightarrow> table repository" where
  "failing_save r = r\<lparr>repo_save := (\<lambda>i t. (Inl (Error ''connection terminated''), t))\<rparr>"

lemma failing_simps:
  "repo_findOne (failing_delete r) = repo_findOne r" "repo_save (failing_delete r) = repo_save r"
  "repo_delete (failing_delete r) i t = (Inl (Error ''connection terminated''), t)"
  "repo_find (failing_delete r) = repo_find r"
  "repo_findOne (failing_save r) = repo_findOne r" "repo_delete (failing_save r) = repo_delete r"
  "repo_save (failing_save r) n t = (Inl (Error ''connection terminated''), t)"
  "repo_find (failing_save r) = repo_find r"
  by (simp_all add: failing_delete_def failing_save_def)

lemmas table_laws = jobs_table.rows_jid jobs_table.findOne_Some jobs_table.findOne_None
  jobs_table.save_new jobs_table.delete_row jobs_table.save_throws jobs_table.delete_throws
  jobs_table.find_page

lemma failing_delete_laws: "job_repository (failing_delete (table_repository now)) table_rows table_inv"
proof (rule job_repository.intro, unfold failing_simps)
qed ((rule table_laws; assumption) | simp)+

lemma failing_save_laws: "job_repository (failing_save (table_repository now)) table_rows table_inv"
proof (rule job_repository.intro, unfold failing_simps)
qed ((rule table_laws; assumption) | simp)+

lemma sample_path:
  "''/data/u1.mp3'' = final_path ''/data'' ''u1'' (extension_of (originalname sample_file))"
  by code_simp

lemma sample_upload:
  "table_inv (db (sample_state []))" "table_rows (db (sample_state [])) i = None"
  "validate_upload (originalname sample_file) (mimetype sample_file) = None"
  "map_of (files_of (sample_state t)) (file_path sample_file) = Some [97, 98]"
  "repo_findOne (table_repository now) w (db (sample_state [])) = Inr None"
  "repo_save (table_repository 7) \<lparr>n_id = ''u1'', n_status = Queued,
     n_originalName = originalname sample_file, n_filePath = ''/data/u1.mp3'',
     n_contentHash = Some (map char_of [97, 98 :: byte])\<rparr> (db (sample_state [])) = (Inr sample_job, [sample_job])"
proof -
  show "validate_upload (originalname sample_file) (mimetype sample_file) = None" by code_simp
  show "repo_save (table_repository 7) \<lparr>n_id = ''u1'', n_status = Queued,
     n_originalName = originalname sample_file, n_filePath = ''/data/u1.mp3'',
     n_contentHash = Some (map char_of [97, 98 :: byte])\<rparr> (db (sample_state [])) = (Inr sample_job, [sample_job])"
    by code_simp
  show "map_of (files_of (sample_state t)) (file_path sample_file) = Some [97, 98]" by code_simp
qed (simp_all add: sample_state_def table_inv_def table_rows_def table_repository_def)

lemma sample_env_simps:
  "repo (sample_env ch a) = table_repository 7" "digest_hex (sample_env ch a) = map char_of"
  "audioDir (sample_env ch a) = ''/data''" "randomUUID (sample_env ch a) = ''u1''"
  "channel (publisher_fields (sample_env ch a)) = ch" "outcome (sample_env ch a) m = a"
  by (simp_all add: sample_env_def)

lemma sample_state_simps:
  "taken (sample_state t) = []" "effects (sample_state t) = []" "db (sample_state t) = t"
  by (simp_all add: sample_state_def)

subsection \<open>Properties\<close>

text \<open>
  C1. What an accepted upload means. If the upload of a new file is accepted, over any job table
  that obeys the repository's laws: the response carries a fresh row with status \<open>queued\<close>, progress
  and attempts 0, the client's file name, the digest of the uploaded bytes and the path of the
  stored file; the table gained exactly this row; the temporary file was moved, with its bytes,
  to that path; exactly one message was handed to the broker, naming the row and the path, with
  attempt 0; and the row was inserted after the move and before the message.
\<close>

theorem accepted_upload:
  assumes laws: "job_repository (repo env) rows ok" and inv: "ok (db s)"
    and fresh: "rows (db s) (randomUUID env) = None"
    and run: "create env file s = (Inr res, s')" and new: "\<not> deduplicated res"
  shows "\<exists>c now. map_of (files_of s) (file_path file) = Some c \<and>
    result_job res = insert_row \<lparr>n_id = randomUUID env, n_status = Queued,
      n_originalName = originalname file,
      n_filePath = final_path (audioDir env) (randomUUID env) (extension_of (originalname file)),
      n_contentHash = Some (digest_hex env c)\<rparr> now \<and>
    rows (db s') = (rows (db s))(randomUUID env \<mapsto> result_job res) \<and>
    map_of (files_of s') = (map_of (files_of s))
      (file_path file := None, filePath (result_job res) \<mapsto> c) \<and>
    taken s' = taken s @ [job_out (randomUUID env) (filePath (result_job res))] \<and>
    effects s' = effects s @ [Renamed (file_path file) (filePath (result_job res)),
      Inserted (randomUUID env), Published (randomUUID env)]"
proof -
  from laws have "service env rows ok" by (simp add: service_def)
  from service.accepted [OF this inv fresh run new] obtain c now j where
    "map_of (files_of s) (file_path file) = Some c"
    and "j = insert_row (new_row env file (digest_hex env c)) now" "result_job res = j"
    and "rows (db s') = (rows (db s))(randomUUID env \<mapsto> j)"
    and "map_of (files_of s') = (map_of (files_of s))(file_path file := None, job_file env file \<mapsto> c)"
    and "taken s' = taken s @ [job_out (randomUUID env) (job_file env file)]"
    and "effects s' = effects s @ [Renamed (file_path file) (job_file env file),
      Inserted (randomUUID env), Published (randomUUID env)]" .
  then show ?thesis by (intro exI [of _ c] exI [of _ now]) (simp add: new_row_def insert_row_def)
qed

theorem accepted_upload_witness:
  "create (sample_env (Some 0) Confirmed) sample_file (sample_state []) =
    (Inr \<lparr>result_job = sample_job, deduplicated = False\<rparr>,
     \<lparr>files_of = [(''/data/u1.mp3'', [97, 98])], db = [sample_job],
      taken = [job_out ''u1'' ''/data/u1.mp3''],
      effects = [Renamed ''/data/tmp/x'' ''/data/u1.mp3'', Inserted ''u1'', Published ''u1'']\<rparr>) \<and>
   table_rows [sample_job] = (table_rows [])(''u1'' \<mapsto> sample_job)"
proof -
  have run: "create (sample_env (Some 0) Confirmed) sample_file (sample_state []) =
    (Inr \<lparr>result_job = sample_job, deduplicated = False\<rparr>,
     \<lparr>files_of = [(''/data/u1.mp3'', [97, 98])], db = [sample_job],
      taken = [job_out ''u1'' ''/data/u1.mp3''],
      effects = [Renamed ''/data/tmp/x'' ''/data/u1.mp3'', Inserted ''u1'', Published ''u1'']\<rparr>)"
    by code_simp
  have fresh: "table_rows (db (sample_state [])) (randomUUID (sample_env (Some 0) Confirmed)) = None"
    and ok: "table_inv (db (sample_state []))"
    by (simp_all add: sample_state_def table_rows_def table_inv_def)
  from accepted_upload [OF sample_laws ok fresh run] run show ?thesis
    by (auto simp: sample_state_def sample_env_def)
qed

text \<open>
  The upload path does not get stuck: a valid file that was received, that no completed job
  has, is accepted as soon as the insert returns, a channel is open and the broker confirms. The
  resulting state is given in full, so nothing else happens.
\<close>

theorem upload_goes_through:
  assumes "validate_upload (originalname file) (mimetype file) = None"
    and "map_of (files_of s) (file_path file) = Some c"
    and "repo_findOne (repo env) \<lparr>w_id = None, w_contentHash = Some (digest_hex env c),
           w_status = Some Completed\<rparr> (db s) = Inr None"
    and "p = final_path (audioDir env) (randomUUID env) (extension_of (originalname file))"
    and "repo_save (repo env) \<lparr>n_id = randomUUID env, n_status = Queued,
           n_originalName = originalname file, n_filePath = p,
           n_contentHash = Some (digest_hex env c)\<rparr> (db s) = (Inr j, d)"
    and "channel (publisher_fields env) \<noteq> None"
    and "outcome env \<lparr>m_jobId = randomUUID env, m_filePath = p, m_attempt = 0\<rparr> = Confirmed"
  shows "create env file s = (Inr \<lparr>result_job = j, deduplicated = False\<rparr>,
    s\<lparr>files_of := AList.update p c (AList.delete (file_path file) (files_of s)), db := d,
      taken := taken s @ [job_out (randomUUID env) p],
      effects := effects s @ [Renamed (file_path file) p, Inserted (randomUUID env),
        Published (randomUUID env)]\<rparr>)"
proof -
  have ex: "existing_job env file s (digest_hex env c) (Inr None)"
    using assms(1-3) by (auto simp: existing_job_def)
  have save: "repo_save (repo env) (new_row env file (digest_hex env c)) (db s) = (Inr j, d)"
    using assms(4,5) by (simp add: new_row_def)
  have files: "files_of (promoted env file s) = AList.update p c (AList.delete (file_path file) (files_of s))"
    using assms(2,4) by (simp add: promoted_def promote_def fs_rename_def Let_def)
  obtain r s' where run: "create env file s = (r, s')" by fastforce
  then show ?thesis
  proof (cases rule: create_cases)
    case (saved hash j' d' q)
    have "hash = digest_hex env c" using saved(1) assms(2) by (auto simp: existing_job_def)
    with saved(2) save have eq: "j' = j" "d' = d" by simp_all
    have "enqueue env (randomUUID env) (job_file env file) x = (Inr (),
        x\<lparr>taken := taken x @ [job_out (randomUUID env) p], effects := effects x @ [Published (randomUUID env)]\<rparr>)"
      for x using assms(4,6,7)
      by (auto simp: enqueue_def io_catch_def do_publish_def publish_job_eq)
    with saved(3,4) eq run files assms(4) show ?thesis
      by (auto simp: promoted_def)
  qed (use ex save assms(1,2) in \<open>auto simp: existing_job_def\<close>)
qed

theorem upload_goes_through_witness:
  "fst (create (sample_env (Some 0) Confirmed) sample_file (sample_state [])) =
    Inr \<lparr>result_job = sample_job, deduplicated = False\<rparr>"
proof -
  note up = upload_goes_through [of sample_file "sample_state []" "[97, 98]" "sample_env (Some 0) Confirmed"
    "''/data/u1.mp3''" sample_job "[sample_job]", unfolded sample_env_simps,
    OF sample_upload(3,4,5) sample_path sample_upload(6) option.simps(3) refl]
  show ?thesis by (simp only: up fst_conv)
qed

text \<open>
  C19. Deduplication. For a valid upload that was received and whose lookup answers: if some
  completed row has the digest of the uploaded bytes, then the response is such a row, marked
  deduplicated, the temporary file is deleted, and the table and the queue are untouched; if none
  has, then the response is never marked deduplicated.
\<close>

theorem upload_deduplicated:
  assumes laws: "job_repository (repo env) rows ok" and ok: "ok (db s)"
    and valid: "validate_upload (originalname file) (mimetype file) = None"
    and content: "map_of (files_of s) (file_path file) = Some c"
    and answers: "repo_findOne (repo env) \<lparr>w_id = None, w_contentHash = Some (digest_hex env c),
           w_status = Some Completed\<rparr> (db s) = Inr found"
  shows "if \<exists>i j. rows (db s) i = Some j \<and> status j = Completed \<and> contentHash j = Some (digest_hex env c)
    then \<exists>j. rows (db s) (jid j) = Some j \<and> status j = Completed \<and>
      contentHash j = Some (digest_hex env c) \<and>
      create env file s = (Inr \<lparr>result_job = j, deduplicated = True\<rparr>,
        s\<lparr>files_of := remove (file_path file) (files_of s),
          effects := effects s @ [Unlinked (file_path file)]\<rparr>)
    else \<nexists>j. fst (create env file s) = Inr \<lparr>result_job = j, deduplicated = True\<rparr>"
proof -
  from laws have S: "service env rows ok" by (simp add: service_def)
  have ex: "existing_job env file s (digest_hex env c) (Inr found)"
    using valid content answers by (auto simp: existing_job_def)
  obtain r s' where run: "create env file s = (r, s')" by fastforce
  show ?thesis
  proof (cases found)
    case None
    with run service.no_completed [OF S ok ex [unfolded None]] show ?thesis
      by (cases rule: create_cases) (use run ex None in \<open>auto simp: existing_job_def split: sum.splits\<close>)
  next
    case (Some j)
    with run have "create env file s = (Inr \<lparr>result_job = j, deduplicated = True\<rparr>,
        s\<lparr>files_of := remove (file_path file) (files_of s),
          effects := effects s @ [Unlinked (file_path file)]\<rparr>)"
      by (cases rule: create_cases) (use run ex Some content in \<open>auto simp: existing_job_def do_remove_def\<close>)
    with service.completed_found [OF S ok ex [unfolded Some]] show ?thesis by auto
  qed
qed

theorem upload_deduplicated_witness:
  "\<exists>j. create (sample_env None Confirmed) sample_file (sample_state [sample_job\<lparr>status := Completed\<rparr>]) =
    (Inr \<lparr>result_job = j, deduplicated = True\<rparr>,
     (sample_state [sample_job\<lparr>status := Completed\<rparr>])\<lparr>files_of := [], effects := [Unlinked ''/data/tmp/x'']\<rparr>)"
proof -
  let ?e = "sample_env None Confirmed" and ?j = "sample_job\<lparr>status := Completed\<rparr>"
  let ?s = "sample_state [?j]"
  have ok: "table_inv (db ?s)" by (simp add: sample_state_def table_inv_def)
  have valid: "validate_upload (originalname sample_file) (mimetype sample_file) = None" by code_simp
  have content: "map_of (files_of ?s) (file_path sample_file) = Some [97, 98]" by code_simp
  have find: "repo_findOne (repo ?e) \<lparr>w_id = None, w_contentHash = Some (digest_hex ?e [97, 98]),
      w_status = Some Completed\<rparr> (db ?s) = Inr (Some ?j)" by code_simp
  have "table_rows (db ?s) ''u1'' = Some ?j \<and> contentHash ?j = Some (digest_hex ?e [97, 98])"
    by code_simp
  then have "\<exists>i j. table_rows (db ?s) i = Some j \<and> status j = Completed \<and>
      contentHash j = Some (digest_hex ?e [97, 98])"
    by (intro exI [of _ "''u1''"] exI [of _ ?j]) simp
  from upload_deduplicated [OF sample_laws ok valid content find, unfolded if_P [OF this]]
  obtain j where "create ?e sample_file ?s = (Inr \<lparr>result_job = j, deduplicated = True\<rparr>,
        ?s\<lparr>files_of := remove (file_path sample_file) (files_of ?s),
          effects := effects ?s @ [Unlinked (file_path sample_file)]\<rparr>)" by blast
  moreover have "remove (file_path sample_file) (files_of ?s) = []"
    and "effects ?s @ [Unlinked (file_path sample_file)] = [Unlinked ''/data/tmp/x'']" by code_simp+
  ultimately show ?thesis by (intro exI [of _ j]) (simp only:)
qed

text \<open>
  The early exits of an upload, in the code's order. A file that fails validation is answered
  415 with the reason and its temporary file is deleted; a file that cannot be read and a lookup
  that throws fail with that error and change nothing; a duplicate deletes the temporary file and
  returns the job found. In all four, neither the table nor the queue is touched.
\<close>

theorem upload_early_exits:
  "create env file s = (case validate_upload (originalname file) (mimetype file) of
     Some reason \<Rightarrow> (Inl (UnsupportedMediaTypeException reason),
       s\<lparr>files_of := remove (file_path file) (files_of s),
         effects := effects s @ [Unlinked (file_path file)]\<rparr>)
   | None \<Rightarrow> (case map_of (files_of s) (file_path file) of
       None \<Rightarrow> (Inl (Error ''ENOENT''), s)
     | Some c \<Rightarrow> (case repo_findOne (repo env) \<lparr>w_id = None,
           w_contentHash = Some (digest_hex env c), w_status = Some Completed\<rparr> (db s) of
         Inl e \<Rightarrow> (Inl e, s)
       | Inr (Some j) \<Rightarrow> (Inr \<lparr>result_job = j, deduplicated = True\<rparr>,
           s\<lparr>files_of := remove (file_path file) (files_of s),
             effects := effects s @ [Unlinked (file_path file)]\<rparr>)
       | Inr None \<Rightarrow> create env file s)))"
proof -
  obtain r s' where run: "create env file s = (r, s')" by fastforce
  then show ?thesis
    by (cases rule: create_cases) (use run in \<open>auto simp: existing_job_def do_remove_def\<close>)
qed


text \<open>
  C7. A failed publish is undone. If the file was moved and the row inserted but the publisher has
  no channel, or the broker refuses or never confirms, and the row can be deleted, then the
  client is answered 503, the table is what it was before the upload, and both the temporary and
  the stored file are gone. The queue is what it was, except when only the confirm was lost: then
  the broker keeps the message of a job that no longer exists.
\<close>

theorem failed_publish_undone:
  assumes laws: "job_repository (repo env) rows ok" and ok: "ok (db s)"
    and fresh: "rows (db s) (randomUUID env) = None"
    and valid: "validate_upload (originalname file) (mimetype file) = None"
    and content: "map_of (files_of s) (file_path file) = Some c"
    and none: "repo_findOne (repo env) \<lparr>w_id = None, w_contentHash = Some (digest_hex env c),
           w_status = Some Completed\<rparr> (db s) = Inr None"
    and p: "p = final_path (audioDir env) (randomUUID env) (extension_of (originalname file))"
    and save: "repo_save (repo env) \<lparr>n_id = randomUUID env, n_status = Queued,
           n_originalName = originalname file, n_filePath = p,
           n_contentHash = Some (digest_hex env c)\<rparr> (db s) = (Inr j, d)"
    and fails: "channel (publisher_fields env) = None \<or>
      outcome env \<lparr>m_jobId = randomUUID env, m_filePath = p, m_attempt = 0\<rparr> \<noteq> Confirmed"
    and delete: "repo_delete (repo env) (randomUUID env) d = (Inr u, d')"
  shows "\<exists>s'. create env file s =
      (Inl (ServiceUnavailableException ''Transcription queue unavailable''), s') \<and>
    rows (db s') = rows (db s) \<and>
    map_of (files_of s') = (map_of (files_of s))(file_path file := None, p := None) \<and>
    taken s' = (case (channel (publisher_fields env),
        outcome env \<lparr>m_jobId = randomUUID env, m_filePath = p, m_attempt = 0\<rparr>) of
      (Some _, ConfirmLost _) \<Rightarrow> taken s @ [job_out (randomUUID env) p] | _ \<Rightarrow> taken s)"
proof -
  from laws have S: "service env rows ok" by (simp add: service_def)
  have ex: "existing_job env file s (digest_hex env c) (Inr None)"
    using valid content none by (auto simp: existing_job_def)
  have row: "repo_save (repo env) (new_row env file (digest_hex env c)) (db s) = (Inr j, d)"
    using save p by (simp add: new_row_def)
  obtain r s' where run: "create env file s = (r, s')" by fastforce
  from service.publish_failed [OF S ok fresh ex content row fails [unfolded p] run]
  show ?thesis
  proof cases
    case 2
    then show ?thesis using run p
      by (auto simp: unconfirmed_def split: option.splits publish_outcome.splits)
  qed (use delete in simp)
qed

theorem failed_publish_undone_witness:
  "\<exists>s'. create (sample_env (Some 0) (ConfirmLost ''timeout'')) sample_file (sample_state []) =
      (Inl (ServiceUnavailableException ''Transcription queue unavailable''), s') \<and>
    table_rows (db s') = table_rows [] \<and> taken s' = [job_out ''u1'' ''/data/u1.mp3'']"
proof -
  let ?e = "sample_env (Some 0) (ConfirmLost ''timeout'')" and ?s = "sample_state []"
  have "repo_delete (repo ?e) (randomUUID ?e) [sample_job] = (Inr (), [])" by code_simp
  then have "\<exists>s'. create ?e sample_file ?s =
      (Inl (ServiceUnavailableException ''Transcription queue unavailable''), s') \<and>
    table_rows (db s') = table_rows (db ?s) \<and>
    map_of (files_of s') = (map_of (files_of ?s))(file_path sample_file := None, ''/data/u1.mp3'' := None) \<and>
    taken s' = (case (Some 0 :: nat option, ConfirmLost ''timeout'') of
      (Some _, ConfirmLost _) \<Rightarrow> taken ?s @ [job_out ''u1'' ''/data/u1.mp3''] | _ \<Rightarrow> taken ?s)"
    using failed_publish_undone [of ?e table_rows table_inv ?s sample_file "[97, 98]" "''/data/u1.mp3''"
        sample_job "[sample_job]" "()" "[]"] sample_laws sample_upload(1-5) sample_upload(6) sample_path
    by (simp only: sample_env_simps) simp
  then show ?thesis by (auto simp: sample_state_simps)
qed

text \<open>
  What the undo does not cover. If the publish failed and the database cannot delete the row
  either (the delete throws without effect), then the upload fails with the database's error, and the row stays in the table as
  queued and the stored file on disk; when the message was not taken, nothing will ever process
  that row.
\<close>

theorem failed_undo_leaves_queued_row:
  assumes laws: "job_repository (repo env) rows ok" and ok: "ok (db s)"
    and fresh: "rows (db s) (randomUUID env) = None"
    and valid: "validate_upload (originalname file) (mimetype file) = None"
    and content: "map_of (files_of s) (file_path file) = Some c"
    and none: "repo_findOne (repo env) \<lparr>w_id = None, w_contentHash = Some (digest_hex env c),
           w_status = Some Completed\<rparr> (db s) = Inr None"
    and p: "p = final_path (audioDir env) (randomUUID env) (extension_of (originalname file))"
    and save: "repo_save (repo env) \<lparr>n_id = randomUUID env, n_status = Queued,
           n_originalName = originalname file, n_filePath = p,
           n_contentHash = Some (digest_hex env c)\<rparr> (db s) = (Inr j, d)"
    and fails: "channel (publisher_fields env) = None"
    and delete: "repo_delete (repo env) (randomUUID env) d = (Inl e, d')" and kept: "rows d' = rows d"
  shows "\<exists>s'. create env file s = (Inl e, s') \<and> rows (db s') (randomUUID env) = Some j \<and>
    status j = Queued \<and> map_of (files_of s') p = Some c \<and> taken s' = taken s"
proof -
  from laws have S: "service env rows ok" by (simp add: service_def)
  have ex: "existing_job env file s (digest_hex env c) (Inr None)"
    using valid content none by (auto simp: existing_job_def)
  have row: "repo_save (repo env) (new_row env file (digest_hex env c)) (db s) = (Inr j, d)"
    using save p by (simp add: new_row_def)
  have fails': "channel (publisher_fields env) = None \<or> outcome env
      \<lparr>m_jobId = randomUUID env, m_filePath = job_file env file, m_attempt = 0\<rparr> \<noteq> Confirmed"
    using fails by simp
  obtain r s' where run: "create env file s = (r, s')" by fastforce
  have queued: "status j = Queued"
    using service.save_new_row (3) [OF S ok fresh row] by (auto simp: insert_row_def new_row_simps)
  from service.publish_failed [OF S ok fresh ex content row fails' run]
  show ?thesis
  proof cases
    case 1
    then show ?thesis using run p queued delete fails kept by (auto simp: unconfirmed_def)
  qed (use delete in simp)
qed

theorem failed_undo_leaves_queued_row_witness:
  "\<exists>s' j. create ((sample_env None Confirmed)\<lparr>repo := failing_delete (table_repository 7)\<rparr>)
      sample_file (sample_state []) = (Inl (Error ''connection terminated''), s') \<and>
    table_rows (db s') ''u1'' = Some j \<and> status j = Queued \<and> taken s' = []"
proof -
  let ?e = "(sample_env None Confirmed)\<lparr>repo := failing_delete (table_repository 7)\<rparr>"
    and ?s = "sample_state []"
  have same: "repo ?e = failing_delete (table_repository 7)" "digest_hex ?e = map char_of"
    "audioDir ?e = ''/data''" "randomUUID ?e = ''u1''" "channel (publisher_fields ?e) = None"
    by (simp_all add: sample_env_simps)
  have r: "repo_findOne (failing_delete r) = repo_findOne r" "repo_save (failing_delete r) = repo_save r"
    "repo_delete (failing_delete r) i t = (Inl (Error ''connection terminated''), t)" for r i t
    by (simp_all add: failing_delete_def)
  from failed_undo_leaves_queued_row [of ?e table_rows table_inv ?s sample_file "[97, 98]"
      "''/data/u1.mp3''" sample_job "[sample_job]" "Error ''connection terminated''" "[sample_job]",
      unfolded same r, OF failing_delete_laws sample_upload(1,2,3,4,5) sample_path sample_upload(6) refl refl refl]
  show ?thesis by (metis sample_state_simps(1))
qed

text \<open>
  A failed insert is not undone. If the file was moved but the insert throws, the upload fails with
  the database's error, the queue is unchanged, and the stored file stays on disk under the fresh
  id. The table is what it was, and then no row names the file; or the insert was committed and only
  its answer lost, and then it has a queued row for which no message was ever published.
\<close>

theorem failed_insert_leaves_file:
  assumes laws: "job_repository (repo env) rows ok" and ok: "ok (db s)"
    and fresh: "rows (db s) (randomUUID env) = None"
    and valid: "validate_upload (originalname file) (mimetype file) = None"
    and content: "map_of (files_of s) (file_path file) = Some c"
    and none: "repo_findOne (repo env) \<lparr>w_id = None, w_contentHash = Some (digest_hex env c),
           w_status = Some Completed\<rparr> (db s) = Inr None"
    and p: "p = final_path (audioDir env) (randomUUID env) (extension_of (originalname file))"
    and save: "repo_save (repo env) \<lparr>n_id = randomUUID env, n_status = Queued,
           n_originalName = originalname file, n_filePath = p,
           n_contentHash = Some (digest_hex env c)\<rparr> (db s) = (Inl e, d)"
  shows "\<exists>s'. create env file s = (Inl e, s') \<and> taken s' = taken s \<and>
    (rows (db s') = rows (db s) \<or> (\<exists>j. rows (db s') = (rows (db s))(randomUUID env \<mapsto> j) \<and> status j = Queued)) \<and>
    map_of (files_of s') = (map_of (files_of s))(file_path file := None, p \<mapsto> c)"
proof -
  from laws have S: "service env rows ok" by (simp add: service_def)
  have ex: "existing_job env file s (digest_hex env c) (Inr None)"
    using valid content none by (auto simp: existing_job_def)
  have "repo_save (repo env) (new_row env file (digest_hex env c)) (db s) = (Inl e, d)"
    using save p by (simp add: new_row_def)
  from service.save_failed [OF S ok fresh ex this content] obtain s' where
    "create env file s = (Inl e, s')" "taken s' = taken s"
    "rows (db s') = rows (db s) \<or> (\<exists>now. rows (db s') = (rows (db s))(randomUUID env \<mapsto>
       insert_row (new_row env file (digest_hex env c)) now))"
    "map_of (files_of s') = (map_of (files_of s))(file_path file := None, job_file env file \<mapsto> c)" .
  with p show ?thesis by (auto simp: insert_row_def new_row_simps)
qed

theorem failed_insert_leaves_file_witness:
  "\<exists>s'. create ((sample_env None Confirmed)\<lparr>repo := failing_save (table_repository 7)\<rparr>)
      sample_file (sample_state []) = (Inl (Error ''connection terminated''), s') \<and> map_of (files_of s') ''/data/u1.mp3'' = Some [97, 98]"
proof -
  let ?e = "(sample_env None Confirmed)\<lparr>repo := failing_save (table_repository 7)\<rparr>"
  have same: "repo ?e = failing_save (table_repository 7)" "digest_hex ?e = map char_of"
    "audioDir ?e = ''/data''" "randomUUID ?e = ''u1''"
    by (simp_all add: sample_env_simps)
  from failed_insert_leaves_file [of ?e table_rows table_inv "sample_state []" sample_file "[97, 98]"
      "''/data/u1.mp3''" "Error ''connection terminated''" "db (sample_state [])", unfolded same failing_simps,
      OF failing_save_laws sample_upload(1,2,3,4,5) sample_path refl]
  obtain s' where "create ?e sample_file (sample_state []) = (Inl (Error ''connection terminated''), s')"
    and "map_of (files_of s') = (map_of (files_of (sample_state [])))
      (file_path sample_file := None, ''/data/u1.mp3'' \<mapsto> [97, 98])" by blast
  then show ?thesis by (intro exI [of _ s']) (simp only: fun_upd_same simp_thms)
qed

text \<open>
  C38. Isolation. However an upload ends, the rows of all other jobs are unchanged, and so is every
  file other than the upload's own temporary and stored file; the table stays well formed.
\<close>

theorem upload_touches_only_its_job:
  assumes "job_repository (repo env) rows ok" and "ok (db s)"
    and "rows (db s) (randomUUID env) = None" and "create env file s = (r, s')"
    and "k \<noteq> randomUUID env"
    and "q \<notin> {file_path file, final_path (audioDir env) (randomUUID env) (extension_of (originalname file))}"
  shows "ok (db s') \<and> rows (db s') k = rows (db s) k \<and> map_of (files_of s') q = map_of (files_of s) q"
  using service.frame [of env rows ok, OF _ assms(2-4)] assms(1,5,6) by (simp add: service_def)

theorem upload_touches_only_its_job_witness:
  "table_rows (db (snd (create (sample_env None Confirmed) sample_file (sample_state [])))) ''u2'' = None"
proof -
  let ?e = "sample_env None Confirmed" and ?s = "sample_state []"
  obtain r s' where run: "create ?e sample_file ?s = (r, s')" by fastforce
  have "''u2'' \<noteq> randomUUID ?e" by (simp add: sample_env_simps)
  moreover have "''/data/u2.mp3'' \<notin> {file_path sample_file,
      final_path (audioDir ?e) (randomUUID ?e) (extension_of (originalname sample_file))}"
    by code_simp
  ultimately show ?thesis
    using upload_touches_only_its_job [OF sample_laws sample_upload(1) sample_upload(2) run] run
      sample_upload(2) by simp
qed

text \<open>
  Looking a job up by its id finds exactly its row, and answers 404 when there is none,
  provided the lookup itself does not throw.
\<close>

theorem find_by_id_exact:
  assumes "job_repository (repo env) rows ok" and "ok d"
    and "repo_findOne (repo env) \<lparr>w_id = Some i, w_contentHash = None, w_status = None\<rparr> d = Inr found"
  shows "find_by_id env i d = (case rows d i of
      None \<Rightarrow> Inl (NotFoundException (''No transcription job with id '' @ i))
    | Some j \<Rightarrow> Inr j) \<and>
    status_code (NotFoundException (''No transcription job with id '' @ i)) = 404"
  using job_repository.findOne_by_id [OF assms] assms(3)
  by (simp add: find_by_id_def bind_result_def)

theorem find_by_id_exact_witness:
  "find_by_id (sample_env None Confirmed) ''u1'' [sample_job] = Inr sample_job"
proof -
  have "repo_findOne (repo (sample_env None Confirmed))
      \<lparr>w_id = Some ''u1'', w_contentHash = None, w_status = None\<rparr> [sample_job] = Inr (Some sample_job)"
    by code_simp
  moreover have "table_inv [sample_job]" by (simp add: table_inv_def)
  moreover have "table_rows [sample_job] ''u1'' = Some sample_job" by code_simp
  ultimately show ?thesis using find_by_id_exact [OF sample_laws, of "[sample_job]"] by auto
qed

text \<open>
  Listing. A page has exactly as many rows as the limit and the offset leave, each is a row of
  the table without its transcript and path, no id is repeated, and the page is newest first; and
  on the first page, no row left out is newer than a row listed.
\<close>

theorem list_jobs_page:
  assumes laws: "job_repository (repo env) rows ok" and ok: "ok d"
    and page: "list_jobs env limit offset d = Inr rs"
  shows "length rs = min limit (card (dom (rows d)) - offset) \<and> newest_first rs \<and>
    distinct (map jid rs) \<and>
    set rs \<subseteq> {job_row.truncate j |j. rows d (jid j) = Some j} \<and>
    (if offset = 0 then \<forall>j \<in> ran (rows d). jid j \<in> jid ` set rs \<or> (\<forall>r \<in> set rs. createdAt j \<le> createdAt r)
     else True)"
proof -
  obtain js where js: "lists_rows (rows d) js" "newest_first js"
    and rs: "rs = map job_row.truncate (take limit (drop offset js))"
    using job_repository.find_page [OF laws ok page [unfolded list_jobs_def]] by auto
  have "length rs = min limit (card (dom (rows d)) - offset)"
    using lists_rows_dom(2) [OF js(1)] by (simp add: rs min.commute)
  moreover have "newest_first rs" using page_rows(3) [OF js(1,2)] by (simp add: rs)
  moreover have "distinct (map jid rs)"
    using page_rows(1) [OF js(1)] by (simp add: rs comp_def truncate_simps)
  moreover have "set rs \<subseteq> {job_row.truncate j |j. rows d (jid j) = Some j}"
    using page_rows(2) [OF js(1)] by (auto simp: rs)
  moreover have "\<forall>j \<in> ran (rows d). jid j \<in> jid ` set rs \<or> (\<forall>r \<in> set rs. createdAt j \<le> createdAt r)"
    if "offset = 0"
  proof
    fix j assume "j \<in> ran (rows d)"
    then have "j \<in> set js" using js(1) by (auto simp: lists_rows_def ran_def)
    then consider "j \<in> set (take limit js)" | "j \<in> set (drop limit js)"
      by (metis UnE append_take_drop_id set_append)
    then show "jid j \<in> jid ` set rs \<or> (\<forall>r \<in> set rs. createdAt j \<le> createdAt r)"
    proof cases
      case 1
      then show ?thesis using that by (force simp: rs truncate_simps)
    next
      case 2
      have "sorted_wrt (\<lambda>a b. createdAt b \<le> createdAt a) (take limit js @ drop limit js)"
        using js(2) by (simp add: newest_first_def)
      with 2 that show ?thesis by (auto simp: rs truncate_simps sorted_wrt_append simp del: append_take_drop_id)
    qed
  qed
  ultimately show ?thesis by simp
qed

theorem list_jobs_page_witness:
  "\<exists>rs. list_jobs (sample_env None Confirmed) 20 0 [sample_job] = Inr rs \<and> length rs = 1"
proof -
  have "list_jobs (sample_env None Confirmed) 20 0 [sample_job] = Inr [job_row.truncate sample_job]"
    by code_simp
  moreover have "table_inv [sample_job]" by (simp add: table_inv_def)
  moreover have "dom (table_rows [sample_job]) = {''u1''}"
    by (auto simp: table_rows_def sample_job_def insert_row_def split: if_splits)
  ultimately show ?thesis using list_jobs_page [OF sample_laws, of "[sample_job]"] by auto
qed

end
