(* ===== verification/Subtitles.thy ===== *)
theory Subtitles
  imports Job_Entity
begin

text \<open>
  Subtitle rendering (\<open>api/src/transcriptions/srt.util.ts\<close>), with a reader for the two formats
  that states what a rendered file means.
\<close>

datatype subtitle_format = Srt | Vtt

abbreviation newline :: char where "newline \<equiv> CHR 0x0A"

definition total_ms :: "f64 \<Rightarrow> int" where
  \<comment> \<open>\<open>Math.round(seconds * 1000)\<close>\<close>
  "total_ms seconds = math_round (js_mul seconds 1000)"

definition format_timestamp :: "f64 \<Rightarrow> char \<Rightarrow> string" where
  "format_timestamp seconds separator =
    (let totalMs = total_ms seconds;
         ms = js_rem totalMs 1000;
         totalSeconds = math_floor (js_div (of_int totalMs) 1000);
         s = js_rem totalSeconds 60;
         m = js_rem (math_floor (js_div (of_int totalSeconds) 60)) 60;
         h = math_floor (js_div (of_int totalSeconds) 3600)
     in pad_start 2 (CHR ''0'') (js_string_of_int h) @ '':'' @
        pad_start 2 (CHR ''0'') (js_string_of_int m) @ '':'' @
        pad_start 2 (CHR ''0'') (js_string_of_int s) @ [separator] @
        pad_start 3 (CHR ''0'') (js_string_of_int ms))"

definition to_srt :: "transcript_segment list \<Rightarrow> string" where
  "to_srt segs = js_join [newline] (map (\<lambda>(index, segment).
     js_string_of_int (int index + 1) @ [newline] @
     format_timestamp (seg_start segment) (CHR '','') @ '' --> '' @
     format_timestamp (seg_end segment) (CHR '','') @ [newline] @
     seg_text segment @ [newline]) (enumerate 0 segs))"

definition to_vtt :: "transcript_segment list \<Rightarrow> string" where
  "to_vtt segs = (let cues = js_join [newline] (map (\<lambda>(index, segment).
     js_string_of_int (int index + 1) @ [newline] @
     format_timestamp (seg_start segment) (CHR ''.'') @ '' --> '' @
     format_timestamp (seg_end segment) (CHR ''.'') @ [newline] @
     seg_text segment @ [newline]) (enumerate 0 segs))
   in ''WEBVTT'' @ [newline, newline] @ cues)"

subsection \<open>Timestamps\<close>

text \<open>
  The times for which every intermediate number is exact: up to nine trillion seconds, where
  the milliseconds still fit the 53 bits of a significand.
\<close>

definition valid_time :: "f64 \<Rightarrow> bool" where
  "valid_time t \<longleftrightarrow> 0 \<le> t \<and> t \<le> 9000000000000"

lemma total_ms_mono: "a \<le> b \<Longrightarrow> total_ms a \<le> total_ms b"
  by (simp add: total_ms_def js_mul_def math_round_mono fl_mono)

lemma total_ms_range:
  assumes "valid_time t"
  shows "0 \<le> total_ms t" and "total_ms t < 2 ^ 53"
proof -
  have "total_ms 0 \<le> total_ms t" and "total_ms t \<le> total_ms 9000000000000"
    using assms by (simp_all add: valid_time_def total_ms_mono)
  moreover have "total_ms 0 = 0" and "total_ms 9000000000000 = 9000000000000000"
    using fl_of_int [of 9000000000000000] math_round_of_int [of 9000000000000000]
      math_round_of_int [of 0]
    by (simp_all add: total_ms_def js_mul_def del: math_round_of_int)
  ultimately show "0 \<le> total_ms t" and "total_ms t < 2 ^ 53" by simp_all
qed

text \<open>The fields are the exact quotients and remainders.\<close>

lemma format_timestamp_exact:
  assumes "valid_time t"
  shows "format_timestamp t sep =
    (let n = nat (total_ms t) in
     pad_start 2 (CHR ''0'') (digits (n div 3600000)) @ '':'' @
     pad_start 2 (CHR ''0'') (digits (n div 60000 mod 60)) @ '':'' @
     pad_start 2 (CHR ''0'') (digits (n div 1000 mod 60)) @ [sep] @
     pad_start 3 (CHR ''0'') (digits (n mod 1000)))"
proof -
  obtain n where n: "total_ms t = int n"
    using total_ms_range(1) [OF assms] nonneg_int_cases by blast
  then have "n < 2 ^ 53"
    using total_ms_range(2) [OF assms] by (metis of_nat_less_numeral_power_cancel_iff)
  then have exact: "n < 2 ^ 53" "n div 1000 < 2 ^ 53" by auto
  have seconds: "math_floor (js_div (of_int (int n)) 1000) = int (n div 1000)"
    by (rule math_floor_div_nat [OF exact(1)]) simp
  have minutes: "math_floor (js_div (of_int (int (n div 1000))) 60) = int (n div 1000 div 60)"
    by (rule math_floor_div_nat [OF exact(2)]) simp
  have hours: "math_floor (js_div (of_int (int (n div 1000))) 3600) = int (n div 1000 div 3600)"
    by (rule math_floor_div_nat [OF exact(2)]) simp
  have nested: "n div 1000 div 60 = n div 60000" "n div 1000 div 3600 = n div 3600000"
    by (simp_all add: div_mult2_eq [symmetric])
  show ?thesis
    by (simp only: format_timestamp_def Let_def n seconds minutes hours nested js_rem_nat
        js_string_of_nat nat_int)
qed

subsection \<open>A reader\<close>

definition parse_timestamp :: "char \<Rightarrow> string \<Rightarrow> nat option" where
  "parse_timestamp sep t =
    (let (h, r) = split_at_char (CHR '':'') t; (m, r') = split_at_char (CHR '':'') r;
         (s, ms) = split_at_char sep r'
     in case (parse_decimal h, parse_decimal m, parse_decimal s, parse_decimal ms) of
          (Some h, Some m, Some s, Some ms) \<Rightarrow> Some (((h * 60 + m) * 60 + s) * 1000 + ms)
        | _ \<Rightarrow> None)"

lemma not_in_digits:
  "list_all is_digit s \<Longrightarrow> \<not> is_digit c \<Longrightarrow> c \<notin> set s"
  by (auto simp: list_all_iff)

lemma separators_not_digits [simp]:
  "\<not> is_digit (CHR '':'')" "\<not> is_digit (CHR '','')" "\<not> is_digit (CHR ''.'')"
  "\<not> is_digit newline" "\<not> is_digit (CHR '' '')"
  by (simp_all add: is_digit_def)

lemmas digits_free [simp] =
  not_in_digits [OF pad_start_digits] not_in_digits [OF digits_are_digits]

lemma clock_recompose:
  "((n div 3600000 * 60 + n div 60000 mod 60) * 60 + n div 1000 mod 60) * 1000 + n mod 1000 = (n::nat)"
proof -
  have "n div 3600000 * 60 + n div 60000 mod 60 = n div 60000"
    using div_mult_mod_eq [of "n div 60000" 60] by (simp add: div_mult2_eq [symmetric])
  moreover have "n div 60000 * 60 + n div 1000 mod 60 = n div 1000"
    using div_mult_mod_eq [of "n div 1000" 60] by (simp add: div_mult2_eq [symmetric])
  moreover have "n div 1000 * 1000 + n mod 1000 = n" by (rule div_mult_mod_eq)
  ultimately show ?thesis by (simp only:)
qed

lemma parse_format_timestamp:
  assumes "valid_time t" and "\<not> is_digit sep"
  shows "parse_timestamp sep (format_timestamp t sep) = Some (nat (total_ms t))"
  using assms(2) clock_recompose [of "nat (total_ms t)"]
  unfolding format_timestamp_exact [OF assms(1)]
  by (simp add: parse_timestamp_def Let_def split_at_char_hit)

record cue =
  cue_number :: nat
  cue_start :: nat
  cue_end :: nat
  cue_text :: string

definition read_arrow :: "char \<Rightarrow> string \<Rightarrow> (nat \<times> nat) option" where
  \<comment> \<open>the line \<open>start --> end\<close>\<close>
  "read_arrow sep l =
    (let (a, r) = split_at_char (CHR '' '') l
     in if take 4 r = ''--> '' then
          (case (parse_timestamp sep a, parse_timestamp sep (drop 4 r)) of
             (Some x, Some y) \<Rightarrow> Some (x, y) | _ \<Rightarrow> None)
        else None)"

function read_cues :: "char \<Rightarrow> string \<Rightarrow> cue list option" where
  \<comment> \<open>a number line, a time line, one line of text, a blank line between cues\<close>
  "read_cues sep f = (if f = [] then Some [] else
    (let (number, r) = split_at_char newline f; (tline, r') = split_at_char newline r;
         (txt, rest) = split_at_char newline r'
     in case (parse_decimal number, read_arrow sep tline, read_cues sep (drop 1 rest)) of
          (Some n, Some (a, b), Some cs) \<Rightarrow>
            Some (\<lparr>cue_number = n, cue_start = a, cue_end = b, cue_text = txt\<rparr> # cs)
        | _ \<Rightarrow> None))"
  by pat_completeness auto
termination
proof (relation "measure (length \<circ> snd)", goal_cases)
  case (2 sep f x number r y tline r' z body rest)
  then have "length r < length f" using split_at_char_length by metis
  moreover have "length r' \<le> length r" and "length rest \<le> length r'"
    using 2 split_at_char_length_le by metis+
  ultimately show ?case by simp
qed simp

declare read_cues.simps [simp del]

definition read_vtt :: "string \<Rightarrow> cue list option" where
  "read_vtt f = (if take 8 f = ''WEBVTT'' @ [newline, newline] then read_cues (CHR ''.'') (drop 8 f)
     else None)"

definition cue_of :: "nat \<Rightarrow> transcript_segment \<Rightarrow> cue" where
  "cue_of i s = \<lparr>cue_number = i + 1, cue_start = nat (total_ms (seg_start s)),
     cue_end = nat (total_ms (seg_end s)), cue_text = seg_text s\<rparr>"

definition renderable :: "transcript_segment \<Rightarrow> bool" where
  "renderable s \<longleftrightarrow> valid_time (seg_start s) \<and> valid_time (seg_end s) \<and> newline \<notin> set (seg_text s)"

subsection \<open>One block, then the file\<close>

definition block :: "char \<Rightarrow> nat \<Rightarrow> transcript_segment \<Rightarrow> string" where
  \<comment> \<open>the block both renderers build, by separator\<close>
  "block sep index segment =
     js_string_of_int (int index + 1) @ [newline] @
     format_timestamp (seg_start segment) sep @ '' --> '' @
     format_timestamp (seg_end segment) sep @ [newline] @
     seg_text segment @ [newline]"

lemma to_srt_blocks: "to_srt segs = js_join [newline] (map (case_prod (block (CHR '',''))) (enumerate 0 segs))"
  by (simp add: to_srt_def block_def [abs_def])

lemma to_vtt_blocks: "to_vtt segs = ''WEBVTT'' @ [newline, newline] @
    js_join [newline] (map (case_prod (block (CHR ''.''))) (enumerate 0 segs))"
  by (simp add: to_vtt_def block_def [abs_def])

lemma timestamp_chars:
  assumes "valid_time t" and "c \<notin> {CHR '':'', sep}" and "\<not> is_digit c"
  shows "c \<notin> set (format_timestamp t sep)"
  using assms(2,3) unfolding format_timestamp_exact [OF assms(1)] by (simp add: Let_def)

lemma read_arrow_block:
  assumes "valid_time a" and "valid_time b" and "\<not> is_digit sep" and "sep \<noteq> CHR '' ''"
  shows "read_arrow sep (format_timestamp a sep @ '' --> '' @ format_timestamp b sep)
    = Some (nat (total_ms a), nat (total_ms b))"
  using assms timestamp_chars [of a "CHR '' ''" sep]
  by (simp add: read_arrow_def split_at_char_hit parse_format_timestamp)

lemma read_cues_step:
  assumes "newline \<notin> set tline" and "newline \<notin> set body" and "read_arrow sep tline = Some (a, b)"
  shows "read_cues sep (digits n @ newline # tline @ newline # body @ newline # rest)
    = map_option ((#) \<lparr>cue_number = n, cue_start = a, cue_end = b, cue_text = body\<rparr>)
        (read_cues sep (drop 1 rest))"
  using assms by (subst read_cues.simps) (simp add: split_at_char_hit map_option_case)

lemma read_cues_block:
  assumes s: "renderable s" and sep: "\<not> is_digit sep" "sep \<noteq> CHR '' ''" "sep \<noteq> newline"
  shows "read_cues sep (block sep i s @ rest) = map_option ((#) (cue_of i s)) (read_cues sep (drop 1 rest))"
proof -
  let ?tline = "format_timestamp (seg_start s) sep @ '' --> '' @ format_timestamp (seg_end s) sep"
  have v: "valid_time (seg_start s)" "valid_time (seg_end s)" "newline \<notin> set (seg_text s)"
    using s by (simp_all add: renderable_def)
  have num: "js_string_of_int (int i + 1) = digits (i + 1)"
    using js_string_of_nat [of "i + 1"] by (simp add: add.commute)
  have f: "block sep i s @ rest =
      digits (i + 1) @ newline # ?tline @ newline # seg_text s @ newline # rest"
    unfolding block_def num by simp
  have "newline \<notin> set ?tline" using v sep timestamp_chars [of _ newline sep] by simp
  then show ?thesis
    unfolding f cue_of_def by (rule read_cues_step) (simp_all only: v read_arrow_block sep not_False_eq_True)
qed

lemma block_nonempty [simp]: "block sep i s \<noteq> []"
  by (simp add: block_def)

lemma read_cues_blocks:
  assumes sep: "\<not> is_digit sep" "sep \<noteq> CHR '' ''" "sep \<noteq> newline"
    and "\<forall>s \<in> set segs. renderable s"
  shows "read_cues sep (js_join [newline] (map (case_prod (block sep)) (enumerate n segs)))
    = Some (map (case_prod cue_of) (enumerate n segs))"
  using assms(4)
proof (induction segs arbitrary: n)
  case Nil
  show ?case by (simp add: read_cues.simps)
next
  case (Cons s segs)
  let ?rest = "js_join [newline] (map (case_prod (block sep)) (enumerate (Suc n) segs))"
  have IH: "read_cues sep ?rest = Some (map (case_prod cue_of) (enumerate (Suc n) segs))"
    using Cons by simp
  show ?case
  proof (cases "segs = []")
    case True
    then show ?thesis using read_cues_block [OF _ sep, of s n "[]"] Cons.prems IH by simp
  next
    case False
    then show ?thesis
      using read_cues_block [OF _ sep, of s n "newline # ?rest"] Cons.prems IH
      by (cases segs) (simp_all add: js_join_Cons)
  qed
qed

lemma total_ms_small:
  assumes "0 \<le> t" and "1000 * t \<le> 1/4"
  shows "total_ms t = 0"
proof -
  have "fl (1/4) = 1/4" by code_simp
  then have "js_mul t 1000 \<le> 1/4" and "0 \<le> js_mul t 1000"
    using assms fl_mono [of "t * 1000" "1/4"] fl_nonneg [of "t * 1000"]
    by (simp_all add: js_mul_def mult.commute)
  then show ?thesis unfolding total_ms_def math_round_def by linarith
qed

lemma total_ms_accurate:
  assumes "valid_time t"
  shows "\<bar>of_int (total_ms t) - 1000 * t\<bar> \<le> 1/2 + 1000 * t / 2 ^ 53"
proof (cases "1000 * t \<le> 1/4")
  case True
  then show ?thesis using assms total_ms_small [of t] by (simp add: valid_time_def)
next
  case False
  have "(2::rat) powi (-1022) \<le> 2 powi (-2)" by (rule power_int_increasing) simp_all
  also have "\<dots> = 1/4" by (simp add: power_int_minus)
  also have "\<dots> \<le> \<bar>t * 1000\<bar>" using False by linarith
  finally have "\<bar>js_mul t 1000 - t * 1000\<bar> \<le> \<bar>t * 1000\<bar> / 2 ^ 53"
    unfolding js_mul_def by (rule binary64.rnd_error)
  also have "\<bar>t * 1000\<bar> = 1000 * t" using assms by (simp add: valid_time_def)
  finally have "\<bar>js_mul t 1000 - 1000 * t\<bar> \<le> 1000 * t / 2 ^ 53" by (simp only: mult.commute)
  moreover have "\<bar>of_int (total_ms t) - js_mul t 1000\<bar> \<le> 1/2"
    unfolding total_ms_def by (rule math_round_error)
  ultimately show ?thesis by linarith
qed

lemma length_padded: "d < 10 ^ k \<Longrightarrow> 0 < k \<Longrightarrow> length (pad_start k c (digits d)) = k"
  using length_digits_le [of d k] by (simp add: length_pad_start max_def)

lemma clock_length:
  assumes "h < 100" and "m < 60" and "s < 60" and "ms < 1000"
  shows "length (pad_start 2 c (digits h) @ '':'' @ pad_start 2 c (digits m) @ '':'' @
    pad_start 2 c (digits s) @ [sep] @ pad_start 3 c (digits ms)) = 12"
  using assms length_padded [of h 2] length_padded [of m 2] length_padded [of s 2]
    length_padded [of ms 3] by simp

subsection \<open>Properties\<close>

text \<open>
  C21. A timestamp reads back, with either separator, as the number of milliseconds that
  \<open>Math.round(seconds * 1000)\<close> gives, and that number is within half a millisecond of the time
  but for the rounding error of one binary64 product: no field is lost, carried wrongly or
  truncated, although every step is done in floating point.
\<close>

theorem timestamp_roundtrip:
  assumes "valid_time t" and "sep \<in> {CHR '','', CHR ''.''}"
  shows "\<exists>ms. parse_timestamp sep (format_timestamp t sep) = Some ms \<and>
    \<bar>of_nat ms - 1000 * t\<bar> \<le> 1/2 + 1000 * t / 2 ^ 53"
proof -
  have "parse_timestamp sep (format_timestamp t sep) = Some (nat (total_ms t))"
    using assms by (intro parse_format_timestamp) auto
  moreover have "(of_nat (nat (total_ms t)) :: rat) = of_int (total_ms t)"
    using total_ms_range(1) [OF assms(1)] by simp
  ultimately show ?thesis using total_ms_accurate [OF assms(1)] by simp
qed

theorem timestamp_roundtrip_witness:
  "valid_time (fl (36615/10)) \<and> format_timestamp (fl (36615/10)) (CHR '','') = ''01:01:01,500'' \<and>
   (\<exists>ms. parse_timestamp (CHR '','') (format_timestamp (fl (36615/10)) (CHR '','')) = Some ms \<and>
     \<bar>of_nat ms - 1000 * fl (36615/10)\<bar> \<le> 1/2 + 1000 * fl (36615/10) / 2 ^ 53)"
proof -
  have v: "valid_time (fl (36615/10))" by code_simp
  have "format_timestamp (fl (36615/10)) (CHR '','') = ''01:01:01,500''" by code_simp
  with v show ?thesis using timestamp_roundtrip [OF v, of "CHR '',''"] by simp
qed

text \<open>
  Below a hundred hours a timestamp is exactly twelve characters: two digits, a colon, two
  digits, a colon, two digits, the separator, three digits, with minutes and seconds below 60.
\<close>

theorem timestamp_shape:
  assumes "0 \<le> t" and "t \<le> 359999"
  shows "\<exists>h m s ms. h < 100 \<and> m < 60 \<and> s < 60 \<and> ms < 1000 \<and>
    format_timestamp t sep = pad_start 2 (CHR ''0'') (digits h) @ '':'' @
      pad_start 2 (CHR ''0'') (digits m) @ '':'' @ pad_start 2 (CHR ''0'') (digits s) @ [sep] @
      pad_start 3 (CHR ''0'') (digits ms) \<and> length (format_timestamp t sep) = 12"
proof -
  let ?n = "nat (total_ms t)"
  have v: "valid_time t" using assms by (simp add: valid_time_def)
  have "total_ms t \<le> total_ms 359999" using assms by (rule_tac total_ms_mono) simp
  also have "total_ms 359999 = 359999000" by code_simp
  finally have h: "?n div 3600000 < 100" by (simp add: less_mult_imp_div_less)
  show ?thesis
  proof (intro exI conjI)
    show "?n div 3600000 < 100" by (rule h)
    show fmt: "format_timestamp t sep = pad_start 2 (CHR ''0'') (digits (?n div 3600000)) @ '':'' @
      pad_start 2 (CHR ''0'') (digits (?n div 60000 mod 60)) @ '':'' @
      pad_start 2 (CHR ''0'') (digits (?n div 1000 mod 60)) @ [sep] @
      pad_start 3 (CHR ''0'') (digits (?n mod 1000))"
      by (simp only: format_timestamp_exact [OF v] Let_def)
    show "length (format_timestamp t sep) = 12"
      unfolding fmt by (rule clock_length [OF h]) simp_all
  qed simp_all
qed

theorem timestamp_shape_witness:
  "length (format_timestamp 60 (CHR ''.'')) = 12 \<and> format_timestamp 60 (CHR ''.'') = ''00:01:00.000''"
proof -
  have "format_timestamp 60 (CHR ''.'') = ''00:01:00.000''" by code_simp
  then show ?thesis using timestamp_shape [of 60 "CHR ''.''"] by auto
qed

text \<open>
  C20. An SRT file reads back as its segments: one cue per segment, numbered from 1 in order,
  with the two times in milliseconds and the text unchanged, for segments whose text has no
  line break.
\<close>

theorem srt_roundtrip:
  assumes "\<forall>s \<in> set segs. renderable s"
  shows "read_cues (CHR '','') (to_srt segs) = Some (map (case_prod cue_of) (enumerate 0 segs))"
  unfolding to_srt_blocks using assms by (intro read_cues_blocks) auto

theorem srt_roundtrip_witness:
  "read_cues (CHR '','') (to_srt [\<lparr>seg_id = 0, seg_start = 0, seg_end = fl (49/10), seg_text = ''Hi''\<rparr>])
   = Some [\<lparr>cue_number = 1, cue_start = 0, cue_end = 4900, cue_text = ''Hi''\<rparr>]"
proof -
  let ?s = "\<lparr>seg_id = 0, seg_start = 0, seg_end = fl (49/10), seg_text = ''Hi''\<rparr>"
  have "renderable ?s" by code_simp
  moreover have "cue_of 0 ?s = \<lparr>cue_number = 1, cue_start = 0, cue_end = 4900, cue_text = ''Hi''\<rparr>"
    by code_simp
  ultimately show ?thesis using srt_roundtrip [of "[?s]"] by simp
qed

text \<open>
  The two export formats agree: a VTT file is the WEBVTT header followed by cues that read
  as exactly the cues of the SRT file of the same segments.
\<close>

theorem vtt_srt_agree:
  assumes "\<forall>s \<in> set segs. renderable s"
  shows "read_vtt (to_vtt segs) = read_cues (CHR '','') (to_srt segs) \<and> read_vtt (to_vtt segs) \<noteq> None"
  using assms read_cues_blocks [of "CHR ''.''" segs 0] read_cues_blocks [of "CHR '',''" segs 0]
  by (simp add: read_vtt_def to_vtt_blocks to_srt_blocks)

theorem vtt_srt_agree_witness:
  "read_vtt (to_vtt [\<lparr>seg_id = 0, seg_start = 0, seg_end = 60, seg_text = ''Hi''\<rparr>])
   = read_cues (CHR '','') (to_srt [\<lparr>seg_id = 0, seg_start = 0, seg_end = 60, seg_text = ''Hi''\<rparr>])"
proof -
  have "renderable \<lparr>seg_id = 0, seg_start = 0, seg_end = 60, seg_text = ''Hi''\<rparr>" by code_simp
  then show ?thesis
    using vtt_srt_agree [of "[\<lparr>seg_id = 0, seg_start = 0, seg_end = 60, seg_text = ''Hi''\<rparr>]"] by simp
qed

end
