(* ===== verification/Transcriptions_Controller.thy ===== *)
theory Transcriptions_Controller
  imports Transcriptions_Service Subtitles
begin

text \<open>
  The routes of the API (\<open>api/src/transcriptions/transcriptions.controller.ts\<close>) with the query
  objects of \<open>api/src/transcriptions/dto/\<close>. A handler gets the file, id and query the framework's
  interceptor and pipes have let through (multer, \<open>ParseUUIDPipe\<close>, \<open>ValidationPipe\<close>: not part of
  the repository); what the decorators of the query objects demand is a predicate here, a
  hypothesis where a property needs it.
\<close>

subsection \<open>Query objects\<close>

record list_query =
  q_limit :: int
  q_offset :: int

definition default_list_query :: list_query where
  "default_list_query = \<lparr>q_limit = 20, q_offset = 0\<rparr>"

definition list_query_ok :: "list_query \<Rightarrow> bool" where
  \<comment> \<open>\<open>@IsInt @Min(1) @Max(100) limit\<close>, \<open>@IsInt @Min(0) offset\<close>\<close>
  "list_query_ok q \<longleftrightarrow> 1 \<le> q_limit q \<and> q_limit q \<le> 100 \<and> 0 \<le> q_offset q"

definition default_format :: subtitle_format where
  "default_format = Srt"

fun format_text :: "subtitle_format \<Rightarrow> string" where
  "format_text Srt = ''srt''"
| "format_text Vtt = ''vtt''"

subsection \<open>Handlers\<close>

definition create_handler :: "'db service_env \<Rightarrow> multer_file option \<Rightarrow>
    ('db api_state, nat \<times> created_job_dto) io" where
  \<comment> \<open>the status set on the response and the body\<close>
  "create_handler env file = (case file of
     None \<Rightarrow> io_throw (BadRequestException ''Multipart field \"file\" is required'')
   | Some f \<Rightarrow> io_await (create env f) (\<lambda>r.
       io_return (if deduplicated r then 200 else 202,
         \<lparr>dto_id = jid (result_job r), dto_status = status (result_job r)\<rparr>)))"

definition get_handler :: "'db service_env \<Rightarrow> string \<Rightarrow> 'db \<Rightarrow> (exn, job_detail_dto) result" where
  "get_handler env i d = bind_result (find_by_id env i d) (\<lambda>j. Inr (to_job_detail j))"

record export_response =
  content_type :: string
  content_disposition :: string
  export_body :: string

definition export_handler :: "'db service_env \<Rightarrow> string \<Rightarrow> subtitle_format \<Rightarrow> 'db \<Rightarrow>
    (exn, export_response) result" where
  "export_handler env i fmt d = bind_result (find_by_id env i d) (\<lambda>j.
     case (status j = Completed, job_transcript j) of
       (True, Some t) \<Rightarrow> Inr \<lparr>
         content_type = (if fmt = Vtt then ''text/vtt; charset=utf-8''
           else ''application/x-subrip; charset=utf-8''),
         content_disposition = ''attachment; filename=\"'' @ jid j @ ''.'' @ format_text fmt @ ''\"'',
         export_body = (if fmt = Vtt then to_vtt (segments t) else to_srt (segments t))\<rparr>
     | _ \<Rightarrow> Inl (ConflictException
         (''Job is '' @ status_text (status j) @ ''; export requires a completed transcription'')))"

definition list_handler :: "'db service_env \<Rightarrow> list_query \<Rightarrow> 'db \<Rightarrow> (exn, job_summary_dto list) result" where
  "list_handler env q d = bind_result (list_jobs env (nat (q_limit q)) (nat (q_offset q)) d)
     (\<lambda>js. Inr (map to_job_summary js))"

subsection \<open>Properties\<close>

text \<open>
  The response to an upload tells the client what happened. Without a file it is 400 and
  nothing changes. 202 means a new row, in the table as queued under the returned id, and one new
  message; 200 means the returned id is that of a completed job and neither the table nor the
  queue changed. No other status is set on a response.
\<close>

theorem create_response:
  assumes laws: "job_repository (repo env) rows ok" and ok: "ok (db s)"
    and fresh: "rows (db s) (randomUUID env) = None"
    and run: "create_handler env file s = (r, s')"
  shows "case r of
      Inl e \<Rightarrow> (if file = None then status_code e = 400 \<and> s' = s else True)
    | Inr (code, dto) \<Rightarrow> file \<noteq> None \<and>
       (if code = 202 then dto = \<lparr>dto_id = randomUUID env, dto_status = Queued\<rparr> \<and>
          (\<exists>j. rows (db s') = (rows (db s))(randomUUID env \<mapsto> j) \<and> status j = Queued) \<and>
          length (taken s') = length (taken s) + 1
        else code = 200 \<and> dto_status dto = Completed \<and> db s' = db s \<and> taken s' = taken s \<and>
          (\<exists>j. rows (db s) (dto_id dto) = Some j \<and> status j = Completed))"
proof (cases "file")
  case None
  then show ?thesis using run by (auto simp: create_handler_def io_throw_def)
next
  case (Some f)
  from laws have S: "service env rows ok" by (simp add: service_def)
  obtain v t where c: "create env f s = (v, t)" by fastforce
  show ?thesis
  proof (cases v)
    case (Inl e)
    then show ?thesis using run Some c by (auto simp: create_handler_def io_defs)
  next
    case (Inr res)
    then have r: "s' = t" "r = Inr (if deduplicated res then 200 else 202,
         \<lparr>dto_id = jid (result_job res), dto_status = status (result_job res)\<rparr>)"
      using run Some c by (auto simp: create_handler_def io_defs)
    show ?thesis
    proof (cases "deduplicated res")
      case False
      from service.accepted [OF S ok fresh c [unfolded Inr] False] obtain u now j where
        "j = insert_row (new_row env f (digest_hex env u)) now" "result_job res = j"
        "rows (db t) = (rows (db s))(randomUUID env \<mapsto> j)"
        "taken t = taken s @ [job_out (randomUUID env) (job_file env f)]" .
      moreover from this(1) have "status j = Queued" "jid j = randomUUID env"
        by (simp_all add: insert_row_def new_row_simps)
      ultimately show ?thesis using r False Some by (simp del: fun_upd_apply) blast
    next
      case True
      from c have "db t = db s \<and> taken t = taken s \<and>
          rows (db s) (jid (result_job res)) = Some (result_job res) \<and> status (result_job res) = Completed"
      proof (cases rule: create_cases)
        case (duplicate hash j)
        then show ?thesis
          using service.completed_found [OF S ok duplicate(1)] duplicate(2,3) Inr by (auto simp: do_remove_def)
      qed (use True Inr in \<open>auto split: sum.splits\<close>)
      then show ?thesis using r True Some Inr by simp
    qed
  qed
qed

theorem create_response_witness:
  "\<exists>s'. create_handler (sample_env (Some 0) Confirmed) (Some sample_file) (sample_state []) =
      (Inr (202, \<lparr>dto_id = ''u1'', dto_status = Queued\<rparr>), s') \<and> length (taken s') = 1"
proof -
  obtain r s' where run: "create_handler (sample_env (Some 0) Confirmed) (Some sample_file)
      (sample_state []) = (r, s')" by fastforce
  have "fst (create_handler (sample_env (Some 0) Confirmed) (Some sample_file) (sample_state [])) =
      Inr (202, \<lparr>dto_id = ''u1'', dto_status = Queued\<rparr>)" by code_simp
  then have "r = Inr (202, \<lparr>dto_id = ''u1'', dto_status = Queued\<rparr>)" using run by simp
  then show ?thesis
    using create_response [OF sample_laws sample_upload(1) sample_upload(2) run] run
    by (auto simp: sample_state_simps)
qed

text \<open>
  C24. What an export returns, for every id whose lookup answers: 404 without a row, 409 for a job
  that is not completed or has no transcript, and otherwise a file named by the job and the
  format whose body a subtitle reader reads as the cues of the stored transcript: one per
  segment, numbered from 1, with their times and texts.
\<close>

theorem export_response_readable:
  assumes laws: "job_repository (repo env) rows ok" and ok: "ok d"
    and answers: "repo_findOne (repo env) \<lparr>w_id = Some i, w_contentHash = None, w_status = None\<rparr> d = Inr found"
    and texts: "\<forall>j t. rows d i = Some j \<longrightarrow> job_transcript j = Some t \<longrightarrow> (\<forall>s \<in> set (segments t). renderable s)"
  shows "case rows d i of
      None \<Rightarrow> \<exists>e. export_handler env i fmt d = Inl e \<and> status_code e = 404
    | Some j \<Rightarrow> (case job_transcript j of
        Some t \<Rightarrow> if status j = Completed then \<exists>r. export_handler env i fmt d = Inr r \<and>
            content_disposition r = ''attachment; filename=\"'' @ i @ ''.'' @ format_text fmt @ ''\"'' \<and>
            (case fmt of Vtt \<Rightarrow> read_vtt (export_body r) | Srt \<Rightarrow> read_cues (CHR '','') (export_body r))
              = Some (map (case_prod cue_of) (enumerate 0 (segments t)))
          else \<exists>e. export_handler env i fmt d = Inl e \<and> status_code e = 409
      | None \<Rightarrow> \<exists>e. export_handler env i fmt d = Inl e \<and> status_code e = 409)"
proof -
  have find: "find_by_id env i d = (case rows d i of
      None \<Rightarrow> Inl (NotFoundException (''No transcription job with id '' @ i)) | Some j \<Rightarrow> Inr j)"
    using job_repository.findOne_by_id [OF laws ok answers] answers
    by (simp add: find_by_id_def bind_result_def)
  show ?thesis
  proof (cases "rows d i")
    case None
    then show ?thesis using find by (simp add: export_handler_def)
  next
    case (Some j)
    have jid: "jid j = i" by (rule job_repository.rows_jid [OF laws ok Some])
    show ?thesis
    proof (cases "job_transcript j")
      case None
      then show ?thesis using find Some by (simp add: export_handler_def split: bool.split)
    next
      case (Some t)
      have "\<forall>s \<in> set (segments t). renderable s" using texts \<open>rows d i = Some j\<close> Some by blast
      then have read: "read_vtt (to_vtt (segments t)) = Some (map (case_prod cue_of) (enumerate 0 (segments t)))"
        "read_cues (CHR '','') (to_srt (segments t)) = Some (map (case_prod cue_of) (enumerate 0 (segments t)))"
        using read_cues_blocks [of "CHR ''.''" "segments t" 0] read_cues_blocks [of "CHR '',''" "segments t" 0]
        by (simp_all add: read_vtt_def to_vtt_blocks to_srt_blocks)
      show ?thesis using find \<open>rows d i = Some j\<close> Some jid read
        by (cases fmt; cases "status j = Completed") (simp_all add: export_handler_def)
    qed
  qed
qed

definition sample_transcript :: transcript where
  "sample_transcript = \<lparr>text_of = ''Hi'', transcript_language = ''en'', transcript_duration = 60,
     segments = [\<lparr>seg_id = 0, seg_start = 0, seg_end = 60, seg_text = ''Hi''\<rparr>]\<rparr>"

definition sample_done :: job where
  "sample_done = sample_job\<lparr>status := Completed, job_transcript := Some sample_transcript\<rparr>"

theorem export_response_readable_witness:
  "\<exists>r. export_handler (sample_env None Confirmed) ''u1'' Vtt [sample_done] = Inr r \<and>
    content_disposition r = ''attachment; filename=\"u1.vtt\"'' \<and>
    read_vtt (export_body r) = Some [\<lparr>cue_number = 1, cue_start = 0, cue_end = 60000, cue_text = ''Hi''\<rparr>]"
proof -
  let ?e = "sample_env None Confirmed" and ?t = sample_transcript
  have ok: "table_inv [sample_done]" by (simp add: table_inv_def)
  have find: "repo_findOne (repo ?e) \<lparr>w_id = Some ''u1'', w_contentHash = None, w_status = None\<rparr> [sample_done]
    = Inr (Some sample_done)" by code_simp
  have row: "table_rows [sample_done] ''u1'' = Some sample_done" by code_simp
  have t: "job_transcript sample_done = Some ?t" "status sample_done = Completed"
    by (simp_all add: sample_done_def)
  have "\<forall>s \<in> set (segments ?t). renderable s" by code_simp
  then have texts: "\<forall>j t. table_rows [sample_done] ''u1'' = Some j \<longrightarrow> job_transcript j = Some t \<longrightarrow>
      (\<forall>s \<in> set (segments t). renderable s)" using row t(1) by simp
  have "total_ms 60 = 60000" and "total_ms 0 = 0" by code_simp+
  then have cues: "map (case_prod cue_of) (enumerate 0 (segments ?t)) =
      [\<lparr>cue_number = 1, cue_start = 0, cue_end = 60000, cue_text = ''Hi''\<rparr>]"
    by (simp add: sample_transcript_def cue_of_def)
  have name: "''attachment; filename=\"'' @ ''u1'' @ ''.'' @ format_text Vtt @ ''\"'' =
      ''attachment; filename=\"u1.vtt\"''" by simp
  from export_response_readable [OF sample_laws ok find texts, of Vtt]
  show ?thesis
    unfolding row option.case t(1) if_P [OF t(2)] subtitle_format.case cues name .
qed

text \<open>
  A list response is bounded and complete as far as the query allows: for a query the
  decorators accept it has at most 100 entries, and exactly as many as the table has from the
  offset on up to the limit; the entries have distinct ids, are newest first, and each is the
  summary of the row of its id.
\<close>

theorem list_response:
  assumes laws: "job_repository (repo env) rows ok" and ok: "ok d"
    and query: "list_query_ok q" and resp: "list_handler env q d = Inr dtos"
  shows "length dtos \<le> 100 \<and>
    int (length dtos) = min (q_limit q) (max 0 (int (card (dom (rows d))) - q_offset q)) \<and>
    distinct (map dto_id dtos) \<and>
    sorted_wrt (\<lambda>a b. dto_createdAt b \<le> dto_createdAt a) dtos \<and>
    set dtos \<subseteq> {to_job_summary j |j. rows d (jid j) = Some j}"
proof -
  obtain rs where rs: "list_jobs env (nat (q_limit q)) (nat (q_offset q)) d = Inr rs"
    and dtos: "dtos = map to_job_summary rs"
    using resp by (auto simp: list_handler_def bind_result_def split: sum.splits)
  obtain js where js: "lists_rows (rows d) js" "newest_first js"
    and page: "rs = map job_row.truncate (take (nat (q_limit q)) (drop (nat (q_offset q)) js))"
    using job_repository.find_page [OF laws ok rs [unfolded list_jobs_def]] by auto
  note len = lists_rows_dom(2) [OF js(1)] and rows = page_rows [OF js(1)]
  have "length dtos = min (nat (q_limit q)) (card (dom (rows d)) - nat (q_offset q))"
    using len by (simp add: dtos page min.commute)
  moreover have "distinct (map dto_id dtos)"
    using rows(1) by (simp add: dtos page comp_def truncate_simps)
  moreover have "sorted_wrt (\<lambda>a b. dto_createdAt b \<le> dto_createdAt a) dtos"
    using rows(3) [OF js(2)] by (simp add: dtos page newest_first_def sorted_wrt_map to_job_summary_def truncate_simps)
  moreover have "set dtos \<subseteq> {to_job_summary j |j. rows d (jid j) = Some j}"
    using rows(2) by (auto simp: dtos page)
  moreover have "int (min (nat l) (n - nat k)) = min l (max 0 (int n - k))" if "1 \<le> l" "0 \<le> k"
    for l k :: int and n :: nat
    using that by linarith
  ultimately show ?thesis using query by (auto simp: list_query_ok_def)
qed

theorem list_response_witness:
  "list_query_ok default_list_query \<and>
   (\<exists>dtos. list_handler (sample_env None Confirmed) default_list_query [sample_done] = Inr dtos \<and>
     length dtos = 1)"
proof -
  have "list_handler (sample_env None Confirmed) default_list_query [sample_done] =
      Inr [to_job_summary sample_done]" by code_simp
  moreover have "list_query_ok default_list_query" by (simp add: list_query_ok_def default_list_query_def)
  moreover have "table_inv [sample_done]" by (simp add: table_inv_def)
  ultimately show ?thesis
    using list_response [OF sample_laws, of "[sample_done]" default_list_query] by auto
qed

end
