(* ===== verification/Health.thy ===== *)
theory Health
  imports Publisher
begin

text \<open>
  The health probe (\<open>api/src/health/health.controller.ts\<close>). The answer of the database to
  \<open>SELECT 1\<close> is an argument; the publisher's state is that of \<open>Publisher\<close>.
\<close>

definition health_check :: "(exn, unit) result \<Rightarrow> 'a publisher_scheme \<Rightarrow> (exn, string) result" where
  \<comment> \<open>the status field of the answer\<close>
  "health_check select1 p = (let
     database = (case select1 of Inr _ \<Rightarrow> ''up'' | Inl _ \<Rightarrow> ''down'');
     broker = (if is_connected p then ''up'' else ''down'')
   in if database \<noteq> ''up'' \<or> broker \<noteq> ''up''
      then Inl (ServiceUnavailableException (json_object [(''status'', json_string ''error''),
        (''database'', json_string database), (''broker'', json_string broker)]))
      else Inr ''ok'')"

lemma health_check_ok: "health_check r p = Inr ''ok'' \<longleftrightarrow> (\<exists>u. r = Inr u) \<and> is_connected p"
  by (cases r) (simp_all add: health_check_def Let_def)

lemma health_check_cases:
  "health_check r p = Inr ''ok'' \<or> (\<exists>b. health_check r p = Inl (ServiceUnavailableException b))"
  by (simp add: health_check_def Let_def)

text \<open>
  C33. What the probe promises. In every reachable state of the publisher the answer is 200
  exactly when the database answered and a channel is held, and 503 otherwise; when it is 200,
  that channel's connection is open, so that a publish made in this state reaches the broker: it
  succeeds if the broker confirms, and never fails for lack of a channel.
\<close>

theorem healthy_can_publish:
  assumes reach: "pub_reach w"
  shows "case health_check select1 w of
      Inr st \<Rightarrow> st = ''ok'' \<and> (\<exists>u. select1 = Inr u) \<and>
        (\<exists>c. channel w = Some c \<and> connection w = Some c \<and> c \<in> set (open_conns w)) \<and>
        (\<forall>m q. outcome m = Confirmed \<longrightarrow> fst (publish_job outcome w m q) = Inr ())
    | Inl e \<Rightarrow> status_code e = 503 \<and> ((\<exists>e. select1 = Inl e) \<or> channel w = None)"
proof (cases "health_check select1 w = Inr ''ok''")
  case True
  then obtain u c where "select1 = Inr u" and c: "channel w = Some c"
    by (auto simp: health_check_ok is_connected_def)
  moreover have "connection w = Some c \<and> c \<in> set (open_conns w)"
    using pub_reach_invariants [OF reach] c by (auto simp: channel_open_def)
  ultimately show ?thesis using True by (auto simp: publish_job_def Let_def)
next
  case False
  then obtain b where "health_check select1 w = Inl (ServiceUnavailableException b)"
    using health_check_cases by blast
  then show ?thesis using False health_check_ok [of select1 w]
    by (cases select1) (auto simp: is_connected_def)
qed

theorem healthy_can_publish_witness:
  "\<exists>w. pub_reach w \<and> health_check (Inr ()) w = Inr ''ok'' \<and> connection w = Some 0"
proof -
  let ?es = "[Task 0 DialOk, Task 0 ChannelOk, Task 0 AssertOk]"
  let ?w = "\<lparr>connection = Some 0, channel = Some 0, shuttingDown = False, open_conns = [0],
    closing = [], tasks = [], next_conn = 1, startup_failed = False\<rparr> :: pub_world"
  have "pub_run ?es on_module_init = Some ?w" by code_simp
  then have "pub_reach ?w" using pub_reach_run pub_reach.init by blast
  with healthy_can_publish [OF this, of "Inr ()" "\<lambda>_. Confirmed"] show ?thesis
    by (intro exI [of _ ?w]) (simp add: health_check_ok is_connected_def)
qed

end
