(* ===== verification/Api_Key_Guard.thy ===== *)
theory Api_Key_Guard
  imports Http_Errors JS_String
begin

text \<open>
  The global API-key guard (\<open>api/src/auth/api-key.guard.ts\<close>). The reflector's answer for the
  \<open>isPublic\<close> metadata set by \<open>@Public()\<close> is an argument (\<open>None\<close> for \<open>undefined\<close>), as are the
  \<open>x-api-key\<close> header and the configured key.
\<close>

definition timing_safe_equal :: "byte list \<Rightarrow> byte list \<Rightarrow> (exn, bool) result" where
  \<comment> \<open>\<open>crypto.timingSafeEqual\<close> throws on buffers of different lengths\<close>
  "timing_safe_equal a b = (if length a \<noteq> length b then Inl RangeError else Inr (a = b))"

definition constant_time_equals :: "string \<Rightarrow> string \<Rightarrow> (exn, bool) result" where
  "constant_time_equals a b = (let bufA = utf8 a; bufB = utf8 b
     in if length bufA = length bufB then timing_safe_equal bufA bufB else Inr False)"

definition can_activate :: "bool option \<Rightarrow> string option \<Rightarrow> string \<Rightarrow> (exn, bool) result" where
  "can_activate isPublic provided expected =
    (if isPublic = Some True then Inr True
     else if provided = None \<or> provided = Some [] then
       Inl (UnauthorizedException ''Missing or invalid API key'')
     else bind_result (constant_time_equals (the provided) expected) (\<lambda>same.
       if \<not> same then Inl (UnauthorizedException ''Missing or invalid API key'') else Inr True))"

lemma constant_time_equals_eq: "constant_time_equals a b = Inr (a = b)"
  by (cases "a = b") (auto simp: constant_time_equals_def timing_safe_equal_def utf8_inj Let_def)

text \<open>
  The guard lets a request through exactly when its route is public or it carries the
  configured key, and answers 401 otherwise; comparing buffers of different lengths, which would
  throw a RangeError (and answer 500), cannot happen, and an empty key never authenticates.
\<close>

theorem guard_decision:
  "can_activate isPublic provided expected =
    (if isPublic = Some True \<or> (provided = Some expected \<and> expected \<noteq> []) then Inr True
     else Inl (UnauthorizedException ''Missing or invalid API key''))"
  by (auto simp: can_activate_def constant_time_equals_eq)

end
