(* ===== verification/Api_App.thy ===== *)
theory Api_App
  imports Transcriptions_Controller Health Api_Key_Guard
begin

text \<open>
  A request through the application (\<open>api/src/app.module.ts\<close>, \<open>api/src/main.ts\<close>): the global guard,
  then the interceptor or the pipes of the route, then its handler. The framework's parts are
  parameters: \<open>receive\<close> is multer with the module's options (it may put a file in the store and
  hand it on), and the pipes answer or throw.
\<close>

datatype request_kind =
    PostTranscription string                  \<comment> \<open>the multipart body\<close>
  | GetTranscription string
  | ExportTranscription string "string option" \<comment> \<open>the id and the \<open>format\<close> parameter\<close>
  | ListTranscriptions "(string \<times> string) list"
  | GetHealth

record request =
  kind :: request_kind
  x_api_key :: "string option"

record 'db app_env =
  svc :: "'db service_env"
  API_KEY :: string
  receive :: "string \<Rightarrow> files \<Rightarrow> (exn, multer_file option) result \<times> files"
  parse_uuid_pipe :: "string \<Rightarrow> (exn, string) result"
  export_pipe :: "string option \<Rightarrow> (exn, subtitle_format) result"
  list_pipe :: "(string \<times> string) list \<Rightarrow> (exn, list_query) result"
  select1 :: "(exn, unit) result"

datatype response =
    CreatedResponse nat created_job_dto
  | DetailResponse job_detail_dto
  | ExportResponse export_response
  | ListResponse "job_summary_dto list"
  | HealthResponse string

fun is_public :: "request_kind \<Rightarrow> bool option" where
  \<comment> \<open>the metadata \<open>@Public()\<close> sets on the handler or its class\<close>
  "is_public GetHealth = Some True"
| "is_public _ = None"

fun dispatch :: "'db app_env \<Rightarrow> request_kind \<Rightarrow> ('db api_state, response) io" where
  "dispatch env (PostTranscription body) s = (case receive env body (files_of s) of
     (Inl e, fs) \<Rightarrow> (Inl e, s\<lparr>files_of := fs\<rparr>)
   | (Inr f, fs) \<Rightarrow> (case create_handler (svc env) f (s\<lparr>files_of := fs\<rparr>) of
       (Inl e, s') \<Rightarrow> (Inl e, s')
     | (Inr (code, dto), s') \<Rightarrow> (Inr (CreatedResponse code dto), s')))"
| "dispatch env (GetTranscription i) s = (bind_result (parse_uuid_pipe env i) (\<lambda>i'.
     bind_result (get_handler (svc env) i' (db s)) (\<lambda>r. Inr (DetailResponse r))), s)"
| "dispatch env (ExportTranscription i fmt) s = (bind_result (parse_uuid_pipe env i) (\<lambda>i'.
     bind_result (export_pipe env fmt) (\<lambda>f.
     bind_result (export_handler (svc env) i' f (db s)) (\<lambda>r. Inr (ExportResponse r)))), s)"
| "dispatch env (ListTranscriptions q) s = (bind_result (list_pipe env q) (\<lambda>q'.
     bind_result (list_handler (svc env) q' (db s)) (\<lambda>r. Inr (ListResponse r))), s)"
| "dispatch env GetHealth s = (bind_result
     (health_check (select1 env) (publisher_fields (svc env))) (\<lambda>r. Inr (HealthResponse r)), s)"

definition handle_request :: "'db app_env \<Rightarrow> request \<Rightarrow> ('db api_state, response) io" where
  "handle_request env rq s = (case can_activate (is_public (kind rq)) (x_api_key rq) (API_KEY env) of
     Inl e \<Rightarrow> (Inl e, s)
   | Inr _ \<Rightarrow> dispatch env (kind rq) s)"

definition serve :: "('db app_env \<times> request) list \<Rightarrow> 'db api_state \<Rightarrow> 'db api_state" where
  \<comment> \<open>the state after requests, each with the environment it meets\<close>
  "serve = fold (\<lambda>(env, rq) s. snd (handle_request env rq s))"

definition authenticated_upload :: "'db app_env \<times> request \<Rightarrow> bool" where
  "authenticated_upload = (\<lambda>(env, rq). (\<exists>body. kind rq = PostTranscription body) \<and>
     x_api_key rq = Some (API_KEY env) \<and> API_KEY env \<noteq> [])"

lemma can_activate_cases:
  "can_activate pub key expected = (if pub = Some True \<or> (key = Some expected \<and> expected \<noteq> [])
     then Inr True else Inl (UnauthorizedException ''Missing or invalid API key''))"
  by (auto simp: can_activate_def constant_time_equals_eq)

lemma handle_request_idle:
  assumes "\<not> authenticated_upload (env, rq)"
  shows "snd (handle_request env rq s) = s"
  using assms by (cases "kind rq") (auto simp: handle_request_def can_activate_cases authenticated_upload_def)

text \<open>
  C25. Access control over a whole history. Whatever requests the API serves, in whatever order
  and against whatever environment, the files, the table and the queue end up as if it had
  served only the uploads that carried the configured key: every other request, authenticated or
  not, leaves all of them untouched.
\<close>

theorem only_authenticated_uploads_count:
  "serve rqs s = serve (filter authenticated_upload rqs) s"
  by (induction rqs arbitrary: s) (auto simp: serve_def handle_request_idle)

text \<open>
  Without the key there is nothing to see: a request other than the health probe whose header
  is absent, empty or differs from the configured key is answered 401, before multer stores a
  byte, and the health probe is answered whatever the header is.
\<close>

theorem unauthenticated_answer:
  "if kind rq = GetHealth then handle_request env rq s = dispatch env GetHealth s
   else if x_api_key rq = Some (API_KEY env) \<and> API_KEY env \<noteq> []
     then handle_request env rq s = dispatch env (kind rq) s
   else \<exists>e. handle_request env rq s = (Inl e, s) \<and> status_code e = 401"
  by (cases "kind rq") (auto simp: handle_request_def can_activate_cases)

end
