(* ===== verification/Api_Docs.thy ===== *)
theory Api_Docs
  imports Api_App
begin

text \<open>
  What the API says of itself: the decorators of the two controllers and the Swagger set-up of
  \<open>api/src/main.ts\<close> as data, the metadata behind \<open>@Public()\<close>
  (\<open>api/src/auth/public.decorator.ts\<close>) and the reading of it in the guard, and the table of
  responses in \<open>README.md\<close>. The properties compare it with what the handlers answer.
\<close>

subsection \<open>Metadata\<close>

type_synonym metadata = "(string \<times> bool) list"

definition IS_PUBLIC_KEY :: string where
  "IS_PUBLIC_KEY = ''isPublic''"

definition Public :: metadata where
  "Public = [(IS_PUBLIC_KEY, True)]"

fun getAllAndOverride :: "string \<Rightarrow> metadata list \<Rightarrow> bool option" where
  \<comment> \<open>the first of the targets that has a value\<close>
  "getAllAndOverride key [] = None"
| "getAllAndOverride key (m # ms) = (case map_of m key of None \<Rightarrow> getAllAndOverride key ms | Some v \<Rightarrow> Some v)"

subsection \<open>Decorators\<close>

datatype schema = Created_job | Job_detail | Job_summaries | Unspecified

record operation_docs =
  op_summary :: string
  op_consumes :: "string option"
  op_fields :: "(string \<times> string) list"      \<comment> \<open>required multipart fields with their formats\<close>
  op_responses :: "(nat \<times> schema \<times> string) list"
  op_metadata :: metadata

definition create_docs :: operation_docs where
  "create_docs = \<lparr>op_summary = ''Upload an audio file for transcription'',
     op_consumes = Some ''multipart/form-data'', op_fields = [(''file'', ''binary'')],
     op_responses = [(202, Created_job, ''Job queued''),
       (200, Created_job, ''Duplicate of an already-completed job'')],
     op_metadata = []\<rparr>"

definition get_docs :: operation_docs where
  "get_docs = \<lparr>op_summary = ''Job status; transcript included when completed'', op_consumes = None, op_fields = [],
     op_responses = [(200, Job_detail, [])], op_metadata = []\<rparr>"

definition export_docs :: operation_docs where
  "export_docs = \<lparr>op_summary = ''Export the transcript as SRT (default) or VTT'', op_consumes = None, op_fields = [],
     op_responses = [(200, Unspecified, ''Subtitle file''), (409, Unspecified, ''Job is not completed yet'')],
     op_metadata = []\<rparr>"

definition list_docs :: operation_docs where
  "list_docs = \<lparr>op_summary = ''List jobs, newest first (transcripts omitted)'', op_consumes = None, op_fields = [],
     op_responses = [(200, Job_summaries, [])], op_metadata = []\<rparr>"

definition check_docs :: operation_docs where
  "check_docs = \<lparr>op_summary = ''Liveness/readiness probe (no auth)'', op_consumes = None, op_fields = [],
     op_responses = [], op_metadata = Public\<rparr>"

record class_docs =
  api_tag :: string
  api_security :: "string option"
  class_metadata :: metadata

definition transcriptions_docs :: class_docs where
  "transcriptions_docs = \<lparr>api_tag = ''transcriptions'', api_security = Some ''api-key'', class_metadata = []\<rparr>"

definition health_docs :: class_docs where
  "health_docs = \<lparr>api_tag = ''health'', api_security = None, class_metadata = []\<rparr>"

fun docs_of :: "request_kind \<Rightarrow> operation_docs" where
  "docs_of (PostTranscription _) = create_docs"
| "docs_of (GetTranscription _) = get_docs"
| "docs_of (ExportTranscription _ _) = export_docs"
| "docs_of (ListTranscriptions _) = list_docs"
| "docs_of GetHealth = check_docs"

fun class_of :: "request_kind \<Rightarrow> class_docs" where
  "class_of GetHealth = health_docs"
| "class_of _ = transcriptions_docs"

lemma is_public_reflected: "is_public k = getAllAndOverride IS_PUBLIC_KEY [op_metadata (docs_of k), class_metadata (class_of k)]"
  by (cases k) (simp_all add: create_docs_def get_docs_def export_docs_def list_docs_def check_docs_def
      transcriptions_docs_def health_docs_def Public_def)

subsection \<open>The Swagger document\<close>

record swagger_config =
  doc_title :: string
  doc_description :: string
  doc_version :: string
  api_key_schemes :: "(string \<times> string) list"   \<comment> \<open>the name of a scheme and its header\<close>
  doc_path :: string

definition swaggerConfig :: swagger_config where
  "swaggerConfig = \<lparr>doc_title = ''ScribeFlow API'', doc_description = ''Event-driven audio transcription service'',
     doc_version = ''1.0'', api_key_schemes = [(''api-key'', ''X-API-Key'')], doc_path = ''docs''\<rparr>"

subsection \<open>Answers\<close>

fun schema_of :: "response \<Rightarrow> schema" where
  "schema_of (CreatedResponse _ _) = Created_job"
| "schema_of (DetailResponse _) = Job_detail"
| "schema_of (ListResponse _) = Job_summaries"
| "schema_of _ = Unspecified"

fun answer_status :: "response \<Rightarrow> nat" where
  \<comment> \<open>what \<open>create\<close> sets, and the framework's default for a GET\<close>
  "answer_status (CreatedResponse code _) = code"
| "answer_status _ = 200"

definition answer_code :: "(exn, response) result \<Rightarrow> nat" where
  "answer_code r = (case r of Inl e \<Rightarrow> status_code e | Inr a \<Rightarrow> answer_status a)"

fun readme_responses :: "request_kind \<Rightarrow> nat set" where
  \<comment> \<open>the table \<open>API reference\<close> of the README\<close>
  "readme_responses (PostTranscription _) = {202, 200, 400, 413, 415}"
| "readme_responses (GetTranscription _) = {200, 400, 404}"
| "readme_responses (ExportTranscription _ _) = {200, 400, 404, 409}"
| "readme_responses (ListTranscriptions _) = {200}"
| "readme_responses GetHealth = {200, 503}"

definition framework_refuses :: "'db app_env \<Rightarrow> bool" where
  \<comment> \<open>what multer and the pipes answer to input they do not let through\<close>
  "framework_refuses env \<longleftrightarrow>
     (\<forall>b fs e. fst (receive env b fs) = Inl e \<longrightarrow> status_code e \<in> {400, 413, 415, 500}) \<and>
     (\<forall>i e. parse_uuid_pipe env i = Inl e \<longrightarrow> status_code e = 400) \<and>
     (\<forall>f e. export_pipe env f = Inl e \<longrightarrow> status_code e = 400) \<and>
     (\<forall>q e. list_pipe env q = Inl e \<longrightarrow> status_code e = 400)"

text \<open>
  The errors of a repository are not HTTP exceptions: a client sees 500 for them.
\<close>

locale repository_errors =
  fixes repo :: "'db repository"
  assumes findOne_error: "repo_findOne repo w d = Inl e \<Longrightarrow> status_code e = 500"
    and save_error: "repo_save repo n d = (Inl e, d') \<Longrightarrow> status_code e = 500"
    and delete_error: "repo_delete repo i d = (Inl e, d') \<Longrightarrow> status_code e = 500"
    and find_error: "repo_find repo opts d = Inl e \<Longrightarrow> status_code e = 500"

locale service_errors = repository_errors "repo env" for env :: "'db service_env"
begin

lemma find_by_id_error: "find_by_id env i d = Inl e \<Longrightarrow> status_code e \<in> {404, 500}"
  by (auto simp: find_by_id_def result_iff dest: findOne_error split: option.splits)

lemma get_error: "get_handler env i d = Inl e \<Longrightarrow> status_code e \<in> {404, 500}"
  by (auto simp: get_handler_def result_iff dest: find_by_id_error)

lemma export_error: "export_handler env i f d = Inl e \<Longrightarrow> status_code e \<in> {404, 409, 500}"
  by (auto simp: export_handler_def result_iff dest: find_by_id_error split: option.splits bool.splits)

lemma list_error: "list_handler env q d = Inl e \<Longrightarrow> status_code e = 500"
  by (auto simp: list_handler_def list_jobs_def result_iff dest: find_error)

lemma create_error:
  assumes "create env f s = (Inl e, s')"
  shows "status_code e \<in> {415, 500, 503}"
  using assms
proof (cases rule: create_cases)
  case (lookup_threw h e')
  then show ?thesis by (auto simp: existing_job_def dest: findOne_error)
next
  case (save_threw h e' d)
  then show ?thesis by (auto dest: save_error)
next
  case (saved h j d q)
  from saved(4) have "q = Inl e" by (cases q) simp_all
  with saved(3) show ?thesis by (auto elim!: enqueue_cases dest: delete_error)
qed simp_all

lemma create_handler_error:
  assumes "create_handler env f s = (Inl e, s')"
  shows "status_code e \<in> {400, 415, 500, 503}"
proof (cases f)
  case (Some u)
  then obtain t where "create env u s = (Inl e, t)"
    using assms by (auto simp: create_handler_def io_defs split: prod.splits sum.splits)
  then show ?thesis using create_error by blast
qed (use assms in \<open>auto simp: create_handler_def io_throw_def\<close>)

end

interpretation table_errors: repository_errors "table_repository now" for now
  by unfold_locales (auto simp: table_repository_def split: if_splits)

interpretation table_service_errors: service_errors "env\<lparr>repo := table_repository now\<rparr>" for env now
  by unfold_locales (auto simp: table_repository_def split: if_splits)

definition accounted_for :: "'db app_env \<Rightarrow> request \<Rightarrow> nat \<Rightarrow> bool" where
  \<comment> \<open>a status that the README lists, that it states for all endpoints or for failures of the
    server, or one of the two it omits\<close>
  "accounted_for env rq code \<longleftrightarrow> code \<in> readme_responses (kind rq) \<or> code = 500 \<or>
     (code = 401 \<and> kind rq \<noteq> GetHealth \<and> x_api_key rq \<noteq> Some (API_KEY env)) \<or>
     (code = 401 \<and> kind rq \<noteq> GetHealth \<and> API_KEY env = []) \<or>
     (code = 503 \<and> (\<exists>body. kind rq = PostTranscription body)) \<or>
     (code = 400 \<and> (\<exists>q. kind rq = ListTranscriptions q))"

lemma dispatch_status:
  assumes "repository_errors (repo (svc env))" and fw: "framework_refuses env"
  shows "answer_code (fst (dispatch env k s)) \<in> readme_responses k \<union> {500} \<union>
    (case k of PostTranscription _ \<Rightarrow> {503} | ListTranscriptions _ \<Rightarrow> {400} | _ \<Rightarrow> {})"
proof -
  have S: "service_errors (svc env)" using assms(1) by (simp add: service_errors_def)
  show ?thesis
  proof (cases k)
    case (PostTranscription body)
    obtain r fs where r: "receive env body (files_of s) = (r, fs)" by fastforce
    show ?thesis
    proof (cases r)
      case (Inl e)
      then have "status_code e \<in> {400, 413, 415, 500}" using fw r unfolding framework_refuses_def by (metis fst_conv)
      then show ?thesis using Inl r by (auto simp: PostTranscription answer_code_def)
    next
      case (Inr f)
      obtain v s' where c: "create_handler (svc env) f (s\<lparr>files_of := fs\<rparr>) = (v, s')" by fastforce
      show ?thesis
      proof (cases v)
        case (Inl e)
        then show ?thesis using service_errors.create_handler_error [OF S c [unfolded Inl]] r Inr c
          by (auto simp: PostTranscription answer_code_def)
      next
        case Inr_v: (Inr x)
        then have "fst x \<in> {200, 202}" using c
          by (auto simp: create_handler_def io_defs split: option.splits prod.splits sum.splits if_splits)
        then show ?thesis using r Inr c Inr_v by (cases x) (auto simp: PostTranscription answer_code_def)
      qed
    qed
  next
    case (GetTranscription i)
    then show ?thesis using fw service_errors.get_error [OF S]
      by (fastforce simp: answer_code_def framework_refuses_def result_iff bind_result_def split: sum.splits)
  next
    case (ExportTranscription i f)
    then show ?thesis using fw service_errors.export_error [OF S]
      by (fastforce simp: answer_code_def framework_refuses_def result_iff bind_result_def split: sum.splits)
  next
    case (ListTranscriptions q)
    then show ?thesis using fw service_errors.list_error [OF S]
      by (fastforce simp: answer_code_def framework_refuses_def bind_result_def split: sum.splits)
  next
    case GetHealth
    then show ?thesis using health_check_cases [of "select1 env" "publisher_fields (svc env)"]
      by (auto simp: answer_code_def)
  qed
qed

lemma answer_documented:
  assumes "dispatch env k s = (Inr a, s')" and "k \<noteq> GetHealth"
  shows "\<exists>d. (answer_status a, schema_of a, d) \<in> set (op_responses (docs_of k))"
proof (cases k)
  case (PostTranscription body)
  with assms(1) obtain code dto where a: "a = CreatedResponse code dto" "code \<in> {200, 202}"
    by (auto simp: create_handler_def io_defs split: option.splits prod.splits sum.splits if_splits)
  then show ?thesis using PostTranscription by (auto simp: create_docs_def)
next
  case (GetTranscription i)
  with assms(1) show ?thesis by (auto simp: result_iff get_docs_def)
next
  case (ExportTranscription i f)
  with assms(1) show ?thesis by (auto simp: result_iff export_docs_def)
next
  case (ListTranscriptions q)
  with assms(1) show ?thesis by (auto simp: result_iff list_docs_def)
qed (use assms(2) in simp)

text \<open>
  C36. The documentation of the API is that of its code. Whatever the state, the database and the
  broker do: every successful answer has a status and a type its handler's decorators declare;
  every answer has a status that the table of the README lists for its endpoint, or 500, or 401
  for a wrong key, and the only two others are 503 for an upload and 400 for a list, which the
  table omits. A class that declares a security scheme names one that the Swagger document
  defines, its header is the one the guard reads, and without the key in it a request is
  answered 401 and changes nothing; a class that declares none is served whatever the header is.
\<close>

theorem documentation_agrees:
  assumes "repository_errors (repo (svc env))" and "framework_refuses env"
  shows "(case handle_request env rq s of
      (Inl e, _) \<Rightarrow> accounted_for env rq (status_code e)
    | (Inr a, _) \<Rightarrow> accounted_for env rq (answer_status a) \<and> (kind rq = GetHealth \<or>
        (\<exists>d. (answer_status a, schema_of a, d) \<in> set (op_responses (docs_of (kind rq)))))) \<and>
    (case api_security (class_of (kind rq)) of
      None \<Rightarrow> handle_request env rq s = dispatch env (kind rq) s
    | Some name \<Rightarrow> (\<exists>h. map_of (api_key_schemes swaggerConfig) name = Some h \<and> to_lower_case h = ''x-api-key'') \<and>
        (x_api_key rq \<noteq> Some (API_KEY env) \<longrightarrow> (\<exists>e. handle_request env rq s = (Inl e, s) \<and> status_code e = 401)))"
proof (intro conjI)
  let ?k = "kind rq"
  show "case handle_request env rq s of
      (Inl e, _) \<Rightarrow> accounted_for env rq (status_code e)
    | (Inr a, _) \<Rightarrow> accounted_for env rq (answer_status a) \<and> (?k = GetHealth \<or>
        (\<exists>d. (answer_status a, schema_of a, d) \<in> set (op_responses (docs_of ?k))))"
  proof (cases "?k = GetHealth \<or> (x_api_key rq = Some (API_KEY env) \<and> API_KEY env \<noteq> [])")
    case True
    then have run: "handle_request env rq s = dispatch env ?k s"
      by (cases ?k) (auto simp: handle_request_def can_activate_cases)
    obtain r s' where d: "dispatch env ?k s = (r, s')" by fastforce
    have "accounted_for env rq (answer_code r)"
      using dispatch_status [OF assms, of ?k s] d
      by (auto simp: accounted_for_def split: request_kind.splits simp del: dispatch.simps)
    then show ?thesis using answer_documented [of env ?k s _ s'] d run
      by (cases r) (auto simp: answer_code_def simp del: dispatch.simps)
  next
    case False
    then show ?thesis by (cases ?k) (auto simp: handle_request_def can_activate_cases accounted_for_def)
  qed
  have "to_lower_case ''X-API-Key'' = ''x-api-key''" by code_simp
  then show "case api_security (class_of ?k) of
      None \<Rightarrow> handle_request env rq s = dispatch env ?k s
    | Some name \<Rightarrow> (\<exists>h. map_of (api_key_schemes swaggerConfig) name = Some h \<and> to_lower_case h = ''x-api-key'') \<and>
        (x_api_key rq \<noteq> Some (API_KEY env) \<longrightarrow> (\<exists>e. handle_request env rq s = (Inl e, s) \<and> status_code e = 401))"
    by (cases ?k) (auto simp: handle_request_def can_activate_cases transcriptions_docs_def health_docs_def swaggerConfig_def)
qed

definition docs_env :: "table app_env" where
  "docs_env = \<lparr>svc = sample_env (Some 0) Confirmed, API_KEY = ''k'',
     receive = (\<lambda>_ fs. (Inr (Some sample_file), fs)), parse_uuid_pipe = Inr, export_pipe = (\<lambda>_. Inr Srt),
     list_pipe = (\<lambda>_. Inr default_list_query), select1 = Inr ()\<rparr>"

theorem documentation_agrees_witness:
  "\<exists>dto d. fst (handle_request docs_env \<lparr>kind = PostTranscription [], x_api_key = Some ''k''\<rparr> (sample_state [])) =
      Inr (CreatedResponse 202 dto) \<and> (202, Created_job, d) \<in> set (op_responses create_docs)"
proof -
  let ?rq = "\<lparr>kind = PostTranscription [], x_api_key = Some ''k''\<rparr>"
  obtain r s' where run: "handle_request docs_env ?rq (sample_state []) = (r, s')" by fastforce
  have "fst (handle_request docs_env ?rq (sample_state [])) =
      Inr (CreatedResponse 202 \<lparr>dto_id = ''u1'', dto_status = Queued\<rparr>)" by code_simp
  then have r: "r = Inr (CreatedResponse 202 \<lparr>dto_id = ''u1'', dto_status = Queued\<rparr>)" using run by simp
  have "repository_errors (repo (svc docs_env))" "framework_refuses docs_env"
    using table_errors.repository_errors_axioms by (simp_all add: docs_env_def sample_env_def framework_refuses_def)
  from documentation_agrees [OF this, of ?rq "sample_state []"] show ?thesis
    unfolding run prod.case r by simp
qed

end
