(* ===== verification/Web_Proxy.thy ===== *)
theory Web_Proxy
  imports Api_Key_Guard JS_Json "HOL-Library.AList"
begin

text \<open>
  The web front end's server-side proxy (\<open>web/lib/api.ts\<close> and the three route files under
  \<open>web/app/api/transcriptions/\<close>). \<open>fetch\<close> is a parameter: a function of the request that
  returns a response or rejects. Header names are in lower case, as \<open>Headers\<close> keeps them.
\<close>

type_synonym header_list = "(string \<times> string) list"

record http_request =
  http_method :: string
  url :: string
  req_headers :: header_list
  req_body :: "byte list option"

record http_response =
  http_status :: nat
  resp_headers :: header_list
  resp_body :: "byte list"

type_synonym fetch = "http_request \<Rightarrow> (exn, http_response) result"

definition API_URL :: "string option \<Rightarrow> string" where
  "API_URL env_url = (case env_url of None \<Rightarrow> ''http://localhost:3000'' | Some u \<Rightarrow> u)"

definition api_headers :: "string option \<Rightarrow> header_list \<Rightarrow> (exn, header_list) result" where
  \<comment> \<open>the first argument is \<open>process.env.API_KEY\<close>; a later entry of the object replaces an
     earlier one of the same name\<close>
  "api_headers env_key extra = (case env_key of
     None \<Rightarrow> Inl (Error ''API_KEY is not set for the web proxy'')
   | Some key \<Rightarrow> if key = [] then Inl (Error ''API_KEY is not set for the web proxy'')
       else Inr (fold (\<lambda>(k, v). AList.update k v) extra [(''x-api-key'', key)]))"

definition passthrough :: "http_response \<Rightarrow> http_response" where
  "passthrough upstream = \<lparr>http_status = http_status upstream,
     resp_headers = fold (\<lambda>name hs. case map_of (resp_headers upstream) name of
         Some value \<Rightarrow> if value \<noteq> [] then AList.update name value hs else hs
       | None \<Rightarrow> hs) [''content-type'', ''content-disposition''] [],
     resp_body = resp_body upstream\<rparr>"

subsection \<open>encodeURIComponent\<close>

definition unreserved :: "char \<Rightarrow> bool" where
  "unreserved c \<longleftrightarrow> (let n = of_char c :: nat in 48 \<le> n \<and> n < 58 \<or> 65 \<le> n \<and> n < 91 \<or> 97 \<le> n \<and> n < 123) \<or>
     c \<in> set ''-_.!~*()'' \<union> {CHR 0x27}"

definition upper_hex :: "nat \<Rightarrow> char" where
  "upper_hex d = (if d < 10 then char_of (48 + d) else char_of (55 + d))"

definition percent_byte :: "byte \<Rightarrow> string" where
  "percent_byte b = [CHR ''%'', upper_hex (b div 16), upper_hex (b mod 16)]"

definition encode_uri_component :: "string \<Rightarrow> string" where
  "encode_uri_component s = concat (map (\<lambda>c. if unreserved c then [c]
     else concat (map percent_byte (utf8_unit c))) s)"

subsection \<open>The routes\<close>

definition post_transcription :: "string option \<Rightarrow> string option \<Rightarrow> fetch \<Rightarrow> http_request \<Rightarrow>
    (exn, http_response) result" where
  "post_transcription env_url env_key fetch request =
    bind_result (api_headers env_key [(''content-type'',
      case map_of (req_headers request) ''content-type'' of None \<Rightarrow> [] | Some v \<Rightarrow> v)]) (\<lambda>hs.
    bind_result (fetch \<lparr>http_method = ''POST'', url = API_URL env_url @ ''/v1/transcriptions'',
      req_headers = hs, req_body = req_body request\<rparr>) (\<lambda>upstream. Inr (passthrough upstream)))"

definition get_transcription :: "string option \<Rightarrow> string option \<Rightarrow> fetch \<Rightarrow> string \<Rightarrow>
    (exn, http_response) result" where
  "get_transcription env_url env_key fetch i =
    bind_result (api_headers env_key []) (\<lambda>hs.
    bind_result (fetch \<lparr>http_method = ''GET'', url = API_URL env_url @ ''/v1/transcriptions/'' @ encode_uri_component i,
      req_headers = hs, req_body = None\<rparr>) (\<lambda>upstream. Inr (passthrough upstream)))"

definition export_transcription :: "string option \<Rightarrow> string option \<Rightarrow> fetch \<Rightarrow> string \<Rightarrow> string option \<Rightarrow>
    (exn, http_response) result" where
  \<comment> \<open>the last argument is the \<open>format\<close> search parameter\<close>
  "export_transcription env_url env_key fetch i fmt =
    (let format = (case fmt of None \<Rightarrow> ''srt'' | Some f \<Rightarrow> f) in
    bind_result (api_headers env_key []) (\<lambda>hs.
    bind_result (fetch \<lparr>http_method = ''GET'', url = API_URL env_url @ ''/v1/transcriptions/'' @
        encode_uri_component i @ ''/export?format='' @ encode_uri_component format,
      req_headers = hs, req_body = None\<rparr>) (\<lambda>upstream. Inr (passthrough upstream))))"

subsection \<open>Decoding\<close>

definition upper_hex_value :: "char \<Rightarrow> nat option" where
  "upper_hex_value c = (let n = of_char c :: nat in
     if 48 \<le> n \<and> n < 58 then Some (n - 48) else if 65 \<le> n \<and> n < 71 then Some (n - 55) else None)"

fun percent_decode :: "string \<Rightarrow> byte list option" where
  "percent_decode [] = Some []"
| "percent_decode (c # cs) = (if c = CHR ''%'' then (case cs of
       a # b # r \<Rightarrow> (case (upper_hex_value a, upper_hex_value b) of
           (Some x, Some y) \<Rightarrow> map_option ((#) (16 * x + y)) (percent_decode r) | _ \<Rightarrow> None)
     | _ \<Rightarrow> None)
   else map_option ((#) (of_char c)) (percent_decode cs))"

lemma upper_hex_value: "d < 16 \<Longrightarrow> upper_hex_value (upper_hex d) = Some d"
  by (auto simp: upper_hex_value_def upper_hex_def Let_def)

lemma percent_decode_byte:
  "b < 256 \<Longrightarrow> percent_decode (percent_byte b @ r) = map_option ((#) b) (percent_decode r)"
  by (simp add: percent_byte_def upper_hex_value less_mult_imp_div_less)

lemma utf8_unit_bytes: "b \<in> set (utf8_unit c) \<Longrightarrow> b < 256"
  using less_mult_imp_div_less [of "of_char c :: nat" 4 64] nat_of_char_less_256 [of c]
  by (auto simp: utf8_unit_def Let_def split: if_splits)

lemma percent_decode_bytes:
  "(\<And>b. b \<in> set bs \<Longrightarrow> b < 256) \<Longrightarrow>
    percent_decode (concat (map percent_byte bs) @ r) = map_option ((@) bs) (percent_decode r)"
proof (induction bs)
  case (Cons b bs)
  have "percent_decode (percent_byte b @ concat (map percent_byte bs) @ r) =
      map_option ((#) b) (percent_decode (concat (map percent_byte bs) @ r))"
    using Cons.prems by (intro percent_decode_byte) simp
  with Cons show ?case by (simp add: option.map_comp comp_def)
qed (cases "percent_decode r"; simp)

lemma unreserved_ascii:
  assumes "unreserved c"
  shows "c \<noteq> CHR ''%''" and "utf8_unit c = [of_char c]"
proof -
  show "c \<noteq> CHR ''%''" using assms by (auto simp: unreserved_def)
  have "(of_char c :: nat) < 128" using assms by (auto simp: unreserved_def Let_def)
  then show "utf8_unit c = [of_char c]" by (simp add: utf8_unit_def Let_def)
qed

lemma percent_decode_encode: "percent_decode (encode_uri_component s) = Some (utf8 s)"
proof (induction s)
  case (Cons c s)
  show ?case
  proof (cases "unreserved c")
    case True
    with Cons unreserved_ascii [OF True] show ?thesis by (simp add: encode_uri_component_def utf8_def)
  next
    case False
    with Cons percent_decode_bytes [of "utf8_unit c", OF utf8_unit_bytes] show ?thesis
      by (simp add: encode_uri_component_def utf8_def)
  qed
qed (simp add: encode_uri_component_def utf8_def)

lemma percent_byte_chars: "b < 256 \<Longrightarrow> c \<in> set (percent_byte b) \<Longrightarrow> c = CHR ''%'' \<or> unreserved c"
proof -
  have "unreserved (upper_hex d)" if "d < 16" for d
    using that by (auto simp: unreserved_def upper_hex_def Let_def)
  then show "b < 256 \<Longrightarrow> c \<in> set (percent_byte b) \<Longrightarrow> c = CHR ''%'' \<or> unreserved c"
    by (auto simp: percent_byte_def less_mult_imp_div_less)
qed

lemma encode_chars: "c \<in> set (encode_uri_component s) \<Longrightarrow> c = CHR ''%'' \<or> unreserved c"
proof (induction s)
  case (Cons d s)
  show ?case
  proof (cases "unreserved d")
    case True
    then show ?thesis using Cons by (auto simp: encode_uri_component_def)
  next
    case False
    then consider "c \<in> set (concat (map percent_byte (utf8_unit d)))" | "c \<in> set (encode_uri_component s)"
      using Cons.prems by (auto simp: encode_uri_component_def)
    then show ?thesis
    proof cases
      case 1
      then obtain b where "b \<in> set (utf8_unit d)" "c \<in> set (percent_byte b)" by auto
      then show ?thesis using percent_byte_chars utf8_unit_bytes by blast
    qed (rule Cons.IH)
  qed
qed (simp add: encode_uri_component_def)

lemma encode_plain: "list_all unreserved s \<Longrightarrow> encode_uri_component s = s"
  by (induction s) (simp_all add: encode_uri_component_def)

lemma no_delimiters:
  assumes "d \<in> {CHR ''/'', CHR ''?'', CHR 0x23}"
  shows "d \<notin> set (encode_uri_component s)"
proof
  assume "d \<in> set (encode_uri_component s)"
  then have "d = CHR ''%'' \<or> unreserved d" by (rule encode_chars)
  moreover have "\<not> unreserved (CHR ''/'')" "\<not> unreserved (CHR ''?'')" "\<not> unreserved (CHR 0x23)"
    by (simp_all add: unreserved_def)
  ultimately show False using assms by auto
qed

subsection \<open>The path of a URL\<close>

text \<open>
  What the URL parser inside \<open>fetch\<close> does with the segments of a path: a segment that stands for
  one or two dots, percent-encoded or not, is resolved away. The first argument holds the
  segments so far, the last one first.
\<close>

definition single_dot :: "string \<Rightarrow> bool" where
  "single_dot s \<longleftrightarrow> to_lower_case s \<in> {''.'', ''%2e''}"

definition double_dot :: "string \<Rightarrow> bool" where
  "double_dot s \<longleftrightarrow> to_lower_case s \<in> {''..'', ''.%2e'', ''%2e.'', ''%2e%2e''}"

fun resolve_path :: "string list \<Rightarrow> string list \<Rightarrow> string list" where
  "resolve_path acc [] = rev acc"
| "resolve_path acc (s # ss) = (
     if double_dot s then resolve_path ((if ss = [] then [[]] else []) @ tl acc) ss
     else if single_dot s then resolve_path ((if ss = [] then [[]] else []) @ acc) ss
     else resolve_path (s # acc) ss)"

lemma of_lower_unit: "(of_char (lower_unit c) :: nat) = (let n = of_char c in
    if 65 \<le> n \<and> n \<le> 90 \<or> 192 \<le> n \<and> n \<le> 222 \<and> n \<noteq> 215 then n + 32 else n)"
  by (simp add: lower_unit_def Let_def)

lemma lower_unit_eqs:
  "lower_unit c = CHR ''.'' \<longleftrightarrow> c = CHR ''.''" "lower_unit c = CHR ''%'' \<longleftrightarrow> c = CHR ''%''"
  "lower_unit c = CHR ''2'' \<longleftrightarrow> c = CHR ''2''" "lower_unit c = CHR ''e'' \<longleftrightarrow> c \<in> {CHR ''e'', CHR ''E''}"
proof -
  have eq: "a = b \<longleftrightarrow> (of_char a :: nat) = of_char b" for a b :: char by simp
  show "lower_unit c = CHR ''.'' \<longleftrightarrow> c = CHR ''.''" "lower_unit c = CHR ''%'' \<longleftrightarrow> c = CHR ''%''"
    "lower_unit c = CHR ''2'' \<longleftrightarrow> c = CHR ''2''" "lower_unit c = CHR ''e'' \<longleftrightarrow> c \<in> {CHR ''e'', CHR ''E''}"
    unfolding insert_iff empty_iff eq [of "lower_unit c"] eq [of c] of_lower_unit
    by (auto simp: Let_def)
qed

lemma encode_dots:
  assumes "percent_decode s = Some (utf8 x)" and "list_all unreserved x" and "encode_uri_component i = s"
  shows "i = x \<and> s = x"
proof -
  have "utf8 i = utf8 x" using assms(1,3) percent_decode_encode [of i] by simp
  then have "i = x" by (simp add: utf8_inj)
  with encode_plain [OF assms(2)] assms(3) show ?thesis by simp
qed

lemma no_small_hex: "percent_decode (CHR ''%'' # CHR ''2'' # CHR ''e'' # r) = None"
  "percent_decode (CHR ''.'' # CHR ''%'' # CHR ''2'' # CHR ''e'' # r) = None"
  "percent_decode (CHR ''%'' # CHR ''2'' # CHR ''E'' # CHR ''%'' # CHR ''2'' # CHR ''e'' # r) = None"
  by (simp_all add: upper_hex_value_def)

lemma dot_decode: "percent_decode ''%2E'' = Some (utf8 ''.'')" "percent_decode ''.%2E'' = Some (utf8 ''..'')"
   "percent_decode ''%2E.'' = Some (utf8 ''..'')" "percent_decode ''%2E%2E'' = Some (utf8 ''..'')"
   "list_all unreserved ''.''" "list_all unreserved ''..''"
  by code_simp+

lemma lower_dots:
  "to_lower_case s = ''.'' \<longleftrightarrow> s = ''.''" "to_lower_case s = ''..'' \<longleftrightarrow> s = ''..''"
  "to_lower_case s = ''%2e'' \<longleftrightarrow> s = ''%2e'' \<or> s = ''%2E''"
  "to_lower_case s = ''.%2e'' \<longleftrightarrow> s = ''.%2e'' \<or> s = ''.%2E''"
  "to_lower_case s = ''%2e.'' \<longleftrightarrow> s = ''%2e.'' \<or> s = ''%2E.''"
  "to_lower_case s = ''%2e%2e'' \<longleftrightarrow> s = ''%2e%2e'' \<or> s = ''%2e%2E'' \<or> s = ''%2E%2e'' \<or> s = ''%2E%2E''"
  by (auto simp: to_lower_case_def map_eq_Cons_conv lower_unit_eqs)

lemma encode_not: "percent_decode s = None \<Longrightarrow> encode_uri_component i \<noteq> s"
  using percent_decode_encode [of i] by auto

lemma encode_single_dot: "single_dot (encode_uri_component i) \<longleftrightarrow> i = ''.''"
proof
  assume "single_dot (encode_uri_component i)"
  moreover have "encode_uri_component i \<noteq> ''%2e''" by (rule encode_not) (rule no_small_hex)
  ultimately consider "encode_uri_component i = ''.''" | "encode_uri_component i = ''%2E''"
    by (auto simp: single_dot_def lower_dots)
  then show "i = ''.''"
    by cases (use encode_dots [OF _ dot_decode(5)] dot_decode encode_plain [OF dot_decode(5)]
      percent_decode_encode [of "''.''"] in \<open>metis\<close>)+
qed (simp add: encode_plain [OF dot_decode(5)] single_dot_def lower_dots)

lemma encode_double_dot: "double_dot (encode_uri_component i) \<longleftrightarrow> i = ''..''"
proof
  assume "double_dot (encode_uri_component i)"
  moreover have "encode_uri_component i \<notin> {''.%2e'', ''%2e.'', ''%2e%2e'', ''%2e%2E'', ''%2E%2e''}"
    using encode_not no_small_hex by auto
  ultimately have "encode_uri_component i \<in> {''..'', ''.%2E'', ''%2E.'', ''%2E%2E''}"
    by (auto simp: double_dot_def lower_dots)
  then have "percent_decode (encode_uri_component i) = Some (utf8 ''..'')"
    using dot_decode encode_plain [OF dot_decode(6)] percent_decode_encode [of "''..''"] by auto
  then show "i = ''..''" using encode_dots [OF _ dot_decode(6) refl] by blast
qed (simp add: encode_plain [OF dot_decode(6)] double_dot_def lower_dots)

text \<open>The segments a request path has once the URL parser has resolved its dots.\<close>

definition requested_path :: "string \<Rightarrow> string list" where
  "requested_path p = resolve_path [] (tl (split_on (CHR ''/'') p))"

lemma requested_job: "requested_path (''/v1/transcriptions/'' @ encode_uri_component i) =
    (if i = ''..'' then [''v1'', []] else if i = ''.'' then [''v1'', ''transcriptions'', []]
     else [''v1'', ''transcriptions'', encode_uri_component i])"
  using no_delimiters [of "CHR ''/''" i] encode_single_dot [of i] encode_double_dot [of i]
  by (simp add: requested_path_def split_on_plain single_dot_def [of "_ # _"] double_dot_def [of "_ # _"]
      lower_dots)

lemma api_headers_none: "api_headers env_key [] = (case env_key of
    Some (c # k) \<Rightarrow> Inr [(''x-api-key'', c # k)]
  | _ \<Rightarrow> Inl (Error ''API_KEY is not set for the web proxy''))"
  by (auto simp: api_headers_def split: option.split list.split)

text \<open>
  C34. The id of a poll stays one segment of the requested path. Whatever the browser sends as the
  id, the proxy makes one GET to the API with the configured key and no body, for a path whose
  last segment has no delimiter in it and decodes to exactly that id; the two exceptions are the
  ids \<open>.\<close> and \<open>..\<close>, which \<open>encodeURIComponent\<close> leaves alone and the URL parser resolves away, so
  that the request is for the list of jobs or for the root of the API. Without a configured key
  the route throws and nothing is fetched.
\<close>

theorem polled_path:
  "case env_key of
      Some (c # k) \<Rightarrow> \<exists>seg. get_transcription env_url env_key fetch i =
         bind_result (fetch \<lparr>http_method = ''GET'', url = API_URL env_url @ ''/v1/transcriptions/'' @ seg,
           req_headers = [(''x-api-key'', c # k)], req_body = None\<rparr>) (\<lambda>r. Inr (passthrough r)) \<and>
         percent_decode seg = Some (utf8 i) \<and> set seg \<inter> {CHR ''/'', CHR ''?'', CHR 0x23} = {} \<and>
         requested_path (''/v1/transcriptions/'' @ seg) = (if i = ''..'' then [''v1'', []]
           else [''v1'', ''transcriptions'', if i = ''.'' then [] else seg])
    | _ \<Rightarrow> get_transcription env_url env_key fetch i = Inl (Error ''API_KEY is not set for the web proxy'')"
proof -
  let ?seg = "encode_uri_component i"
  have chars: "set ?seg \<inter> {CHR ''/'', CHR ''?'', CHR 0x23} = {}" using no_delimiters by auto
  have path: "requested_path (''/v1/transcriptions/'' @ ?seg) = (if i = ''..'' then [''v1'', []]
      else [''v1'', ''transcriptions'', if i = ''.'' then [] else ?seg])"
    unfolding requested_job by (rule if_cong) (simp_all split: if_split)
  show ?thesis
  proof (cases "env_key = None \<or> env_key = Some []")
    case True
    then show ?thesis by (auto simp: get_transcription_def api_headers_none)
  next
    case False
    then obtain c k where key: "env_key = Some (c # k)" by (cases "the env_key") auto
    have "get_transcription env_url env_key fetch i = bind_result (fetch \<lparr>http_method = ''GET'',
        url = API_URL env_url @ ''/v1/transcriptions/'' @ ?seg, req_headers = [(''x-api-key'', c # k)],
        req_body = None\<rparr>) (\<lambda>r. Inr (passthrough r))"
      by (simp add: key get_transcription_def api_headers_none)
    then show ?thesis unfolding key option.case list.case
      by (intro exI [of _ ?seg] conjI percent_decode_encode chars path)
  qed
qed

definition nonempty_value :: "string option \<Rightarrow> string option" where
  "nonempty_value v = (case v of Some (c # s) \<Rightarrow> Some (c # s) | _ \<Rightarrow> None)"

lemma nonempty_value_simps [simp]:
  "nonempty_value None = None" "nonempty_value (Some v) = (if v = [] then None else Some v)"
  by (simp_all add: nonempty_value_def split: list.split)

lemma copied_header:
  "map_of (case v of Some value \<Rightarrow> if value \<noteq> [] then AList.update name value hs else hs | None \<Rightarrow> hs) n =
    (if n = name \<and> nonempty_value v \<noteq> None then nonempty_value v else map_of hs n)"
  by (cases v) (simp_all add: update_conv')

lemma passthrough_headers:
  "map_of (resp_headers (passthrough r)) n = (if n = ''content-type'' \<or> n = ''content-disposition''
     then nonempty_value (map_of (resp_headers r) n) else None)"
proof -
  have "map_of (fold (\<lambda>name hs. case map_of rs name of
         Some value \<Rightarrow> if value \<noteq> [] then AList.update name value hs else hs
       | None \<Rightarrow> hs) [a, b] []) n = (if n = a \<or> n = b then nonempty_value (map_of rs n) else None)"
    for a b :: string and rs :: header_list
    unfolding fold_simps copied_header by simp
  then show ?thesis by (simp only: passthrough_def http_response.select_convs)
qed

text \<open>
  The proxy is the only place that knows the key. A proxied upload reaches the API with the
  configured key, whatever headers the browser sent, so that the API's guard lets it pass; of the
  browser's headers only the content type goes through, and the body unchanged. What comes back
  has the status and the body of the API's answer, and of its headers only a non-empty content
  type and content disposition.
\<close>

theorem proxied_upload:
  assumes "key \<noteq> []"
  shows "\<exists>rq. post_transcription env_url (Some key) fetch request =
       bind_result (fetch rq) (\<lambda>r. Inr (passthrough r)) \<and>
     can_activate isPublic (map_of (req_headers rq) ''x-api-key'') key = Inr True \<and>
     fst ` set (req_headers rq) = {''x-api-key'', ''content-type''} \<and>
     map_of (req_headers rq) ''content-type'' = Some (case map_of (req_headers request) ''content-type''
       of None \<Rightarrow> [] | Some v \<Rightarrow> v) \<and>
     req_body rq = req_body request \<and>
     (\<forall>r. http_status (passthrough r) = http_status r \<and> resp_body (passthrough r) = resp_body r \<and>
        (\<forall>n. map_of (resp_headers (passthrough r)) n =
          (if n = ''content-type'' \<or> n = ''content-disposition''
           then nonempty_value (map_of (resp_headers r) n) else None)))"
proof -
  let ?t = "case map_of (req_headers request) ''content-type'' of None \<Rightarrow> [] | Some v \<Rightarrow> v"
  let ?rq = "\<lparr>http_method = ''POST'', url = API_URL env_url @ ''/v1/transcriptions'',
    req_headers = [(''x-api-key'', key), (''content-type'', ?t)], req_body = req_body request\<rparr>"
  have "post_transcription env_url (Some key) fetch request =
      bind_result (fetch ?rq) (\<lambda>r. Inr (passthrough r))"
    using assms by (simp add: post_transcription_def api_headers_def)
  moreover have "can_activate isPublic (map_of (req_headers ?rq) ''x-api-key'') key = Inr True"
    using assms by (simp add: can_activate_def constant_time_equals_eq)
  moreover have "http_status (passthrough r) = http_status r" "resp_body (passthrough r) = resp_body r" for r
    by (simp_all add: passthrough_def)
  moreover have "fst ` set (req_headers ?rq) = {''x-api-key'', ''content-type''}"
    "map_of (req_headers ?rq) ''content-type'' = Some ?t" "req_body ?rq = req_body request" by simp_all
  ultimately show ?thesis by (intro exI [of _ ?rq] conjI allI passthrough_headers)
qed

theorem proxied_upload_witness:
  "\<exists>rq :: http_request. post_transcription None (Some ''k'') (\<lambda>_. Inl (Error ''down''))
     \<lparr>http_method = ''POST'', url = ''/api/transcriptions'', req_headers = [(''cookie'', ''c'')],
       req_body = Some [1]\<rparr> = Inl (Error ''down'') \<and>
     map_of (req_headers rq) ''content-type'' = Some [] \<and> req_body rq = Some [1]"
proof -
  let ?request = "\<lparr>http_method = ''POST'', url = ''/api/transcriptions'', req_headers = [(''cookie'', ''c'')],
       req_body = Some [1]\<rparr> :: http_request"
  have "\<exists>rq :: http_request. post_transcription None (Some ''k'') (\<lambda>_. Inl (Error ''down'')) ?request =
      bind_result (Inl (Error ''down'')) (\<lambda>r. Inr (passthrough r)) \<and>
     map_of (req_headers rq) ''content-type'' = Some (case map_of (req_headers ?request) ''content-type''
       of None \<Rightarrow> [] | Some v \<Rightarrow> v) \<and> req_body rq = req_body ?request"
    by (rule exE [OF proxied_upload [of "''k''" None "\<lambda>_. Inl (Error ''down'')" ?request None, OF list.distinct(2)]],
        elim conjE, intro exI conjI, assumption+)
  then show ?thesis by simp
qed

end
