(* ===== verification/Api_Routes.thy ===== *)
theory Api_Routes
  imports Api_App Web_Proxy
begin

text \<open>
  The routes of the API and the way of a proxied request through them: what the decorators of the
  two controllers and \<open>setGlobalPrefix\<close> of \<open>api/src/main.ts\<close> declare, as data. The matching of
  a path against a declared route, the parsing of a query string and the rendering of an answer
  are the framework's: parameters, whose documented behaviour is a hypothesis where it is needed.
\<close>

subsection \<open>Declared routes\<close>

datatype endpoint = Create | Get_one | Export | List_all | Check_health

record route =
  route_verb :: string
  route_path :: "string list"       \<comment> \<open>segments; a leading colon marks a parameter\<close>
  route_endpoint :: endpoint

definition GLOBAL_PREFIX :: string where
  "GLOBAL_PREFIX = ''v1''"

definition PREFIX_EXCLUDED :: "string list" where
  "PREFIX_EXCLUDED = [''health'']"

definition path_of :: "string \<Rightarrow> string list" where
  "path_of p = filter (\<lambda>s. s \<noteq> []) (split_on (CHR ''/'') p)"

definition declare_route :: "string \<Rightarrow> string \<times> string \<times> endpoint \<Rightarrow> route" where
  \<comment> \<open>the controller's path, then verb, path and endpoint of the method\<close>
  "declare_route controller = (\<lambda>(verb, p, e). \<lparr>route_verb = verb,
     route_path = (if controller \<in> set PREFIX_EXCLUDED then [] else [GLOBAL_PREFIX]) @
       path_of controller @ path_of p,
     route_endpoint = e\<rparr>)"

definition transcriptions_controller :: string where
  "transcriptions_controller = ''transcriptions''"

definition create_route :: "string \<times> string \<times> endpoint" where
  "create_route = (''POST'', [], Create)"

definition get_route :: "string \<times> string \<times> endpoint" where
  "get_route = (''GET'', '':id'', Get_one)"

definition export_route :: "string \<times> string \<times> endpoint" where
  "export_route = (''GET'', '':id/export'', Export)"

definition list_route :: "string \<times> string \<times> endpoint" where
  "list_route = (''GET'', [], List_all)"

definition health_controller :: string where
  "health_controller = ''health''"

definition check_route :: "string \<times> string \<times> endpoint" where
  "check_route = (''GET'', [], Check_health)"

definition api_routes :: "route list" where
  "api_routes = map (declare_route health_controller) [check_route] @
     map (declare_route transcriptions_controller) [create_route, get_route, export_route, list_route]"

lemma api_routes_eq: "api_routes = [
    \<lparr>route_verb = ''GET'', route_path = [''health''], route_endpoint = Check_health\<rparr>,
    \<lparr>route_verb = ''POST'', route_path = [''v1'', ''transcriptions''], route_endpoint = Create\<rparr>,
    \<lparr>route_verb = ''GET'', route_path = [''v1'', ''transcriptions'', '':id''], route_endpoint = Get_one\<rparr>,
    \<lparr>route_verb = ''GET'', route_path = [''v1'', ''transcriptions'', '':id'', ''export''], route_endpoint = Export\<rparr>,
    \<lparr>route_verb = ''GET'', route_path = [''v1'', ''transcriptions''], route_endpoint = List_all\<rparr>]"
  by code_simp

subsection \<open>Matching\<close>

text \<open>
  When a declared path matches the segments of a request, and with which parameters: a parameter
  takes one segment that is not empty, percent-decoded; any other segment stands for itself. The
  framework matches more than that (case, trailing slashes); the routes the code relies on are
  asked for in this form.
\<close>

fun route_args :: "string list \<Rightarrow> string list \<Rightarrow> string list option" where
  "route_args [] [] = Some []"
| "route_args (p # ps) (s # ss) = (if take 1 p = '':'' then
       if s = [] then None else (case percent_decode s of None \<Rightarrow> None
         | Some bs \<Rightarrow> map_option ((#) (utf8_decode bs)) (route_args ps ss))
     else if p = s then route_args ps ss else None)"
| "route_args _ _ = None"

type_synonym router = "string \<Rightarrow> string list \<Rightarrow> (endpoint \<times> string list) option"

definition follows_routes :: "router \<Rightarrow> bool" where
  "follows_routes rt \<longleftrightarrow> (\<forall>r \<in> set api_routes. \<forall>path args. route_args (route_path r) path = Some args \<longrightarrow>
     rt (route_verb r) path = Some (route_endpoint r, args))"

lemma route_args_length: "route_args ps ss = Some args \<Longrightarrow> length ss = length ps"
  by (induction ps ss arbitrary: args rule: route_args.induct) (auto split: if_splits option.splits)

lemma follows_routesD:
  assumes "follows_routes rt"
  shows "rt ''POST'' [''v1'', ''transcriptions''] = Some (Create, [])"
    and "s \<noteq> [] \<Longrightarrow> percent_decode s = Some (utf8 i) \<Longrightarrow>
      rt ''GET'' [''v1'', ''transcriptions'', s] = Some (Get_one, [i])"
    and "s \<noteq> [] \<Longrightarrow> percent_decode s = Some (utf8 i) \<Longrightarrow>
      rt ''GET'' [''v1'', ''transcriptions'', s, ''export''] = Some (Export, [i])"
  using assms by (simp_all add: follows_routes_def api_routes_eq)

text \<open>No path matches two routes of a verb, so that the order of the declarations is immaterial.\<close>

lemma routes_disjoint:
  assumes "r \<in> set api_routes" "r' \<in> set api_routes" "route_verb r = route_verb r'"
    and "route_args (route_path r) path = Some args" "route_args (route_path r') path = Some args'"
  shows "r = r'"
proof (rule ccontr)
  assume "r \<noteq> r'"
  moreover have "length (route_path r) = length (route_path r')"
    using route_args_length [OF assms(4)] route_args_length [OF assms(5)] by simp
  ultimately show False using assms(1-3) by (auto simp: api_routes_eq)
qed

definition first_route :: router where
  "first_route verb path = (case concat (map (\<lambda>r. if route_verb r = verb then
       (case route_args (route_path r) path of None \<Rightarrow> [] | Some args \<Rightarrow> [(route_endpoint r, args)]) else [])
     api_routes) of [] \<Rightarrow> None | x # _ \<Rightarrow> Some x)"

lemma concat_single:
  "distinct xs \<Longrightarrow> x \<in> set xs \<Longrightarrow> (\<And>q. q \<in> set xs \<Longrightarrow> q \<noteq> x \<Longrightarrow> f q = []) \<Longrightarrow> concat (map f xs) = f x"
proof (induction xs)
  case (Cons y ys)
  show ?case
  proof (cases "y = x")
    case True
    then have "concat (map f ys) = []" using Cons.prems by auto
    then show ?thesis using True by simp
  next
    case False
    then show ?thesis using Cons by simp
  qed
qed simp

lemma first_route_follows: "follows_routes first_route"
  unfolding follows_routes_def
proof (intro ballI allI impI)
  fix r path args
  assume r: "r \<in> set api_routes" and m: "route_args (route_path r) path = Some args"
  let ?hits = "\<lambda>q. if route_verb q = route_verb r then
       (case route_args (route_path q) path of None \<Rightarrow> [] | Some args \<Rightarrow> [(route_endpoint q, args)]) else []"
  have "concat (map ?hits api_routes) = ?hits r"
  proof (rule concat_single [OF _ r])
    show "distinct api_routes" by (simp add: api_routes_eq)
    show "?hits q = []" if "q \<in> set api_routes" "q \<noteq> r" for q
      using routes_disjoint [OF that(1) r _ _ m] that(2) by (auto split: option.split)
  qed
  then show "first_route (route_verb r) path = Some (route_endpoint r, args)"
    unfolding first_route_def using m by simp
qed

subsection \<open>A request on the wire\<close>

record 'db api_server =
  find_route :: router
  parse_query :: "string \<Rightarrow> (string \<times> string) list"
  render_answer :: "(exn, response) result \<Rightarrow> http_response"

fun request_kind_of :: "endpoint \<Rightarrow> string list \<Rightarrow> (string \<times> string) list \<Rightarrow> byte list \<Rightarrow> request_kind option" where
  \<comment> \<open>the arguments the decorators of a handler's parameters ask for\<close>
  "request_kind_of Create [] q b = Some (PostTranscription (map char_of b))"
| "request_kind_of Get_one [i] q b = Some (GetTranscription i)"
| "request_kind_of Export [i] q b = Some (ExportTranscription i (map_of q ''format''))"
| "request_kind_of List_all [] q b = Some (ListTranscriptions q)"
| "request_kind_of Check_health [] q b = Some GetHealth"
| "request_kind_of _ _ q b = None"

definition api_serve :: "'db api_server \<Rightarrow> 'db app_env \<Rightarrow> string \<Rightarrow> http_request \<Rightarrow> 'db api_state \<Rightarrow>
    http_response \<times> 'db api_state" where
  \<comment> \<open>the third argument is the origin the server is addressed by\<close>
  "api_serve srv env origin rq s = (let target = drop (length origin) (url rq);
       path = requested_path (takeWhile (\<lambda>c. c \<noteq> CHR ''?'') target);
       query = parse_query srv (tl (dropWhile (\<lambda>c. c \<noteq> CHR ''?'') target));
       body = (case req_body rq of None \<Rightarrow> [] | Some b \<Rightarrow> b)
     in case Option.bind (find_route srv (http_method rq) path) (\<lambda>(e, args). request_kind_of e args query body) of
       None \<Rightarrow> (render_answer srv (Inl (NotFoundException (''Cannot '' @ http_method rq @ '' '' @ target))), s)
     | Some k \<Rightarrow> (case handle_request env \<lparr>kind = k, x_api_key = map_of (req_headers rq) ''x-api-key''\<rparr> s of
         (r, s') \<Rightarrow> (render_answer srv r, s')))"

definition answer_with_key :: "'db api_server \<Rightarrow> 'db app_env \<Rightarrow> string \<Rightarrow> request_kind \<Rightarrow> 'db api_state \<Rightarrow>
    http_response \<times> 'db api_state" where
  \<comment> \<open>what a request of this kind with this key is answered\<close>
  "answer_with_key srv env key k s = (case (if key = API_KEY env then dispatch env k s
     else (Inl (UnauthorizedException ''Missing or invalid API key''), s)) of (r, s') \<Rightarrow> (render_answer srv r, s'))"

lemma handle_request_with_key:
  assumes "key \<noteq> []" and "k \<noteq> GetHealth"
  shows "handle_request env \<lparr>kind = k, x_api_key = Some key\<rparr> s = (if key = API_KEY env then dispatch env k s
     else (Inl (UnauthorizedException ''Missing or invalid API key''), s))"
  using assms by (cases k) (auto simp: handle_request_def can_activate_cases)

lemma encoded_segment: "CHR ''?'' \<notin> set (encode_uri_component i)" "CHR ''/'' \<notin> set (encode_uri_component i)"
  using no_delimiters by simp_all

lemma requested_v1 [simp]:
  "requested_path ''/v1/transcriptions'' = [''v1'', ''transcriptions'']"
  by code_simp

lemma resolve_v1: "resolve_path acc (''v1'' # ''transcriptions'' # ss) = resolve_path (''transcriptions'' # ''v1'' # acc) ss"
  by (simp add: single_dot_def double_dot_def lower_dots)

lemma requested_export:
  assumes "i \<notin> {''.'', ''..''}"
  shows "requested_path (''/v1/transcriptions/'' @ encode_uri_component i @ ''/export'') =
    [''v1'', ''transcriptions'', encode_uri_component i, ''export'']"
proof -
  let ?e = "encode_uri_component i"
  have "split_on (CHR ''/'') (''/v1/transcriptions/'' @ ?e @ ''/export'') =
      [] # ''v1'' # ''transcriptions'' # split_on (CHR ''/'') (?e @ CHR ''/'' # ''export'')"
    by simp
  also have "split_on (CHR ''/'') (?e @ CHR ''/'' # ''export'') = [?e, ''export'']"
    by (simp only: split_on_append split_on_plain [OF encoded_segment(2)]) simp
  finally show ?thesis
    using assms encode_single_dot [of i] encode_double_dot [of i]
    by (simp add: requested_path_def resolve_v1 single_dot_def [of "_ # _"] double_dot_def [of "_ # _"] lower_dots)
qed

lemma upto_query:
  "CHR ''?'' \<notin> set p \<Longrightarrow> takeWhile (\<lambda>c. c \<noteq> CHR ''?'') p = p"
  "CHR ''?'' \<notin> set p \<Longrightarrow> tl (dropWhile (\<lambda>c. c \<noteq> CHR ''?'') p) = []"
  "CHR ''?'' \<notin> set p \<Longrightarrow> takeWhile (\<lambda>c. c \<noteq> CHR ''?'') (p @ CHR ''?'' # q) = p"
  "CHR ''?'' \<notin> set p \<Longrightarrow> tl (dropWhile (\<lambda>c. c \<noteq> CHR ''?'') (p @ CHR ''?'' # q)) = q"
  by (induction p) auto

lemma encode_nonempty: "encode_uri_component i = [] \<longleftrightarrow> i = []"
proof
  assume "encode_uri_component i = []"
  then have "utf8 i = utf8 []" using percent_decode_encode [of i] by (simp add: utf8_def)
  then show "i = []" by (simp only: utf8_inj)
qed (simp add: encode_uri_component_def)

lemma api_serve_routed:
  assumes "find_route srv (http_method rq) (requested_path path) = Some (e, args)"
    and "url rq = origin @ path @ query" and "CHR ''?'' \<notin> set path" and "query = [] \<or> hd query = CHR ''?''"
    and "request_kind_of e args (parse_query srv (tl query)) (case req_body rq of None \<Rightarrow> [] | Some b \<Rightarrow> b) = Some k"
    and "k \<noteq> GetHealth" and "key \<noteq> []" and "map_of (req_headers rq) ''x-api-key'' = Some key"
  shows "api_serve srv env origin rq s = answer_with_key srv env key k s"
proof -
  have "takeWhile (\<lambda>c. c \<noteq> CHR ''?'') (path @ query) = path" "tl (dropWhile (\<lambda>c. c \<noteq> CHR ''?'') (path @ query)) = tl query"
    using upto_query [OF assms(3)] assms(4) by (cases query; simp)+
  then show ?thesis
    using assms(1,2,5,8) by (simp add: api_serve_def handle_request_with_key [OF assms(7,6)] answer_with_key_def)
qed

text \<open>
  C35. The proxy's requests reach the handlers they are meant for. The routes the controllers
  declare, under the global prefix, and the paths the proxy's three routes build by hand fit
  together: the one request each makes is served by the upload, the detail or the export handler
  of the API with exactly the id the browser sent (unless it is empty or stands for dots) and
  exactly its format, \<open>srt\<close> by default, after the guard has compared the two configured keys; with
  different keys all of them are answered 401, and no request falls through to another route.
\<close>

theorem proxy_reaches_handlers:
  assumes key: "key \<noteq> []" and routes: "follows_routes (find_route srv)"
    and query: "\<And>f. parse_query srv (''format='' @ encode_uri_component f) = [(''format'', f)]"
    and i: "i \<notin> {[], ''.'', ''..''}"
  shows "(\<exists>rq. post_transcription env_url (Some key) fetch request = bind_result (fetch rq) (\<lambda>r. Inr (passthrough r)) \<and>
      api_serve srv env (API_URL env_url) rq s = answer_with_key srv env key
        (PostTranscription (map char_of (case req_body request of None \<Rightarrow> [] | Some b \<Rightarrow> b))) s) \<and>
    (\<exists>rq. get_transcription env_url (Some key) fetch i = bind_result (fetch rq) (\<lambda>r. Inr (passthrough r)) \<and>
      api_serve srv env (API_URL env_url) rq s = answer_with_key srv env key (GetTranscription i) s) \<and>
    (\<exists>rq. export_transcription env_url (Some key) fetch i fmt = bind_result (fetch rq) (\<lambda>r. Inr (passthrough r)) \<and>
      api_serve srv env (API_URL env_url) rq s = answer_with_key srv env key
        (ExportTranscription i (Some (case fmt of None \<Rightarrow> ''srt'' | Some f \<Rightarrow> f))) s)"
proof (intro conjI)
  let ?e = "encode_uri_component i" and ?f = "case fmt of None \<Rightarrow> ''srt'' | Some f \<Rightarrow> f"
  let ?t = "case map_of (req_headers request) ''content-type'' of None \<Rightarrow> [] | Some v \<Rightarrow> v"
  have e: "?e \<noteq> []" "percent_decode ?e = Some (utf8 i)"
    using i by (simp_all add: encode_nonempty percent_decode_encode)
  note found = follows_routesD [OF routes]
  let ?post = "\<lparr>http_method = ''POST'', url = API_URL env_url @ ''/v1/transcriptions'',
    req_headers = [(''x-api-key'', key), (''content-type'', ?t)], req_body = req_body request\<rparr>"
  show "\<exists>rq. post_transcription env_url (Some key) fetch request = bind_result (fetch rq) (\<lambda>r. Inr (passthrough r)) \<and>
      api_serve srv env (API_URL env_url) rq s = answer_with_key srv env key
        (PostTranscription (map char_of (case req_body request of None \<Rightarrow> [] | Some b \<Rightarrow> b))) s"
    by (intro exI [of _ ?post] conjI api_serve_routed [where query = "[]" and path = "''/v1/transcriptions''"
        and e = Create and args = "[]"])
      (simp_all add: key found post_transcription_def api_headers_def)
  let ?get = "\<lparr>http_method = ''GET'', url = API_URL env_url @ ''/v1/transcriptions/'' @ ?e,
    req_headers = [(''x-api-key'', key)], req_body = None\<rparr>"
  have "requested_path (''/v1/transcriptions/'' @ ?e) = [''v1'', ''transcriptions'', ?e]"
    using i by (simp only: requested_job insert_iff de_Morgan_disj if_False)
  then show "\<exists>rq. get_transcription env_url (Some key) fetch i = bind_result (fetch rq) (\<lambda>r. Inr (passthrough r)) \<and>
      api_serve srv env (API_URL env_url) rq s = answer_with_key srv env key (GetTranscription i) s"
    using encoded_segment(1) [of i]
    by (intro exI [of _ ?get] conjI api_serve_routed [where query = "[]" and path = "''/v1/transcriptions/'' @ ?e"
        and e = Get_one and args = "[i]"])
      (simp_all add: key found e get_transcription_def api_headers_def)
  let ?export = "\<lparr>http_method = ''GET'', url = API_URL env_url @ ''/v1/transcriptions/'' @ ?e @ ''/export?format='' @
    encode_uri_component ?f, req_headers = [(''x-api-key'', key)], req_body = None\<rparr>"
  have "requested_path (''/v1/transcriptions/'' @ ?e @ ''/export'') = [''v1'', ''transcriptions'', ?e, ''export'']"
    using i by (intro requested_export) simp
  then show "\<exists>rq. export_transcription env_url (Some key) fetch i fmt = bind_result (fetch rq) (\<lambda>r. Inr (passthrough r)) \<and>
      api_serve srv env (API_URL env_url) rq s = answer_with_key srv env key (ExportTranscription i (Some ?f)) s"
    using encoded_segment(1) [of i] query [of ?f]
    by (intro exI [of _ ?export] conjI api_serve_routed [where query = "''?format='' @ encode_uri_component ?f"
        and path = "''/v1/transcriptions/'' @ ?e @ ''/export''" and e = Export and args = "[i]"])
      (simp_all add: key found e export_transcription_def api_headers_def Let_def)
qed

text \<open>A server whose router takes the first declared route and whose query strings have one parameter.\<close>

definition plain_query :: "string \<Rightarrow> (string \<times> string) list" where
  "plain_query q = (case split_on (CHR ''='') q of
     [k, v] \<Rightarrow> [(k, case percent_decode v of None \<Rightarrow> v | Some bs \<Rightarrow> utf8_decode bs)] | _ \<Rightarrow> [])"

lemma plain_query_format: "plain_query (''format='' @ encode_uri_component f) = [(''format'', f)]"
proof -
  have "\<not> unreserved (CHR ''='')" by (simp add: unreserved_def)
  then have plain: "CHR ''='' \<notin> set (encode_uri_component f)" using encode_chars [of "CHR ''=''" f] by auto
  have "split_on (CHR ''='') (''format='' @ encode_uri_component f) =
      split_on (CHR ''='') (''format'' @ CHR ''='' # encode_uri_component f)" by simp
  also have "\<dots> = [''format'', encode_uri_component f]"
    by (simp only: split_on_append split_on_plain [OF plain]) simp
  finally show ?thesis by (simp add: plain_query_def percent_decode_encode)
qed

definition plain_server :: "((exn, response) result \<Rightarrow> http_response) \<Rightarrow> 'db api_server" where
  "plain_server render = \<lparr>find_route = first_route, parse_query = plain_query, render_answer = render\<rparr>"

lemma plain_server_laws:
  "follows_routes (find_route (plain_server render))"
  "parse_query (plain_server render) (''format='' @ encode_uri_component f) = [(''format'', f)]"
  by (simp_all only: plain_server_def api_server.simps first_route_follows plain_query_format)

theorem proxy_reaches_handlers_witness:
  "\<forall>(env :: table app_env) s render. \<exists>rq. export_transcription None (Some ''k'') (\<lambda>_. Inl (Error ''down'')) ''a b'' None = Inl (Error ''down'') \<and>
    api_serve (plain_server render) env (API_URL None) rq s =
      answer_with_key (plain_server render) env ''k'' (ExportTranscription ''a b'' (Some ''srt'')) s"
proof (intro allI)
  fix env :: "table app_env" and s :: "table api_state" and render
  have "''k'' \<noteq> []" "''a b'' \<notin> {[], ''.'', ''..''}" by simp_all
  from proxy_reaches_handlers [OF this(1) plain_server_laws this(2), of None "\<lambda>_. Inl (Error ''down'')"
      "\<lparr>http_method = ''POST'', url = [], req_headers = [], req_body = None\<rparr>" render env s None]
  show "\<exists>rq. export_transcription None (Some ''k'') (\<lambda>_. Inl (Error ''down'')) ''a b'' None = Inl (Error ''down'') \<and>
    api_serve (plain_server render) env (API_URL None) rq s =
      answer_with_key (plain_server render) env ''k'' (ExportTranscription ''a b'' (Some ''srt'')) s"
    by (elim conjE exE) (rule exI, simp add: export_transcription_def api_headers_def)
qed

end
