(* ===== verification/Py_Json.thy ===== *)
theory Py_Json
  imports JS_Json
begin

text \<open>
  What the worker uses of Python to read a message: decoding UTF-8, \<open>json.loads\<close>, \<open>int(s, base)\<close>
  and \<open>uuid.UUID(s)\<close>. Strings hold code points below 256, as elsewhere in the development; a
  text with others is outside the model, and is treated as one that does not parse.
\<close>

subsection \<open>UTF-8\<close>

fun py_utf8 :: "byte list \<Rightarrow> string option" where
  "py_utf8 [] = Some []"
| "py_utf8 (b # bs) = (if b < 128 then map_option ((#) (char_of b)) (py_utf8 bs)
     else case bs of
       b' # bs' \<Rightarrow> if b \<in> {194, 195} \<and> 128 \<le> b' \<and> b' < 192
         then map_option ((#) (char_of (64 * (b - 192) + (b' - 128)))) (py_utf8 bs') else None
     | [] \<Rightarrow> None)"

lemma py_utf8_unit: "py_utf8 (utf8_unit c @ bs) = map_option ((#) c) (py_utf8 bs)"
proof (cases "of_char c < (128 :: nat)")
  case True
  then show ?thesis by (simp add: utf8_unit_def Let_def)
next
  case False
  have "of_char c < (256 :: nat)" by (rule nat_of_char_less_256)
  then have "of_char c div 64 < (4 :: nat)" by (simp add: less_mult_imp_div_less)
  moreover have "2 \<le> of_char c div (64 :: nat)" using False by simp
  ultimately have "of_char c div 64 \<in> {2, 3 :: nat}" by auto
  moreover have "64 * (of_char c div 64) + of_char c mod 64 = (of_char c :: nat)" by simp
  ultimately show ?thesis using False by (auto simp: utf8_unit_def Let_def)
qed

lemma py_utf8_utf8 [simp]: "py_utf8 (utf8 s) = Some s"
  by (induction s) (simp_all add: utf8_def py_utf8_unit)

subsection \<open>json.loads\<close>

datatype json =
    JNull | JBool bool
  | JInt int
  | JFloat string             \<comment> \<open>a float, by its lexeme\<close>
  | JStr string
  | JArr "json list"
  | JObj "(string \<times> json) list"

definition json_space :: "char \<Rightarrow> bool" where
  "json_space c \<longleftrightarrow> (of_char c :: nat) \<in> {9, 10, 13, 32}"

definition skip_ws :: "string \<Rightarrow> string" where
  "skip_ws = dropWhile json_space"

definition hex_value :: "char \<Rightarrow> nat option" where
  "hex_value c = (let n = of_char c :: nat in
     if 48 \<le> n \<and> n < 58 then Some (n - 48)
     else if 97 \<le> n \<and> n < 103 then Some (n - 87)
     else if 65 \<le> n \<and> n < 71 then Some (n - 55) else None)"

definition json_escape :: "char \<Rightarrow> char option" where
  "json_escape c = (let n = of_char c :: nat in
     if n \<in> {34, 47, 92} then Some c
     else if n = 98 then Some (CHR 0x08)
     else if n = 102 then Some (CHR 0x0C)
     else if n = 110 then Some (CHR 0x0A)
     else if n = 114 then Some (CHR 0x0D)
     else if n = 116 then Some (CHR 0x09) else None)"

fun read_string :: "string \<Rightarrow> (string \<times> string) option" where
  \<comment> \<open>the rest of a string literal after its opening quote, and the text after the closing one\<close>
  "read_string [] = None"
| "read_string (c # cs) =
    (if c = CHR 0x22 then Some ([], cs)
     else if c = CHR 0x5C then (case cs of [] \<Rightarrow> None | e # r \<Rightarrow>
       if e = CHR ''u'' then (case r of
           a # b # d # f # r' \<Rightarrow> (case (hex_value a, hex_value b, hex_value d, hex_value f) of
             (Some 0, Some 0, Some x, Some y) \<Rightarrow>
               map_option (apfst ((#) (char_of (16 * x + y)))) (read_string r')
           | _ \<Rightarrow> None)
         | _ \<Rightarrow> None)
       else (case json_escape e of None \<Rightarrow> None
         | Some ch \<Rightarrow> map_option (apfst ((#) ch)) (read_string r)))
     else if (of_char c :: nat) < 32 then None
     else map_option (apfst ((#) c)) (read_string cs))"

definition read_digits :: "string \<Rightarrow> string \<times> string" where
  "read_digits s = (takeWhile is_digit s, dropWhile is_digit s)"

definition accept :: "char set \<Rightarrow> string \<Rightarrow> string \<times> string" where
  \<comment> \<open>an optional character out of a set\<close>
  "accept C s = (case s of c # r \<Rightarrow> if c \<in> C then ([c], r) else ([], s) | [] \<Rightarrow> ([], s))"

definition read_number :: "string \<Rightarrow> (json \<times> string) option" where
  \<comment> \<open>\<open>(-?(?:0|[1-9][0-9]*))(\.[0-9]+)?([eE][-+]?[0-9]+)?\<close>\<close>
  "read_number s =
    (let (sign, s1) = accept {CHR ''-''} s;
         (zero, s1') = accept {CHR ''0''} s1;
         (ds, s2) = (if zero = [] then read_digits s1 else (zero, s1'));
         (point, f) = accept {CHR ''.''} s2;
         (frac, s3) = (if point = [] \<or> fst (read_digits f) = [] then ([], s2)
           else (point @ fst (read_digits f), snd (read_digits f)));
         (e, s4) = accept {CHR ''e'', CHR ''E''} s3;
         (es, s5) = accept {CHR ''+'', CHR ''-''} s4;
         (expo, rest) = (if e = [] \<or> fst (read_digits s5) = [] then ([], s3)
           else (e @ es @ fst (read_digits s5), snd (read_digits s5)))
     in if ds = [] then None
        else if frac = [] \<and> expo = [] then
          Some (JInt ((if sign = [] then 1 else -1) * int (decimal_value ds)), rest)
        else Some (JFloat (sign @ ds @ frac @ expo), rest))"

text \<open>The recursion is bounded by a depth, which the length of the text always suffices for.\<close>

fun read_value :: "nat \<Rightarrow> string \<Rightarrow> (json \<times> string) option"
  and read_elements :: "nat \<Rightarrow> string \<Rightarrow> (json list \<times> string) option"
  and read_members :: "nat \<Rightarrow> string \<Rightarrow> ((string \<times> json) list \<times> string) option" where
  "read_value 0 s = None"
| "read_value (Suc n) s = (case s of [] \<Rightarrow> None | c # cs \<Rightarrow>
     if c = CHR 0x22 then map_option (apfst JStr) (read_string cs)
     else if c = CHR ''{'' then (case accept {CHR ''}''} (skip_ws cs) of (close, r) \<Rightarrow>
       if close \<noteq> [] then Some (JObj [], r) else map_option (apfst JObj) (read_members n r))
     else if c = CHR ''['' then (case accept {CHR '']''} (skip_ws cs) of (close, r) \<Rightarrow>
       if close \<noteq> [] then Some (JArr [], r) else map_option (apfst JArr) (read_elements n r))
     else if prefix ''null'' s then Some (JNull, drop 4 s)
     else if prefix ''true'' s then Some (JBool True, drop 4 s)
     else if prefix ''false'' s then Some (JBool False, drop 5 s)
     else if prefix ''NaN'' s then Some (JFloat ''NaN'', drop 3 s)
     else if prefix ''Infinity'' s then Some (JFloat ''Infinity'', drop 8 s)
     else if prefix ''-Infinity'' s then Some (JFloat ''-Infinity'', drop 9 s)
     else read_number s)"
| "read_elements 0 s = None"
| "read_elements (Suc n) s = (case read_value n s of None \<Rightarrow> None
   | Some (v, r) \<Rightarrow> (case skip_ws r of [] \<Rightarrow> None | c # r' \<Rightarrow>
       if c = CHR '']'' then Some ([v], r')
       else if c = CHR '','' then map_option (apfst ((#) v)) (read_elements n (skip_ws r'))
       else None))"
| "read_members 0 s = None"
| "read_members (Suc n) s = (case s of [] \<Rightarrow> None | c # cs \<Rightarrow>
     if c \<noteq> CHR 0x22 then None else (case read_string cs of None \<Rightarrow> None
   | Some (k, r) \<Rightarrow> (case skip_ws r of [] \<Rightarrow> None | c # r' \<Rightarrow>
     if c \<noteq> CHR '':'' then None else (case read_value n (skip_ws r') of None \<Rightarrow> None
     | Some (v, r'') \<Rightarrow> (case skip_ws r'' of [] \<Rightarrow> None | c # q \<Rightarrow>
         if c = CHR ''}'' then Some ([(k, v)], q)
         else if c = CHR '','' then map_option (apfst ((#) (k, v))) (read_members n (skip_ws q))
         else None)))))"

definition json_loads :: "string \<Rightarrow> json option" where
  "json_loads s = (case read_value (2 * length s + 1) (skip_ws s) of
     Some (v, r) \<Rightarrow> if skip_ws r = [] then Some v else None
   | None \<Rightarrow> None)"

definition json_get :: "json \<Rightarrow> string \<Rightarrow> json option" where
  \<comment> \<open>\<open>payload[key]\<close>; \<open>None\<close> for a KeyError or TypeError. The last of equal keys counts.\<close>
  "json_get v k = (case v of JObj ms \<Rightarrow> map_of (rev ms) k | _ \<Rightarrow> None)"

subsection \<open>Reading back what JSON.stringify writes\<close>

lemma char_of_eq: "of_char c = n \<Longrightarrow> char_of (n :: nat) = c"
  by auto

lemma escaped_chars:
  assumes "(of_char c :: nat) \<in> {34, 92, 8, 9, 10, 12, 13}"
  shows "c \<in> {CHR 0x22, CHR 0x5C, CHR 0x08, CHR 0x09, CHR 0x0A, CHR 0x0C, CHR 0x0D}"
proof -
  have "c = d" if "(of_char c :: nat) = of_char d" for d
    using that by (rule injD [OF inj_of_char])
  from this [of "CHR 0x22"] this [of "CHR 0x5C"] this [of "CHR 0x08"] this [of "CHR 0x09"]
    this [of "CHR 0x0A"] this [of "CHR 0x0C"] this [of "CHR 0x0D"] assms
  show ?thesis by (elim insertE emptyE) simp_all
qed

lemma hex_value_digit: "d < 16 \<Longrightarrow> hex_value (hex_digit d) = Some d"
  by (auto simp: hex_value_def hex_digit_def Let_def)

lemma read_string_json_char:
  "read_string (json_char c @ r) = map_option (apfst ((#) c)) (read_string r)"
proof -
  let ?n = "of_char c :: nat"
  have n: "?n < 256" by (rule nat_of_char_less_256)
  consider (special) "?n \<in> {34, 92, 8, 9, 10, 12, 13}"
    | (control) "?n < 32" "?n \<notin> {8, 9, 10, 12, 13}"
    | (plain) "32 \<le> ?n" "?n \<noteq> 34" "?n \<noteq> 92" by force
  then show ?thesis
  proof cases
    case special
    then have "c \<in> {CHR 0x22, CHR 0x5C, CHR 0x08, CHR 0x09, CHR 0x0A, CHR 0x0C, CHR 0x0D}"
      by (rule escaped_chars)
    then show ?thesis
      by (elim insertE emptyE) (simp_all add: json_char_def json_escape_def)
  next
    case control
    have "hex_value (hex_digit (?n div 16)) = Some (?n div 16)" "hex_value (hex_digit (?n mod 16)) = Some (?n mod 16)"
      using control(1) by (simp_all add: hex_value_digit)
    moreover have "hex_value (CHR ''0'') = Some 0" by (simp add: hex_value_def)
    moreover have "json_char c = CHR 0x5C # ''u00'' @ [hex_digit (?n div 16), hex_digit (?n mod 16)]"
      using control by (auto simp: json_char_def Let_def)
    ultimately show ?thesis by simp
  next
    case plain
    moreover have "c \<noteq> CHR 0x22" "c \<noteq> CHR 0x5C" using plain by auto
    ultimately show ?thesis by (simp add: json_char_def Let_def)
  qed
qed

lemma read_string_json_string:
  "read_string (concat (map json_char s) @ CHR 0x22 # r) = Some (s, r)"
  by (induction s) (simp_all add: read_string_json_char)

declare read_string.simps [simp del]

lemma read_value_string: "read_value (Suc n) (json_string s @ r) = Some (JStr s, r)"
  by (simp add: json_string_def read_string_json_string)

lemma read_digits_append:
  "list_all is_digit ds \<Longrightarrow> (case r of [] \<Rightarrow> True | c # _ \<Rightarrow> \<not> is_digit c) \<Longrightarrow> read_digits (ds @ r) = (ds, r)"
  by (cases r) (auto simp: read_digits_def list_all_iff takeWhile_append2 dropWhile_append2)

subsection \<open>int(s, base) and uuid.UUID(s)\<close>

definition py_space :: "char \<Rightarrow> bool" where
  "py_space c \<longleftrightarrow> (of_char c :: nat) \<in> {9, 10, 11, 12, 13, 28, 29, 30, 31, 32, 133, 160}"

definition py_strip :: "string \<Rightarrow> string" where
  "py_strip s = rev (dropWhile py_space (rev (dropWhile py_space s)))"

definition py_digit :: "int \<Rightarrow> char \<Rightarrow> int option" where
  "py_digit base c = (let n = of_char c :: int;
       v = (if 48 \<le> n \<and> n < 58 then n - 48 else if 97 \<le> n \<and> n < 123 then n - 87
            else if 65 \<le> n \<and> n < 91 then n - 55 else 36)
     in if v < base then Some v else None)"

fun py_digits :: "int \<Rightarrow> int \<Rightarrow> bool \<Rightarrow> string \<Rightarrow> int option" where
  \<comment> \<open>single underscores may separate digits; the flag tells that the last character was a digit\<close>
  "py_digits base acc prev [] = (if prev then Some acc else None)"
| "py_digits base acc prev (c # cs) =
    (if c = CHR ''_'' then (if prev then py_digits base acc False cs else None)
     else case py_digit base c of None \<Rightarrow> None | Some d \<Rightarrow> py_digits base (base * acc + d) True cs)"

definition py_int_of_string :: "int \<Rightarrow> string \<Rightarrow> int option" where
  \<comment> \<open>base 10 or 16; \<open>None\<close> is a ValueError\<close>
  "py_int_of_string base s = (let s1 = py_strip s;
     (sign, s2) = accept {CHR ''-'', CHR ''+''} s1;
     s3 = (if base = 16 \<and> (prefix ''0x'' s2 \<or> prefix ''0X'' s2) then
        snd (accept {CHR ''_''} (drop 2 s2)) else s2)
   in map_option (\<lambda>n. if sign = ''-'' then - n else n) (py_digits base 0 False s3))"

function py_remove :: "string \<Rightarrow> string \<Rightarrow> string" where
  \<comment> \<open>\<open>s.replace(p, '')\<close>, for a non-empty \<open>p\<close>\<close>
  "py_remove p [] = []"
| "py_remove p (c # cs) = (if p \<noteq> [] \<and> prefix p (c # cs) then py_remove p (drop (length p) (c # cs))
     else c # py_remove p cs)"
  by pat_completeness auto
termination by (relation "measure (length \<circ> snd)") (auto simp: Suc_le_eq dest: prefix_length_le)

definition py_uuid_ok :: "string \<Rightarrow> bool" where
  \<comment> \<open>\<open>uuid.UUID(s)\<close> does not raise: 32 characters that read as a hexadecimal number\<close>
  "py_uuid_ok s = (let braces = (\<lambda>c. c \<in> {CHR ''{'', CHR ''}''});
     u = py_remove ''uuid:'' (py_remove ''urn:'' s);
     h = filter (\<lambda>c. c \<noteq> CHR ''-'') (rev (dropWhile braces (rev (dropWhile braces u))))
   in length h = 32 \<and> py_int_of_string 16 h \<noteq> None)"

end
