(* ===== verification/Worker_Message.thy ===== *)
theory Worker_Message
  imports Py_Json Publisher JS_Number
begin

text \<open>
  How the worker reads a message (\<open>worker/main.py\<close>, the first try block of \<open>handle_message\<close> and
  the header of \<open>handle_failure\<close>) and how it decides about a retry (\<open>worker/retry.py\<close>).
\<close>

datatype py_exception =
    ValueError | TypeError | KeyError | IndexError | OverflowError | AttributeError | Raised string

subsection \<open>The body\<close>

definition py_str :: "(json \<Rightarrow> string) \<Rightarrow> json \<Rightarrow> string" where
  \<comment> \<open>\<open>str(v)\<close>; what Python prints for floats, lists and dicts is a parameter\<close>
  "py_str repr v = (case v of JStr s \<Rightarrow> s | JNull \<Rightarrow> ''None'' | JBool b \<Rightarrow> if b then ''True'' else ''False''
     | JInt i \<Rightarrow> js_string_of_int i | _ \<Rightarrow> repr v)"

definition parse_message :: "(json \<Rightarrow> string) \<Rightarrow> byte list \<Rightarrow> (string \<times> string) option" where
  \<comment> \<open>the job id and the file path; \<open>None\<close> when the try block catches an exception\<close>
  "parse_message repr body = Option.bind (py_utf8 body) (\<lambda>text.
     Option.bind (json_loads text) (\<lambda>payload.
     Option.bind (json_get payload ''jobId'') (\<lambda>j. let job_id = py_str repr j in
     if \<not> py_uuid_ok job_id then None
     else Option.bind (json_get payload ''filePath'') (\<lambda>f. Some (job_id, py_str repr f)))))"

text \<open>The reader of the worker inverts the writer of the API, up to the check of the id.\<close>

lemma json_space_simps [simp]:
  "\<not> json_space (CHR 0x22)" "\<not> json_space (CHR ''{'')" "\<not> json_space (CHR ''}'')"
  "\<not> json_space (CHR '','')" "\<not> json_space (CHR '':'')"
  by (simp_all add: json_space_def)

lemma skip_ws_simps [simp]: "skip_ws [] = []" "\<not> json_space c \<Longrightarrow> skip_ws (c # s) = c # s"
  by (simp_all add: skip_ws_def)

lemma is_digit_not_space: "is_digit c \<Longrightarrow> \<not> json_space c"
  by (auto simp: is_digit_def json_space_def)

lemma json_string_head: "json_string s = CHR 0x22 # concat (map json_char s) @ [CHR 0x22]"
  by (simp add: json_string_def)

lemma read_members_string:
  assumes "\<not> json_space c"
  shows "read_members (Suc (Suc n)) (json_string k @ CHR '':'' # json_string v @ c # r) =
    (if c = CHR ''}'' then Some ([(k, JStr v)], r)
     else if c = CHR '','' then map_option (apfst ((#) (k, JStr v))) (read_members (Suc n) (skip_ws r))
     else None)"
proof -
  have k: "read_string (concat (map json_char k) @ CHR 0x22 # x) = Some (k, x)" for x
    by (rule read_string_json_string)
  have v: "read_value (Suc n) (json_string v @ c # r) = Some (JStr v, c # r)"
    by (rule read_value_string)
  then show ?thesis using assms k
    by (simp add: json_string_head del: read_value.simps)
qed

lemma digits_head:
  assumes "0 < n"
  shows "\<exists>d ds. digits n = d # ds \<and> is_digit d \<and> d \<noteq> CHR ''0''"
  using assms
proof (induction n rule: digits.induct)
  case (1 n)
  show ?case
  proof (cases "n < 10")
    case True
    have "digit_char n \<noteq> CHR ''0''"
    proof
      assume "digit_char n = CHR ''0''"
      then have "(of_char (digit_char n) :: nat) = 48" by simp
      with True "1.prems" show False by simp
    qed
    with True show ?thesis by (simp add: digits.simps [of n])
  next
    case False
    then have "0 < n div 10" by (simp add: div_greater_zero_iff)
    with 1(1) [OF False] obtain d ds where "digits (n div 10) = d # ds" "is_digit d" "d \<noteq> CHR ''0''"
      by blast
    with False show ?thesis by (simp add: digits.simps [of n])
  qed
qed

lemma read_number_digits: "read_number (digits n @ CHR ''}'' # r) = Some (JInt (int n), CHR ''}'' # r)"
proof (cases "n = 0")
  case True
  have "digits 0 = ''0''" by code_simp
  then show ?thesis
    by (simp add: True read_number_def accept_def Let_def decimal_value_def)
next
  case False
  then obtain d ds where d: "digits n = d # ds" "is_digit d" "d \<noteq> CHR ''0''" using digits_head [of n] by auto
  then have "d \<noteq> CHR ''-''" by (auto simp: is_digit_def)
  moreover have "read_digits (digits n @ CHR ''}'' # r) = (digits n, CHR ''}'' # r)"
    by (rule read_digits_append) (simp_all add: is_digit_def)
  moreover have "decimal_value (d # ds) = n" using d(1) by (metis decimal_value_digits)
  ultimately show ?thesis using d by (simp add: read_number_def accept_def Let_def)
qed

lemma read_value_digits:
  "read_value (Suc k) (digits n @ CHR ''}'' # r) = Some (JInt (int n), CHR ''}'' # r)"
proof -
  obtain d ds where d: "digits n = d # ds" "is_digit d"
    using digits_are_digits [of n] digits_nonempty [of n] by (cases "digits n") auto
  have "d \<noteq> x \<and> x \<noteq> d" if "\<not> is_digit x" for x using d(2) that by auto
  then have ne: "d \<noteq> x" "x \<noteq> d" if "\<not> is_digit x" for x using that by blast+
  show ?thesis using read_number_digits [of n r] unfolding d(1) append_Cons
    by (simp add: ne is_digit_def del: append.append_Cons)
qed

lemma read_members_number:
  "read_members (Suc (Suc k)) (json_string key @ CHR '':'' # digits n @ CHR ''}'' # r) =
    Some ([(key, JInt (int n))], r)"
proof -
  have k: "read_string (concat (map json_char key) @ CHR 0x22 # x) = Some (key, x)" for x
    by (rule read_string_json_string)
  obtain d ds where d: "digits n = d # ds" "is_digit d"
    using digits_are_digits [of n] digits_nonempty [of n] by (cases "digits n") auto
  then have "skip_ws (digits n @ x) = digits n @ x" for x by (simp add: is_digit_not_space)
  then show ?thesis using k read_value_digits [of k n r]
    by (simp add: json_string_head del: read_value.simps)
qed

lemma stringify_message_shape:
  "stringify_message m = CHR ''{'' # json_string ''jobId'' @ CHR '':'' # json_string (m_jobId m) @
    CHR '','' # json_string ''filePath'' @ CHR '':'' # json_string (m_filePath m) @
    CHR '','' # json_string ''attempt'' @ CHR '':'' # js_string_of_int (m_attempt m) @ ''}''"
  by (simp add: stringify_message_def json_object_def js_join_Cons)

lemma json_string_start:
  "skip_ws (json_string s @ r) = json_string s @ r"
  "accept {CHR ''}''} (json_string s @ r) = ([], json_string s @ r)"
  by (simp_all add: json_string_head accept_def)

lemma read_object: "read_value (Suc n) (CHR ''{'' # json_string s @ r) =
    map_option (apfst JObj) (read_members n (json_string s @ r))"
  by (simp add: json_string_start)

lemma json_loads_message:
  assumes "m_attempt m = int n"
  shows "json_loads (stringify_message m) = Some (JObj [(''jobId'', JStr (m_jobId m)),
    (''filePath'', JStr (m_filePath m)), (''attempt'', JInt (m_attempt m))])"
proof -
  have "5 \<le> 2 * length (stringify_message m) + 1"
    by (simp add: stringify_message_shape json_string_head)
  then have "\<exists>k. 2 * length (stringify_message m) + 1 = 5 + k" by (rule le_Suc_ex)
  then obtain k where k: "2 * length (stringify_message m) + 1 = Suc (Suc (Suc (Suc (Suc k))))"
    by (auto simp: eval_nat_numeral)
  let ?tail = "CHR '':'' # digits n @ CHR ''}'' # []"
  have skip: "skip_ws (stringify_message m) = stringify_message m"
    by (simp add: stringify_message_shape)
  have "read_value (Suc (Suc (Suc (Suc (Suc k))))) (stringify_message m) = Some (JObj [(''jobId'', JStr (m_jobId m)),
    (''filePath'', JStr (m_filePath m)), (''attempt'', JInt (m_attempt m))], [])"
    unfolding stringify_message_shape read_object
    by (simp add: read_members_string json_string_start read_members_number assms
        del: read_members.simps read_value.simps)
  then show ?thesis unfolding json_loads_def k skip by simp
qed

lemma parse_api_message:
  "parse_message repr (utf8 (stringify_message \<lparr>m_jobId = i, m_filePath = p, m_attempt = int n\<rparr>)) =
    (if py_uuid_ok i then Some (i, p) else None)"
  using json_loads_message [of "\<lparr>m_jobId = i, m_filePath = p, m_attempt = int n\<rparr>" n]
  by (simp add: parse_message_def json_get_def py_str_def Let_def)

text \<open>
  C15. The two services agree on the message. What the worker reads from the bytes the API
  publishes is exactly the job id and the file path the API put in, whatever characters the path
  contains (they are escaped and encoded), provided the id is a UUID; any other id makes the
  worker park the message.
\<close>

theorem message_roundtrip:
  "parse_message repr (utf8 (stringify_message \<lparr>m_jobId = i, m_filePath = p, m_attempt = int n\<rparr>)) =
    (if py_uuid_ok i then Some (i, p) else None)"
  by (rule parse_api_message)

subsection \<open>Retries\<close>

definition RETRY_TTLS_MS :: "int list" where
  "RETRY_TTLS_MS = [10000, 30000, 90000]"

definition MAX_RETRIES :: int where
  "MAX_RETRIES = int (length RETRY_TTLS_MS)"

datatype decision = Retry int | Dead

definition py_index :: "'a list \<Rightarrow> int \<Rightarrow> (py_exception, 'a) result" where
  \<comment> \<open>\<open>xs[i]\<close>: a negative index counts from the end\<close>
  "py_index xs i = (let n = int (length xs); j = (if i < 0 then i + n else i)
     in if 0 \<le> j \<and> j < n then Inr (xs ! nat j) else Inl IndexError)"

definition decide :: "int \<Rightarrow> (py_exception, decision) result" where
  "decide retry_count = (if retry_count < MAX_RETRIES
     then bind_result (py_index RETRY_TTLS_MS retry_count) (\<lambda>ttl_ms. Inr (Retry ttl_ms))
     else Inr Dead)"

text \<open>A value in the header table of a message, and \<open>int(v)\<close> of it.\<close>

datatype header_value =
    H_int int | H_str string | H_bool bool
  | H_float f64               \<comment> \<open>a finite float\<close>
  | H_nan | H_infinity
  | H_other                   \<comment> \<open>\<open>None\<close>, a list, a table, a timestamp\<close>

definition py_int :: "header_value \<Rightarrow> (py_exception, int) result" where
  "py_int v = (case v of H_int i \<Rightarrow> Inr i | H_bool b \<Rightarrow> Inr (if b then 1 else 0)
     | H_str s \<Rightarrow> (case py_int_of_string 10 s of Some i \<Rightarrow> Inr i | None \<Rightarrow> Inl ValueError)
     | H_float x \<Rightarrow> Inr (if 0 \<le> x then \<lfloor>x\<rfloor> else - \<lfloor>- x\<rfloor>)
     | H_nan \<Rightarrow> Inl ValueError | H_infinity \<Rightarrow> Inl OverflowError | H_other \<Rightarrow> Inl TypeError)"

type_synonym headers = "(string \<times> header_value) list"

definition RETRY_COUNT_HEADER :: string where "RETRY_COUNT_HEADER = ''x-retry-count''"

definition retry_count_of :: "headers \<Rightarrow> (py_exception, int) result" where
  "retry_count_of hs = (case py_int (case map_of hs RETRY_COUNT_HEADER of None \<Rightarrow> H_int 0 | Some v \<Rightarrow> v) of
     Inl TypeError \<Rightarrow> Inr MAX_RETRIES
   | Inl ValueError \<Rightarrow> Inr MAX_RETRIES
   | r \<Rightarrow> r)"

lemma decide_simps:
  "decide 0 = Inr (Retry 10000)" "decide 1 = Inr (Retry 30000)" "decide 2 = Inr (Retry 90000)"
  "3 \<le> n \<Longrightarrow> decide n = Inr Dead"
  by (simp_all add: decide_def MAX_RETRIES_def RETRY_TTLS_MS_def py_index_def Let_def)

text \<open>
  The retry table. A count of 0, 1 or 2 is retried after 10, 30 or 90 seconds, as the contract
  says, and from 3 on the job is given up; but the decision is only defined from -3 on: the
  negative counts -1, -2 and -3 index the table from its end, so a job with such a count gets
  extra retries in the wrong order, and below -3 the decision raises an IndexError.
\<close>

theorem decide_table:
  "decide n =
    (if n \<le> -4 then Inl IndexError
     else if n = -3 \<or> n = 0 then Inr (Retry 10000)
     else if n = -2 \<or> n = 1 then Inr (Retry 30000)
     else if n = -1 \<or> n = 2 then Inr (Retry 90000) else Inr Dead)"
proof -
  consider "n \<le> -4" | "n = -3" | "n = -2" | "n = -1" | "n = 0" | "n = 1" | "n = 2" | "3 \<le> n" by linarith
  then show ?thesis
    by cases (simp_all add: decide_def MAX_RETRIES_def RETRY_TTLS_MS_def py_index_def Let_def)
qed

end
