(* ===== verification/Audio.thy ===== *)
theory Audio
  imports Worker_Message
begin

text \<open>
  The subprocesses of the worker (\<open>worker/audio.py\<close>): ffprobe and ffmpeg with their time limits,
  what \<open>probe\<close> reads out of ffprobe's answer, and the errors. The programs are a parameter: what a
  command does within its time limit. A function that runs commands returns its result together with
  a log of them: \<open>run_command\<close> writes the command and the time limit it was called with, and the log of
  a composed call is what its parts have logged.

  \<open>AudioProcessingError\<close> is the exception \<open>Raised\<close> with its message. Numbers have no upper bound
  here; what Python makes of those beyond the range of a float is written out.
\<close>

subsection \<open>Commands\<close>

type_synonym command = "string list"

record completed_process =
  returncode :: int
  proc_stdout :: string
  proc_stderr :: string

datatype subprocess_result =
    Exited completed_process
  | Timed_out
  | Not_run py_exception      \<comment> \<open>it cannot be started, or its output not decoded\<close>

type_synonym subprocess = "command \<Rightarrow> int \<Rightarrow> subprocess_result"

definition PROBE_TIMEOUT_SEC :: int where "PROBE_TIMEOUT_SEC = 60"
definition NORMALIZE_TIMEOUT_SEC :: int where "NORMALIZE_TIMEOUT_SEC = 600"
definition STDERR_TAIL_CHARS :: nat where "STDERR_TAIL_CHARS = 400"

lemmas audio_constants = PROBE_TIMEOUT_SEC_def NORMALIZE_TIMEOUT_SEC_def STDERR_TAIL_CHARS_def

type_synonym 'a ran = "(py_exception, 'a) result \<times> (command \<times> int) list"

definition run_command :: "subprocess \<Rightarrow> command \<Rightarrow> int \<Rightarrow> completed_process ran" where
  \<comment> \<open>\<open>_run\<close>\<close>
  "run_command sp cmd timeout_sec = (case sp cmd timeout_sec of
     Exited r \<Rightarrow> Inr r
   | Timed_out \<Rightarrow> Inl (Raised (hd cmd @ '' timed out after '' @ js_string_of_int timeout_sec @ ''s''))
   | Not_run e \<Rightarrow> Inl e, [(cmd, timeout_sec)])"

definition and_then :: "'a ran \<Rightarrow> ('a \<Rightarrow> 'b ran) \<Rightarrow> 'b ran" where
  "and_then m f = (case m of (Inl e, cmds) \<Rightarrow> (Inl e, cmds)
     | (Inr x, cmds) \<Rightarrow> (case f x of (r, cmds') \<Rightarrow> (r, cmds @ cmds')))"

definition no_command :: "(py_exception, 'a) result \<Rightarrow> 'a ran" where
  "no_command r = (r, [])"

lemma and_then_pure: "and_then m (\<lambda>x. no_command (f x)) = (bind_result (fst m) f, snd m)"
  by (cases m) (simp add: and_then_def no_command_def bind_result_def split: sum.split)

lemma run_command_log [simp]: "snd (run_command sp cmd t) = [(cmd, t)]"
  by (simp add: run_command_def)

definition tail :: "string \<Rightarrow> string" where
  \<comment> \<open>\<open>stderr.strip()[-STDERR_TAIL_CHARS:]\<close>\<close>
  "tail stderr = (let s = py_strip stderr in drop (length s - STDERR_TAIL_CHARS) s)"

subsection \<open>float(x)\<close>

datatype py_float = Finite f64 | Infinite bool | Not_a_number  \<comment> \<open>the flag: negative\<close>

definition FLOAT_LIMIT :: rat where "FLOAT_LIMIT = 2 ^ 1024"

definition to_py_float :: "rat \<Rightarrow> py_float" where
  "to_py_float x = (if \<bar>fl x\<bar> < FLOAT_LIMIT then Finite (fl x) else Infinite (x < 0))"

definition part_digits :: "string \<Rightarrow> (nat \<times> nat) option" where
  \<comment> \<open>the value and the number of digits of a part that may be empty\<close>
  "part_digits s = (if s = [] then Some (0, 0) else map_option (\<lambda>v. (nat v, length (filter is_digit s)))
     (py_digits 10 0 False s))"

definition py_exponent :: "string \<Rightarrow> int option" where
  "py_exponent x = (let (sign, d) = accept {CHR ''+'', CHR ''-''} x in
     map_option (\<lambda>v. if sign = ''-'' then - v else v) (py_digits 10 0 False d))"

definition py_mantissa :: "string \<Rightarrow> rat option" where
  "py_mantissa m = (case split_on (CHR ''.'') m of
     [a] \<Rightarrow> map_option of_int (py_digits 10 0 False a)
   | [a, b] \<Rightarrow> if a = [] \<and> b = [] then None else Option.bind (part_digits a) (\<lambda>(x, _).
       map_option (\<lambda>(y, n). of_nat x + of_nat y / 10 ^ n) (part_digits b))
   | _ \<Rightarrow> None)"

definition py_float_of_string :: "string \<Rightarrow> py_float option" where
  \<comment> \<open>\<open>float(s)\<close>; \<open>None\<close> is a ValueError\<close>
  "py_float_of_string s = (let (sign, r) = accept {CHR ''+'', CHR ''-''} (py_strip s);
       neg = (sign = ''-''); low = to_lower_case r in
     if low \<in> {''inf'', ''infinity''} then Some (Infinite neg)
     else if low = ''nan'' then Some Not_a_number
     else case split_on (CHR ''e'') low of
       [m] \<Rightarrow> map_option (\<lambda>v. to_py_float (if neg then - v else v)) (py_mantissa m)
     | [m, x] \<Rightarrow> Option.bind (py_mantissa m) (\<lambda>v. map_option (\<lambda>e.
         to_py_float ((if neg then - v else v) * 10 powi e)) (py_exponent x))
     | _ \<Rightarrow> None)"

definition py_float_of :: "json \<Rightarrow> (py_exception, py_float) result" where
  "py_float_of v = (case v of
     JStr s \<Rightarrow> (case py_float_of_string s of None \<Rightarrow> Inl ValueError | Some x \<Rightarrow> Inr x)
   | JFloat s \<Rightarrow> (case py_float_of_string s of None \<Rightarrow> Inl ValueError | Some x \<Rightarrow> Inr x)
   | JInt n \<Rightarrow> (case to_py_float (of_int n) of Finite x \<Rightarrow> Inr (Finite x) | _ \<Rightarrow> Inl OverflowError)
   | JBool b \<Rightarrow> Inr (Finite (if b then 1 else 0))
   | _ \<Rightarrow> Inl TypeError)"

subsection \<open>ffprobe's answer\<close>

definition dict_get :: "json \<Rightarrow> string \<Rightarrow> json \<Rightarrow> (py_exception, json) result" where
  \<comment> \<open>\<open>v.get(key, default)\<close>\<close>
  "dict_get v key deflt = (case v of
     JObj _ \<Rightarrow> Inr (case json_get v key of None \<Rightarrow> deflt | Some x \<Rightarrow> x)
   | _ \<Rightarrow> Inl AttributeError)"

definition iterate :: "json \<Rightarrow> (py_exception, json list) result" where
  \<comment> \<open>what \<open>for s in v\<close> goes through\<close>
  "iterate v = (case v of
     JArr xs \<Rightarrow> Inr xs
   | JObj ms \<Rightarrow> Inr (map (JStr \<circ> fst) ms)
   | JStr s \<Rightarrow> Inr (map (\<lambda>c. JStr [c]) s)
   | _ \<Rightarrow> Inl TypeError)"

fun any_audio :: "json list \<Rightarrow> (py_exception, bool) result" where
  \<comment> \<open>\<open>any(s.get("codec_type") == "audio" for s in streams)\<close>, which stops at the first\<close>
  "any_audio [] = Inr False"
| "any_audio (s # ss) = bind_result (dict_get s ''codec_type'' JNull) (\<lambda>t.
     if t = JStr ''audio'' then Inr True else any_audio ss)"

definition read_probe :: "string \<Rightarrow> (py_exception, py_float) result" where
  \<comment> \<open>\<open>probe\<close> from \<open>json.loads\<close> on\<close>
  "read_probe out = (case json_loads out of None \<Rightarrow> Inl ValueError | Some data \<Rightarrow>
     bind_result (dict_get data ''streams'' (JArr [])) (\<lambda>streams.
     bind_result (iterate streams) (\<lambda>ss.
     bind_result (any_audio ss) (\<lambda>found.
     if \<not> found then Inl (Raised ''file contains no audio stream'')
     else bind_result (dict_get data ''format'' (JObj [])) (\<lambda>fmt.
     bind_result (dict_get fmt ''duration'' JNull) (\<lambda>duration_raw.
     if duration_raw = JNull then Inl (Raised ''could not determine audio duration'')
     else py_float_of duration_raw))))))"

subsection \<open>The three calls\<close>

definition probe_command :: "string \<Rightarrow> command" where
  "probe_command path = [''ffprobe'', ''-v'', ''error'', ''-print_format'', ''json'', ''-show_format'', ''-show_streams'', path]"

definition probe :: "subprocess \<Rightarrow> string \<Rightarrow> py_float ran" where
  "probe sp path = and_then (run_command sp (probe_command path) PROBE_TIMEOUT_SEC) (\<lambda>result.
     no_command (if returncode result \<noteq> 0
     then Inl (Raised (''ffprobe rejected the file: '' @ tail (proc_stderr result)))
     else read_probe (proc_stdout result)))"

definition join_path :: "string \<Rightarrow> string \<Rightarrow> string" where
  \<comment> \<open>\<open>directory / name\<close>\<close>
  "join_path dir name = (if dir = [] \<or> last dir = CHR ''/'' then dir @ name else dir @ CHR ''/'' # name)"

definition parent_of :: "string \<Rightarrow> string" where
  "parent_of p = (case dropWhile (\<lambda>c. c \<noteq> CHR ''/'') (rev p) of [] \<Rightarrow> []
     | _ # d \<Rightarrow> if d = [] then ''/'' else rev d)"

definition normalize_command :: "string \<Rightarrow> string \<Rightarrow> command" where
  "normalize_command src out = [''ffmpeg'', ''-y'', ''-i'', src, ''-vn'', ''-ar'', ''16000'', ''-ac'', ''1'',
     ''-sample_fmt'', ''s16'', out]"

definition normalize :: "subprocess \<Rightarrow> string \<Rightarrow> string \<Rightarrow> string ran" where
  "normalize sp src out_dir = (let out_path = join_path out_dir ''normalized.wav'' in
     and_then (run_command sp (normalize_command src out_path) NORMALIZE_TIMEOUT_SEC) (\<lambda>result.
     no_command (if returncode result \<noteq> 0
     then Inl (Raised (''ffmpeg normalization failed: '' @ tail (proc_stderr result)))
     else Inr out_path)))"

definition chunk_name :: "nat \<Rightarrow> string" where
  "chunk_name index = ''chunk-'' @ pad_start 4 (CHR ''0'') (digits index) @ ''.wav''"

definition cut_wav :: "subprocess \<Rightarrow> (f64 \<Rightarrow> string) \<Rightarrow> string \<Rightarrow> f64 \<Rightarrow> f64 \<Rightarrow> nat \<Rightarrow> string ran" where
  \<comment> \<open>\<open>slice_wav\<close>; how Python prints a float is a parameter\<close>
  "cut_wav sp show_float src start_sec length_sec index = (let out_path = join_path (parent_of src) (chunk_name index) in
     and_then (run_command sp [''ffmpeg'', ''-y'', ''-i'', src, ''-ss'', show_float start_sec, ''-t'',
       show_float length_sec, out_path] NORMALIZE_TIMEOUT_SEC) (\<lambda>result.
     no_command (if returncode result \<noteq> 0
     then Inl (Raised (''ffmpeg chunking failed: '' @ tail (proc_stderr result)))
     else Inr out_path)))"

text \<open>The result of a call, and the one command it runs with its time limit.\<close>

lemma probe_result:
  "fst (probe sp path) = bind_result (fst (run_command sp (probe_command path) 60)) (\<lambda>result.
     if returncode result \<noteq> 0
     then Inl (Raised (''ffprobe rejected the file: '' @ tail (proc_stderr result)))
     else read_probe (proc_stdout result))"
  "snd (probe sp path) = [(probe_command path, 60)]"
  unfolding probe_def and_then_pure by (simp_all add: PROBE_TIMEOUT_SEC_def)

lemma normalize_result:
  "fst (normalize sp src dir) = bind_result (fst (run_command sp
       (normalize_command src (join_path dir ''normalized.wav'')) 600)) (\<lambda>result.
     if returncode result \<noteq> 0
     then Inl (Raised (''ffmpeg normalization failed: '' @ tail (proc_stderr result)))
     else Inr (join_path dir ''normalized.wav''))"
  "snd (normalize sp src dir) = [(normalize_command src (join_path dir ''normalized.wav''), 600)]"
  unfolding normalize_def Let_def and_then_pure by (simp_all add: NORMALIZE_TIMEOUT_SEC_def)

definition cut_command :: "(f64 \<Rightarrow> string) \<Rightarrow> string \<Rightarrow> f64 \<Rightarrow> f64 \<Rightarrow> string \<Rightarrow> command" where
  "cut_command show_float src start_sec length_sec out_path = [''ffmpeg'', ''-y'', ''-i'', src, ''-ss'',
     show_float start_sec, ''-t'', show_float length_sec, out_path]"

lemma cut_wav_result:
  "fst (cut_wav sp show_float src a b i) = bind_result (fst (run_command sp
       (cut_command show_float src a b (join_path (parent_of src) (chunk_name i))) 600)) (\<lambda>result.
     if returncode result \<noteq> 0
     then Inl (Raised (''ffmpeg chunking failed: '' @ tail (proc_stderr result)))
     else Inr (join_path (parent_of src) (chunk_name i)))"
  "snd (cut_wav sp show_float src a b i) =
     [(cut_command show_float src a b (join_path (parent_of src) (chunk_name i)), 600)]"
  unfolding cut_wav_def Let_def and_then_pure by (simp_all add: NORMALIZE_TIMEOUT_SEC_def cut_command_def)

subsection \<open>Reading a duration\<close>

lemma digit_facts:
  assumes "is_digit c"
  shows "\<not> py_space c" "c \<noteq> CHR ''_''" "c \<noteq> CHR ''.''" "c \<noteq> CHR ''e''" "lower_unit c = c"
    "c \<noteq> CHR ''+''" "c \<noteq> CHR ''-''" "c \<noteq> CHR ''i''" "c \<noteq> CHR ''n''"
    "py_digit 10 c = Some (int (of_char c - 48))"
proof -
  have "(of_char c :: int) = int (of_char c)" by (simp only: of_nat_of_char)
  then show "py_digit 10 c = Some (int (of_char c - 48))"
    using assms by (simp add: is_digit_def py_digit_def Let_def)
qed (use assms in \<open>auto simp: is_digit_def py_space_def lower_unit_def Let_def\<close>)

lemma py_digits_decimal:
  "list_all is_digit ds \<Longrightarrow> ds \<noteq> [] \<or> prev \<Longrightarrow>
    py_digits 10 (int a) prev ds = Some (int (foldl (\<lambda>a c. 10 * a + (of_char c - 48)) a ds))"
proof (induction ds arbitrary: a prev)
  case (Cons c cs)
  let ?a = "10 * a + (of_char c - 48) :: nat"
  from Cons.prems have c: "is_digit c" "list_all is_digit cs" by simp_all
  have "py_digits 10 (int a) prev (c # cs) = py_digits 10 (10 * int a + int (of_char c - 48)) True cs"
    unfolding py_digits.simps if_not_P [OF digit_facts(2) [OF c(1)]] digit_facts(10) [OF c(1)] option.case ..
  also have "10 * int a + int (of_char c - 48) = int ?a" by simp
  also have "py_digits 10 (int ?a) True cs = Some (int (foldl (\<lambda>a c. 10 * a + (of_char c - 48)) ?a cs))"
    using Cons.IH [OF c(2), of True ?a] by simp
  finally show ?case by simp
qed simp

lemma py_digits_value: "list_all is_digit ds \<Longrightarrow> ds \<noteq> [] \<Longrightarrow> py_digits 10 0 False ds = Some (int (decimal_value ds))"
  using py_digits_decimal [of ds False 0] by (simp add: decimal_value_def)

lemma part_digits_value:
  "list_all is_digit ds \<Longrightarrow> part_digits ds = Some (decimal_value ds, length ds)"
  by (auto simp: part_digits_def py_digits_value decimal_value_def list_all_iff)

definition decimal_text :: "string \<Rightarrow> string \<Rightarrow> string" where
  "decimal_text a b = a @ CHR ''.'' # b"

lemma py_mantissa_decimal:
  assumes "list_all is_digit a" and "list_all is_digit b" and "a \<noteq> []"
  shows "py_mantissa (decimal_text a b) = Some (of_nat (decimal_value a) + of_nat (decimal_value b) / 10 ^ length b)"
proof -
  have "CHR ''.'' \<notin> set a" "CHR ''.'' \<notin> set b"
    using assms digit_facts(3) by (auto simp: list_all_iff)
  then have "split_on (CHR ''.'') (decimal_text a b) = [a, b]"
    by (simp add: decimal_text_def split_on_append split_on_plain)
  then show ?thesis using assms by (simp add: py_mantissa_def part_digits_value)
qed

lemma float_of_decimal:
  assumes "list_all is_digit a" and "list_all is_digit b" and "a \<noteq> []" and "b \<noteq> []"
  shows "py_float_of_string (decimal_text a b) =
    Some (to_py_float (of_nat (decimal_value a) + of_nat (decimal_value b) / 10 ^ length b))"
proof -
  let ?t = "decimal_text a b"
  obtain c cs where a: "a = c # cs" "is_digit c" using assms(1,3) by (cases a) auto
  obtain d ds where b: "b = ds @ [d]" "is_digit d" using assms(2,4) by (cases b rule: rev_cases) auto
  have "py_strip ?t = ?t"
    using digit_facts(1) [OF a(2)] digit_facts(1) [OF b(2)] by (simp add: py_strip_def decimal_text_def a b)
  moreover have "accept {CHR ''+'', CHR ''-''} ?t = ([], ?t)"
    using digit_facts(6,7) [OF a(2)] by (simp add: accept_def decimal_text_def a)
  moreover have "map lower_unit a = a" "map lower_unit b = b"
    using assms(1,2) digit_facts(5) by (auto simp: list_all_iff intro: map_idI)
  then have low: "to_lower_case ?t = ?t" by (simp add: to_lower_case_def decimal_text_def lower_unit_def Let_def)
  moreover have "?t \<notin> {''inf'', ''infinity''}" "?t \<noteq> ''nan''"
    using digit_facts(8,9) [OF a(2)] by (simp_all add: decimal_text_def a)
  moreover have "CHR ''e'' \<notin> set ?t"
    using assms(1,2) digit_facts(4) by (auto simp: decimal_text_def list_all_iff)
  then have "split_on (CHR ''e'') ?t = [?t]" by (rule split_on_plain)
  ultimately show ?thesis
    using py_mantissa_decimal [OF assms(1-3)] by (simp add: py_float_of_string_def)
qed

lemma any_audio_objects:
  "(\<And>s. s \<in> set ss \<Longrightarrow> \<exists>ms. s = JObj ms) \<Longrightarrow>
    any_audio ss = Inr (\<exists>s \<in> set ss. json_get s ''codec_type'' = Some (JStr ''audio''))"
proof (induction ss)
  case (Cons s ss)
  then obtain ms where s: "s = JObj ms" by auto
  have "(case json_get s ''codec_type'' of None \<Rightarrow> JNull | Some x \<Rightarrow> x) = JStr ''audio'' \<longleftrightarrow>
      json_get s ''codec_type'' = Some (JStr ''audio'')"
    by (auto split: option.split)
  then show ?case using Cons by (simp add: dict_get_def s)
qed simp

text \<open>
  What the worker takes from ffprobe. When ffprobe exits with 0 and prints an object whose
  streams are objects and whose duration is a decimal text, as ffprobe prints it, the file is
  accepted exactly if one of the streams is an audio stream, with the float nearest to the
  printed duration; otherwise it is rejected with a message that says so.
\<close>

theorem probe_reads_duration:
  assumes run: "sp (probe_command path) 60 = Exited r" "returncode r = 0"
    and out: "json_loads (proc_stdout r) = Some (JObj obj)"
    and streams: "json_get (JObj obj) ''streams'' = Some (JArr ss)" "\<forall>s \<in> set ss. \<exists>ms. s = JObj ms"
    and fmt: "json_get (JObj obj) ''format'' = Some (JObj fmt)"
    and dur: "json_get (JObj fmt) ''duration'' = Some (JStr (decimal_text a b))"
    and digits: "list_all is_digit a" "list_all is_digit b" "a \<noteq> []" "b \<noteq> []"
  shows "fst (probe sp path) = (if \<exists>s \<in> set ss. json_get s ''codec_type'' = Some (JStr ''audio'')
    then Inr (to_py_float (of_nat (decimal_value a) + of_nat (decimal_value b) / 10 ^ length b))
    else Inl (Raised ''file contains no audio stream''))"
proof -
  have "any_audio ss = Inr (\<exists>s \<in> set ss. json_get s ''codec_type'' = Some (JStr ''audio''))"
    using streams(2) by (intro any_audio_objects) blast
  then show ?thesis
    using run out streams(1) fmt dur float_of_decimal [OF digits]
    by (simp add: probe_result run_command_def read_probe_def dict_get_def iterate_def py_float_of_def)
qed

definition sample_probe_output :: string where
  "sample_probe_output = ''{\"streams\":[{\"codec_type\":\"video\"},{\"codec_type\":\"audio\"}],\"format\":{\"duration\":\"2.000000\"}}''"

theorem probe_reads_duration_witness:
  "fst (probe (\<lambda>_ _. Exited \<lparr>returncode = 0, proc_stdout = sample_probe_output, proc_stderr = []\<rparr>) ''a.mp3'') =
    Inr (to_py_float (2 + 0 / 10 ^ 6))"
proof -
  let ?r = "\<lparr>returncode = 0, proc_stdout = sample_probe_output, proc_stderr = []\<rparr>"
  let ?ss = "[JObj [(''codec_type'', JStr ''video'')], JObj [(''codec_type'', JStr ''audio'')]]"
  let ?f = "[(''duration'', JStr ''2.000000'')]"
  have out: "json_loads (proc_stdout ?r) = Some (JObj [(''streams'', JArr ?ss), (''format'', JObj ?f)])"
    by code_simp
  have "json_get (JObj ?f) ''duration'' = Some (JStr (decimal_text ''2'' ''000000''))"
    by (simp add: json_get_def decimal_text_def)
  from probe_reads_duration [of "\<lambda>_ _. Exited ?r" _ ?r, OF refl _ out _ _ _ this, of ?ss]
  show ?thesis by (simp add: json_get_def is_digit_def decimal_value_def)
qed

subsection \<open>Errors\<close>

lemma length_tail: "length (tail e) \<le> 400"
  by (simp add: tail_def Let_def STDERR_TAIL_CHARS_def)

definition known_error :: "subprocess \<Rightarrow> py_exception \<Rightarrow> bool" where
  \<comment> \<open>a command that could not be run; an \<open>AudioProcessingError\<close>, of at most 430 characters; or what
    reading ffprobe's answer raises, whose text is Python's and has no bound here\<close>
  "known_error sp e \<longleftrightarrow> (\<exists>cmd t. sp cmd t = Not_run e) \<or> (\<exists>m. e = Raised m \<and> length m \<le> 430) \<or>
     e \<in> {ValueError, TypeError, AttributeError, OverflowError}"

lemma run_command_known:
  assumes "fst (run_command sp cmd t) = Inl e" and "length (hd cmd) \<le> 7" and "t \<in> {60, 600}"
  shows "known_error sp e"
proof -
  have "length (js_string_of_int 60) = 2" "length (js_string_of_int 600) = 3" by code_simp+
  then show ?thesis using assms by (auto simp: run_command_def known_error_def split: subprocess_result.splits)
qed

lemma py_float_of_known: "py_float_of v = Inl e \<Longrightarrow> known_error sp e"
  by (auto simp: py_float_of_def known_error_def split: json.splits option.splits py_float.splits)

lemma dict_get_known: "dict_get v k d = Inl e \<Longrightarrow> known_error sp e"
  by (auto simp: dict_get_def known_error_def split: json.splits)

lemma any_audio_known: "any_audio ss = Inl e \<Longrightarrow> known_error sp e"
  by (induction ss) (auto simp: result_iff dest: dict_get_known split: if_splits)

lemma read_probe_known: "read_probe out = Inl e \<Longrightarrow> known_error sp e"
  by (auto simp: read_probe_def result_iff iterate_def split: option.splits if_splits json.splits
      dest: dict_get_known any_audio_known py_float_of_known) (simp_all add: known_error_def)

lemma raised_known: "length p \<le> 30 \<Longrightarrow> known_error sp (Raised (p @ tail e))"
  using length_tail [of e] by (simp add: known_error_def)

lemma probe_known: "fst (probe sp path) = Inl e \<Longrightarrow> known_error sp e"
proof -
  have "known_error sp e" if "fst (run_command sp (probe_command path) 60) = Inl e"
    by (rule run_command_known [OF that]) (simp_all add: probe_command_def)
  then show "fst (probe sp path) = Inl e \<Longrightarrow> known_error sp e"
    using raised_known [of "''ffprobe rejected the file: ''"] read_probe_known
    by (auto simp: probe_result result_iff split: if_splits)
qed

lemma normalize_known: "fst (normalize sp src dir) = Inl e \<Longrightarrow> known_error sp e"
proof -
  have "known_error sp e" if "fst (run_command sp (normalize_command src p) 600) = Inl e" for p
    by (rule run_command_known [OF that]) (simp_all add: normalize_command_def)
  then show "fst (normalize sp src dir) = Inl e \<Longrightarrow> known_error sp e"
    using raised_known [of "''ffmpeg normalization failed: ''"]
    by (auto simp: normalize_result result_iff split: if_splits)
qed

lemma cut_wav_known: "fst (cut_wav sp show_float src start len index) = Inl e \<Longrightarrow> known_error sp e"
proof -
  have "known_error sp e" if "fst (run_command sp (cut_command show_float src start len p) 600) = Inl e" for p
    by (rule run_command_known [OF that]) (simp_all add: cut_command_def)
  then show "fst (cut_wav sp show_float src start len index) = Inl e \<Longrightarrow> known_error sp e"
    using raised_known [of "''ffmpeg chunking failed: ''"]
    by (auto simp: cut_wav_result result_iff split: if_splits)
qed

lemma chunk_name_inj: "chunk_name i = chunk_name k \<longleftrightarrow> i = k"
proof
  assume "chunk_name i = chunk_name k"
  then have "parse_decimal (pad_start 4 (CHR ''0'') (digits i)) = parse_decimal (pad_start 4 (CHR ''0'') (digits k))"
    by (simp add: chunk_name_def)
  then show "i = k" by simp
qed simp

lemma join_path_inj: "join_path dir a = join_path dir b \<longleftrightarrow> a = b"
  by (simp add: join_path_def)

end
