(* ===== verification/Env_Validation.thy ===== *)
theory Env_Validation
  imports Api_Key_Guard Upload_Validation JS_Number
begin

text \<open>
  The validation of the environment at start-up (\<open>api/src/config/env.validation.ts\<close>), which every
  \<open>config.get\<close> of the API reads from. The configuration is a map from names to strings, as
  \<open>process.env\<close> is. How class-transformer turns the text of a variable into a number is a
  parameter (\<open>None\<close> for \<open>NaN\<close>), and so are class-validator's messages; which values satisfy a
  decorator is its documentation.
\<close>

datatype env_value = Text string | Num "f64 option" | Undefined

datatype env_type = String_type | Number_type

datatype env_constraint = IsString | IsNotEmpty | IsInt | Min f64

record env_property =
  env_name :: string
  env_type :: env_type
  env_default :: env_value
  env_constraints :: "env_constraint list"   \<comment> \<open>the decorators, from the inner one outwards\<close>

definition required_text :: "string \<Rightarrow> env_property" where
  "required_text n = \<lparr>env_name = n, env_type = String_type, env_default = Undefined,
     env_constraints = [IsNotEmpty, IsString]\<rparr>"

definition positive_int :: "string \<Rightarrow> f64 \<Rightarrow> env_property" where
  "positive_int n d = \<lparr>env_name = n, env_type = Number_type, env_default = Num (Some d),
     env_constraints = [Min 1, IsInt]\<rparr>"

definition EnvironmentVariables :: "env_property list" where
  "EnvironmentVariables = [required_text ''API_KEY'', positive_int ''PORT'' 3000,
     positive_int ''MAX_UPLOAD_MB'' 200, required_text ''DATABASE_URL'', required_text ''RABBITMQ_URL'',
     (required_text ''AUDIO_DIR'')\<lparr>env_default := Text ''/data/audio''\<rparr>]"

definition plain_to_instance :: "(string \<Rightarrow> f64 option) \<Rightarrow> (string \<Rightarrow> string option) \<Rightarrow> env_property \<Rightarrow> env_value" where
  \<comment> \<open>\<open>enableImplicitConversion\<close> and \<open>exposeDefaultValues\<close>\<close>
  "plain_to_instance to_number config p = (case config (env_name p) of
     None \<Rightarrow> env_default p
   | Some v \<Rightarrow> (case env_type p of String_type \<Rightarrow> Text v | Number_type \<Rightarrow> Num (to_number v)))"

fun satisfies :: "env_value \<Rightarrow> env_constraint \<Rightarrow> bool" where
  "satisfies v IsString = (case v of Text _ \<Rightarrow> True | _ \<Rightarrow> False)"
| "satisfies v IsNotEmpty = (v \<noteq> Undefined \<and> v \<noteq> Text [])"
| "satisfies v IsInt = (case v of Num (Some x) \<Rightarrow> of_int \<lfloor>x\<rfloor> = x | _ \<Rightarrow> False)"
| "satisfies v (Min m) = (case v of Num (Some x) \<Rightarrow> m \<le> x | _ \<Rightarrow> False)"

definition validate_sync :: "(string \<Rightarrow> f64 option) \<Rightarrow> (string \<Rightarrow> string option) \<Rightarrow>
    (env_property \<times> env_constraint list) list" where
  \<comment> \<open>the errors: the properties that violate some constraint, with those constraints\<close>
  "validate_sync to_number config = filter (\<lambda>(p, cs). cs \<noteq> [])
     (map (\<lambda>p. (p, filter (\<lambda>c. \<not> satisfies (plain_to_instance to_number config p) c) (env_constraints p)))
       EnvironmentVariables)"

type_synonym validated_env = "(string \<times> env_value) list"

definition validate_env :: "(string \<Rightarrow> f64 option) \<Rightarrow> (env_property \<Rightarrow> env_constraint \<Rightarrow> string) \<Rightarrow>
    (string \<Rightarrow> string option) \<Rightarrow> (exn, validated_env) result" where
  "validate_env to_number message config = (let errors = validate_sync to_number config in
     if errors \<noteq> [] then Inl (Error (''Invalid environment configuration: '' @
       js_join ''; '' (map (\<lambda>(p, cs). js_join '', '' (map (message p) cs)) errors)))
     else Inr (map (\<lambda>p. (env_name p, plain_to_instance to_number config p)) EnvironmentVariables))"

definition property_ok :: "(string \<Rightarrow> f64 option) \<Rightarrow> (string \<Rightarrow> string option) \<Rightarrow> env_property \<Rightarrow> bool" where
  "property_ok to_number config p \<longleftrightarrow> list_all (satisfies (plain_to_instance to_number config p)) (env_constraints p)"

lemma validate_sync_empty:
  "validate_sync to_number config = [] \<longleftrightarrow> list_all (property_ok to_number config) EnvironmentVariables"
  by (auto simp: validate_sync_def property_ok_def filter_empty_conv list_all_iff)

lemma text_ok: "property_ok to_number config (required_text n) \<longleftrightarrow> (\<exists>v. config n = Some v \<and> v \<noteq> [])"
  by (auto simp: property_ok_def required_text_def plain_to_instance_def split: option.split)

lemma text_default_ok: "d \<noteq> [] \<Longrightarrow> property_ok to_number config ((required_text n)\<lparr>env_default := Text d\<rparr>) \<longleftrightarrow>
    config n \<noteq> Some []"
  by (auto simp: property_ok_def required_text_def plain_to_instance_def split: option.split)

lemma int_ok:
  assumes "1 \<le> d"
  shows "property_ok to_number config (positive_int n (of_int d)) \<longleftrightarrow> (case config n of None \<Rightarrow> True
    | Some v \<Rightarrow> \<exists>k \<ge> 1. to_number v = Some (of_int k))"
proof (cases "config n")
  case None
  then show ?thesis using assms by (simp add: property_ok_def positive_int_def plain_to_instance_def)
next
  case (Some v)
  show ?thesis
  proof (cases "to_number v")
    case None
    then show ?thesis using Some by (simp add: property_ok_def positive_int_def plain_to_instance_def)
  next
    case x: (Some x)
    have "of_int \<lfloor>x\<rfloor> = x \<and> 1 \<le> x \<longleftrightarrow> (\<exists>k \<ge> 1. x = of_int k)"
      by (metis floor_of_int of_int_1_le_iff)
    then show ?thesis using Some x by (auto simp: property_ok_def positive_int_def plain_to_instance_def)
  qed
qed

lemmas int_ok_numeral = int_ok [of "numeral d" for d, unfolded of_int_numeral]

definition env_accepts :: "(string \<Rightarrow> f64 option) \<Rightarrow> (string \<Rightarrow> string option) \<Rightarrow> bool" where
  "env_accepts to_number config \<longleftrightarrow>
     (\<forall>n \<in> {''API_KEY'', ''DATABASE_URL'', ''RABBITMQ_URL''}. \<exists>v. config n = Some v \<and> v \<noteq> []) \<and>
     config ''AUDIO_DIR'' \<noteq> Some [] \<and>
     (\<forall>n \<in> {''PORT'', ''MAX_UPLOAD_MB''}. case config n of None \<Rightarrow> True
        | Some v \<Rightarrow> \<exists>k \<ge> 1. to_number v = Some (of_int k))"

lemma validate_sync_iff: "validate_sync to_number config = [] \<longleftrightarrow> env_accepts to_number config"
  unfolding validate_sync_empty EnvironmentVariables_def env_accepts_def
  by (simp add: text_ok text_default_ok int_ok_numeral conj_ac)

text \<open>
  Start-up only succeeds with a usable configuration. The API starts exactly when the three
  required texts are present and non-empty, the audio directory is not set to an empty text, and
  port and upload limit are absent or whole numbers from 1 on; in every other case it throws. What
  it starts with makes the guard's check for an empty key redundant (a request of a protected
  route passes exactly when it carries the configured key) and the upload limit at least one
  megabyte.
\<close>

theorem env_validated:
  "case validate_env to_number message config of
      Inl e \<Rightarrow> \<not> env_accepts to_number config \<and> (\<exists>m. e = Error (''Invalid environment configuration: '' @ m))
    | Inr env \<Rightarrow> env_accepts to_number config \<and>
        (\<exists>key port mb. map_of env ''API_KEY'' = Some (Text key) \<and> config ''API_KEY'' = Some key \<and>
           map_of env ''PORT'' = Some (Num (Some (of_int port))) \<and> 1 \<le> port \<and>
           map_of env ''MAX_UPLOAD_MB'' = Some (Num (Some (of_int mb))) \<and> upload_size_limit mb \<ge> 1048576 \<and>
           (\<forall>given. can_activate None given key = Inr True \<longleftrightarrow> given = Some key))"
proof (cases "validate_sync to_number config = []")
  case True
  let ?env = "map (\<lambda>p. (env_name p, plain_to_instance to_number config p)) EnvironmentVariables"
  have acc: "env_accepts to_number config" using True validate_sync_iff by simp
  then obtain key where key: "config ''API_KEY'' = Some key" "key \<noteq> []" by (auto simp: env_accepts_def)
  have int: "\<exists>k \<ge> 1. plain_to_instance to_number config (positive_int n (of_int d)) = Num (Some (of_int k))"
    if "n \<in> {''PORT'', ''MAX_UPLOAD_MB''}" "1 \<le> d" for n d
  proof (cases "config n")
    case (Some v)
    then have "\<exists>k \<ge> 1. to_number v = Some (of_int k)" using acc that(1) by (auto simp: env_accepts_def)
    then show ?thesis using Some by (auto simp: plain_to_instance_def positive_int_def)
  qed (use that in \<open>auto simp: plain_to_instance_def positive_int_def\<close>)
  obtain port where port: "1 \<le> port"
    "plain_to_instance to_number config (positive_int ''PORT'' 3000) = Num (Some (of_int port))"
    using int [of "''PORT''" 3000] by auto
  obtain mb where mb: "1 \<le> mb"
    "plain_to_instance to_number config (positive_int ''MAX_UPLOAD_MB'' 200) = Num (Some (of_int mb))"
    using int [of "''MAX_UPLOAD_MB''" 200] by auto
  have names: "env_name (required_text n) = n" "env_name (positive_int n d) = n" for n d
    by (simp_all add: required_text_def positive_int_def)
  have "map_of ?env ''API_KEY'' = Some (Text key)" "map_of ?env ''PORT'' = Some (Num (Some (of_int port)))"
    "map_of ?env ''MAX_UPLOAD_MB'' = Some (Num (Some (of_int mb)))"
    using port(2) mb(2) key(1)
    by (simp_all add: EnvironmentVariables_def names plain_to_instance_def [of _ _ "required_text _"])
      (simp add: required_text_def)
  moreover have "can_activate None given key = Inr True \<longleftrightarrow> given = Some key" for given
    using key(2) by (auto simp: can_activate_def constant_time_equals_eq)
  moreover have "upload_size_limit mb \<ge> 1048576" using mb(1) by (simp add: upload_size_limit_def)
  ultimately show ?thesis using True acc key(1) port(1)
    by (auto simp: validate_env_def)
next
  case False
  then show ?thesis using validate_sync_iff by (auto simp: validate_env_def Let_def)
qed

end
