(* ===== verification/Bootstrap.thy ===== *)
theory Bootstrap
  imports Env_Validation Storage
begin

text \<open>
  From the environment to a listening API (\<open>api/src/main.ts\<close>, \<open>api/src/app.module.ts\<close> and the
  options of \<open>transcriptions.module.ts\<close>): what each part reads from the validated configuration, and
  the start-up itself. Connecting the database, preparing the directories, connecting the broker and
  listening are parameters, called with the settings the code passes them. The framework runs the
  module hooks before it listens, in an order of its own; which of several failures is reported is
  therefore not claimed.
\<close>

subsection \<open>Settings\<close>

definition config_text :: "validated_env \<Rightarrow> string \<Rightarrow> string option" where
  \<comment> \<open>\<open>config.get(key)\<close> of a text; \<open>None\<close> would be \<open>undefined\<close>, or not a text\<close>
  "config_text cfg key = (case map_of cfg key of Some (Text s) \<Rightarrow> Some s | _ \<Rightarrow> None)"

definition config_number :: "validated_env \<Rightarrow> string \<Rightarrow> f64 option" where
  "config_number cfg key = (case map_of cfg key of Some (Num x) \<Rightarrow> x | _ \<Rightarrow> None)"

record typeorm_options =
  db_type :: string
  db_url :: string
  autoLoadEntities :: bool
  synchronize :: bool
  retryAttempts :: nat
  retryDelay :: nat

definition typeorm_options_of :: "string \<Rightarrow> typeorm_options" where
  "typeorm_options_of url = \<lparr>db_type = ''postgres'', db_url = url, autoLoadEntities = True,
     synchronize = True, retryAttempts = 30, retryDelay = 2000\<rparr>"

record multer_options =
  destination :: path
  fileSize :: f64

definition multer_options_of :: "path \<Rightarrow> f64 \<Rightarrow> multer_options" where
  "multer_options_of audio_dir mb = \<lparr>destination = upload_temp_dir audio_dir,
     fileSize = js_mul (js_mul mb 1024) 1024\<rparr>"

record api_settings =
  guard_key :: string                \<comment> \<open>\<open>ApiKeyGuard\<close>\<close>
  storage_dir :: path                \<comment> \<open>\<open>StorageService.audioDir\<close>\<close>
  upload_options :: multer_options   \<comment> \<open>\<open>MulterModule\<close>\<close>
  broker_url :: string               \<comment> \<open>\<open>PublisherService.url\<close>\<close>
  database_options :: typeorm_options
  listen_port :: f64

definition expected_key :: "validated_env \<Rightarrow> string option" where
  "expected_key cfg = config_text cfg ''API_KEY''"

definition storage_audio_dir :: "validated_env \<Rightarrow> path option" where
  "storage_audio_dir cfg = config_text cfg ''AUDIO_DIR''"

definition multer_factory :: "validated_env \<Rightarrow> multer_options option" where
  "multer_factory cfg = Option.bind (config_text cfg ''AUDIO_DIR'') (\<lambda>dir.
     map_option (multer_options_of dir) (config_number cfg ''MAX_UPLOAD_MB''))"

definition publisher_url :: "validated_env \<Rightarrow> string option" where
  "publisher_url cfg = config_text cfg ''RABBITMQ_URL''"

definition typeorm_factory :: "validated_env \<Rightarrow> typeorm_options option" where
  "typeorm_factory cfg = map_option typeorm_options_of (config_text cfg ''DATABASE_URL'')"

definition bootstrap_port :: "validated_env \<Rightarrow> f64 option" where
  "bootstrap_port cfg = config_number cfg ''PORT''"

definition api_settings_of :: "validated_env \<Rightarrow> api_settings option" where
  \<comment> \<open>\<open>None\<close> when one of the reads is undefined\<close>
  "api_settings_of cfg =
    Option.bind (expected_key cfg) (\<lambda>key.
    Option.bind (storage_audio_dir cfg) (\<lambda>dir.
    Option.bind (multer_factory cfg) (\<lambda>upload.
    Option.bind (publisher_url cfg) (\<lambda>broker.
    Option.bind (typeorm_factory cfg) (\<lambda>db.
    Option.bind (bootstrap_port cfg) (\<lambda>port.
      Some \<lparr>guard_key = key, storage_dir = dir, upload_options = upload,
        broker_url = broker, database_options = db, listen_port = port\<rparr>))))))"

lemmas settings_defs = expected_key_def storage_audio_dir_def multer_factory_def publisher_url_def
  typeorm_factory_def bootstrap_port_def config_text_def config_number_def

subsection \<open>Start-up\<close>

record boot_env =
  environ :: "string \<Rightarrow> string option"
  to_number :: "string \<Rightarrow> f64 option"
  message_text :: "env_property \<Rightarrow> env_constraint \<Rightarrow> string"
  connect_database :: "typeorm_options \<Rightarrow> (exn, unit) result"
  prepare_storage :: "path \<Rightarrow> (exn, unit) result"
  connect_broker :: "string \<Rightarrow> (exn, unit) result"
  listen :: "f64 \<Rightarrow> (exn, unit) result"

definition bootstrap :: "boot_env \<Rightarrow> (exn, api_settings) result" where
  \<comment> \<open>the settings the API listens with\<close>
  "bootstrap env = bind_result (validate_env (to_number env) (message_text env) (environ env)) (\<lambda>cfg.
     case api_settings_of cfg of None \<Rightarrow> Inl (Error ''undefined setting'')
     | Some s \<Rightarrow>
         bind_result (connect_database env (database_options s)) (\<lambda>_.
         bind_result (prepare_storage env (storage_dir s)) (\<lambda>_.
         bind_result (connect_broker env (broker_url s)) (\<lambda>_.
         bind_result (listen env (listen_port s)) (\<lambda>_. Inr s)))))"

definition settings_in :: "boot_env \<Rightarrow> api_settings option" where
  \<comment> \<open>what an accepted environment sets\<close>
  "settings_in env = (case validate_env (to_number env) (message_text env) (environ env) of
     Inl _ \<Rightarrow> None | Inr cfg \<Rightarrow> api_settings_of cfg)"

lemma env_names:
  "env_name (required_text n) = n" "env_name (positive_int n d) = n"
  "env_name ((required_text n)\<lparr>env_default := v\<rparr>) = n"
  by (simp_all add: required_text_def positive_int_def)

lemma accepted_text:
  assumes "property_ok tn config p" and "env_type p = String_type" and "IsString \<in> set (env_constraints p)"
    and "IsNotEmpty \<in> set (env_constraints p)"
  shows "\<exists>s. plain_to_instance tn config p = Text s \<and> s \<noteq> [] \<and> (config (env_name p) = Some s \<or>
    config (env_name p) = None \<and> env_default p = Text s)"
proof -
  have ok: "satisfies (plain_to_instance tn config p) IsString" "satisfies (plain_to_instance tn config p) IsNotEmpty"
    using assms(1,3,4) by (auto simp only: property_ok_def list_all_iff)
  then obtain s where s: "plain_to_instance tn config p = Text s" "s \<noteq> []"
    by (cases "plain_to_instance tn config p") auto
  then show ?thesis using assms(2) by (cases "config (env_name p)") (auto simp: plain_to_instance_def)
qed

definition number_in :: "(string \<Rightarrow> f64 option) \<Rightarrow> (string \<Rightarrow> string option) \<Rightarrow> string \<Rightarrow> f64 \<Rightarrow> f64 option" where
  \<comment> \<open>the number a variable is set to, or its default\<close>
  "number_in tn config n d = (case config n of None \<Rightarrow> Some d | Some v \<Rightarrow> tn v)"

lemma accepted_int:
  assumes "property_ok tn config (positive_int n d)"
  shows "\<exists>k \<ge> 1. plain_to_instance tn config (positive_int n d) = Num (Some (of_int k)) \<and>
    number_in tn config n d = Some (of_int k)"
proof -
  let ?v = "plain_to_instance tn config (positive_int n d)"
  have "satisfies ?v (Min 1)" "satisfies ?v IsInt"
    using assms by (simp_all add: property_ok_def positive_int_def)
  then obtain k where k: "?v = Num (Some (of_int k))" "1 \<le> (of_int k :: rat)"
    by (auto split: env_value.splits option.splits)
  moreover have "?v = Num (number_in tn config n d)"
    by (simp add: plain_to_instance_def positive_int_def number_in_def split: option.split)
  ultimately show ?thesis by auto
qed

text \<open>Every setting the code reads is declared, with the type the code expects.\<close>

lemma settings_complete:
  assumes "validate_env tn msg config = Inr cfg"
  shows "\<exists>s mb port. api_settings_of cfg = Some s \<and> config ''API_KEY'' = Some (guard_key s) \<and> guard_key s \<noteq> [] \<and>
    storage_dir s = (case config ''AUDIO_DIR'' of None \<Rightarrow> ''/data/audio'' | Some d \<Rightarrow> d) \<and> storage_dir s \<noteq> [] \<and>
    config ''RABBITMQ_URL'' = Some (broker_url s) \<and> config ''DATABASE_URL'' = Some (db_url (database_options s)) \<and>
    upload_options s = multer_options_of (storage_dir s) (of_int mb) \<and> 1 \<le> mb \<and>
    listen_port s = of_int port \<and> 1 \<le> port \<and>
    number_in tn config ''PORT'' 3000 = Some (of_int port) \<and>
    number_in tn config ''MAX_UPLOAD_MB'' 200 = Some (of_int mb)"
proof -
  have ok: "\<And>p. p \<in> set EnvironmentVariables \<Longrightarrow> property_ok tn config p"
    and cfg: "cfg = map (\<lambda>p. (env_name p, plain_to_instance tn config p)) EnvironmentVariables"
    using assms validate_sync_empty [of tn config] by (auto simp: validate_env_def Let_def list_all_iff split: if_splits)
  let ?v = "plain_to_instance tn config"
  have req: "\<exists>s. ?v (required_text n) = Text s \<and> s \<noteq> [] \<and> config n = Some s"
    if "n \<in> {''API_KEY'', ''DATABASE_URL'', ''RABBITMQ_URL''}" for n
    using accepted_text [OF ok, of "required_text n"] that by (auto simp: EnvironmentVariables_def required_text_def)
  obtain key where key: "?v (required_text ''API_KEY'') = Text key" "key \<noteq> []" "config ''API_KEY'' = Some key"
    using req [of "''API_KEY''"] by auto
  obtain db where db: "?v (required_text ''DATABASE_URL'') = Text db" "config ''DATABASE_URL'' = Some db"
    using req [of "''DATABASE_URL''"] by auto
  obtain mq where mq: "?v (required_text ''RABBITMQ_URL'') = Text mq" "config ''RABBITMQ_URL'' = Some mq"
    using req [of "''RABBITMQ_URL''"] by auto
  let ?dir = "(required_text ''AUDIO_DIR'')\<lparr>env_default := Text ''/data/audio''\<rparr>"
  obtain dir where dir: "?v ?dir = Text dir" "dir \<noteq> []"
    "dir = (case config ''AUDIO_DIR'' of None \<Rightarrow> ''/data/audio'' | Some d \<Rightarrow> d)"
    using accepted_text [OF ok, of ?dir] by (auto simp: EnvironmentVariables_def required_text_def)
  obtain port where port: "?v (positive_int ''PORT'' 3000) = Num (Some (of_int port))" "1 \<le> port"
    "number_in tn config ''PORT'' 3000 = Some (of_int port)"
    using accepted_int [OF ok, of "''PORT''" 3000] by (auto simp: EnvironmentVariables_def)
  obtain mb where mb: "?v (positive_int ''MAX_UPLOAD_MB'' 200) = Num (Some (of_int mb))" "1 \<le> mb"
    "number_in tn config ''MAX_UPLOAD_MB'' 200 = Some (of_int mb)"
    using accepted_int [OF ok, of "''MAX_UPLOAD_MB''" 200] by (auto simp: EnvironmentVariables_def)
  have cfg_eq: "cfg = [(''API_KEY'', Text key), (''PORT'', Num (Some (of_int port))),
      (''MAX_UPLOAD_MB'', Num (Some (of_int mb))), (''DATABASE_URL'', Text db), (''RABBITMQ_URL'', Text mq),
      (''AUDIO_DIR'', Text dir)]"
    unfolding cfg EnvironmentVariables_def list.map env_names key(1) port(1) mb(1) db(1) mq(1) dir(1) ..
  let ?s = "\<lparr>guard_key = key, storage_dir = dir, upload_options = multer_options_of dir (of_int mb),
      broker_url = mq, database_options = typeorm_options_of db, listen_port = of_int port\<rparr>"
  have "api_settings_of cfg = Some ?s"
    by (simp add: api_settings_of_def settings_defs cfg_eq)
  then show ?thesis using key db mq dir port mb
    by (intro exI [of _ ?s] exI [of _ mb] exI [of _ port]) (simp add: typeorm_options_of_def)
qed

text \<open>The upload limit in bytes: at least one megabyte, and exact as long as floats are.\<close>

lemma upload_limit:
  assumes "1 \<le> mb"
  shows "1048576 \<le> fileSize (multer_options_of dir (of_int mb))"
    and "mb * 1048576 < 2 ^ 53 \<Longrightarrow> fileSize (multer_options_of dir (of_int mb)) = of_int (mb * 1048576)"
proof -
  have one: "fl (of_int 1024) = of_int 1024" "fl (of_int 1048576) = of_int 1048576" by (intro fl_of_int; simp)+
  have "(1024 :: rat) \<le> of_int mb * 1024" using assms by simp
  from fl_mono [OF this] have kb: "1024 \<le> js_mul (of_int mb) 1024" using one(1) by (simp add: js_mul_def)
  then have "1048576 \<le> js_mul (of_int mb) 1024 * 1024" by simp
  from fl_mono [OF this] show "1048576 \<le> fileSize (multer_options_of dir (of_int mb))"
    using one(2) by (simp add: js_mul_def multer_options_of_def)
  assume small: "mb * 1048576 < 2 ^ 53"
  have "fl (of_int (mb * 1024)) = of_int (mb * 1024)" "fl (of_int (mb * 1048576)) = of_int (mb * 1048576)"
    using small assms by (intro fl_of_int; simp)+
  then show "fileSize (multer_options_of dir (of_int mb)) = of_int (mb * 1048576)"
    by (simp add: multer_options_of_def js_mul_def mult.assoc)
qed

text \<open>
  C32. The API listens only when everything it needs is there. Start-up ends with a listening server
  exactly when the environment is acceptable and, with the settings read from it, the database, the
  directories, the broker and the port can be had; otherwise it throws and nothing listens. A
  listening server has every setting the code reads, none undefined, and each from its own variable:
  a guard that a request passes exactly with the configured key; the port \<open>PORT\<close> is set to, or 3000;
  an upload limit of as many megabytes as \<open>MAX_UPLOAD_MB\<close> is set to, or 200, in bytes (exactly, as
  long as these are below \<open>2 ^ 53\<close>, and never less than one megabyte); and uploads that arrive in the
  very directory the storage service clears and promotes from, under \<open>AUDIO_DIR\<close> or its default.
\<close>

theorem bootstrap_listens:
  "case bootstrap env of
     Inl e \<Rightarrow> \<not> env_accepts (to_number env) (environ env) \<or>
       (\<exists>s. settings_in env = Some s \<and> e \<in> {x. connect_database env (database_options s) = Inl x \<or> prepare_storage env (storage_dir s) = Inl x \<or>
          connect_broker env (broker_url s) = Inl x \<or> listen env (listen_port s) = Inl x})
   | Inr s \<Rightarrow> env_accepts (to_number env) (environ env) \<and> settings_in env = Some s \<and>
       connect_database env (database_options s) = Inr () \<and> prepare_storage env (storage_dir s) = Inr () \<and>
       connect_broker env (broker_url s) = Inr () \<and> listen env (listen_port s) = Inr () \<and>
       environ env ''DATABASE_URL'' = Some (db_url (database_options s)) \<and>
       environ env ''RABBITMQ_URL'' = Some (broker_url s) \<and>
       storage_dir s = (case environ env ''AUDIO_DIR'' of None \<Rightarrow> ''/data/audio'' | Some d \<Rightarrow> d) \<and>
       destination (upload_options s) = upload_temp_dir (storage_dir s) \<and>
       number_in (to_number env) (environ env) ''PORT'' 3000 = Some (listen_port s) \<and> 1 \<le> listen_port s \<and>
       (\<exists>mb. number_in (to_number env) (environ env) ''MAX_UPLOAD_MB'' 200 = Some (of_int mb) \<and>
          1048576 \<le> fileSize (upload_options s) \<and>
          (if mb * 1048576 < 2 ^ 53 then fileSize (upload_options s) = of_int (mb * 1048576) else True)) \<and>
       environ env ''API_KEY'' = Some (guard_key s) \<and>
       (\<forall>given. can_activate None given (guard_key s) = Inr True \<longleftrightarrow> given = Some (guard_key s))"
proof (cases "validate_env (to_number env) (message_text env) (environ env)")
  case (Inl e)
  then have "\<not> env_accepts (to_number env) (environ env)"
    using validate_sync_iff by (auto simp: validate_env_def Let_def split: if_splits)
  then show ?thesis using Inl by (simp add: bootstrap_def)
next
  case (Inr cfg)
  have acc: "env_accepts (to_number env) (environ env)"
    using Inr validate_sync_iff by (auto simp: validate_env_def Let_def split: if_splits)
  obtain s mb port where s: "api_settings_of cfg = Some s" "environ env ''API_KEY'' = Some (guard_key s)" "guard_key s \<noteq> []"
    "environ env ''RABBITMQ_URL'' = Some (broker_url s)" "environ env ''DATABASE_URL'' = Some (db_url (database_options s))"
    "upload_options s = multer_options_of (storage_dir s) (of_int mb)" "1 \<le> mb" "listen_port s = of_int port" "1 \<le> port"
    and dir: "storage_dir s = (case environ env ''AUDIO_DIR'' of None \<Rightarrow> ''/data/audio'' | Some d \<Rightarrow> d)"
    and numbers: "number_in (to_number env) (environ env) ''PORT'' 3000 = Some (of_int port)"
      "number_in (to_number env) (environ env) ''MAX_UPLOAD_MB'' 200 = Some (of_int mb)"
    using settings_complete [OF Inr] by blast
  have set: "settings_in env = Some s" by (simp add: settings_in_def Inr s(1))
  note limit = upload_limit [OF s(7), of "storage_dir s", folded s(6)]
  have key: "can_activate None given (guard_key s) = Inr True \<longleftrightarrow> given = Some (guard_key s)" for given
    using s(3) by (auto simp: can_activate_def constant_time_equals_eq)
  have boot: "bootstrap env = bind_result (connect_database env (database_options s)) (\<lambda>_.
      bind_result (prepare_storage env (storage_dir s)) (\<lambda>_. bind_result (connect_broker env (broker_url s)) (\<lambda>_.
      bind_result (listen env (listen_port s)) (\<lambda>_. Inr s))))"
    by (simp add: bootstrap_def Inr s(1))
  show ?thesis
  proof (cases "bootstrap env")
    case (Inl e)
    then have "e \<in> {x. connect_database env (database_options s) = Inl x \<or> prepare_storage env (storage_dir s) = Inl x \<or>
          connect_broker env (broker_url s) = Inl x \<or> listen env (listen_port s) = Inl x}"
      unfolding boot by (auto simp: result_iff)
    then show ?thesis unfolding Inl sum.case using set by blast
  next
    case (Inr s')
    then have "s' = s" "connect_database env (database_options s) = Inr ()" "prepare_storage env (storage_dir s) = Inr ()"
      "connect_broker env (broker_url s) = Inr ()" "listen env (listen_port s) = Inr ()"
      unfolding boot by (auto simp: result_iff)
    moreover have "destination (upload_options s) = upload_temp_dir (storage_dir s)"
      by (simp add: s(6) multer_options_of_def)
    moreover have "number_in (to_number env) (environ env) ''PORT'' 3000 = Some (listen_port s)" "1 \<le> listen_port s"
      using numbers(1) s(8,9) by simp_all
    moreover have "\<exists>mb. number_in (to_number env) (environ env) ''MAX_UPLOAD_MB'' 200 = Some (of_int mb) \<and>
        1048576 \<le> fileSize (upload_options s) \<and>
        (if mb * 1048576 < 2 ^ 53 then fileSize (upload_options s) = of_int (mb * 1048576) else True)"
      using limit numbers(2) by (intro exI [of _ mb]) simp
    ultimately show ?thesis unfolding Inr sum.case using acc set s(2,4,5) dir key by blast
  qed
qed

definition sample_boot :: boot_env where
  "sample_boot = \<lparr>environ = map_of [(''API_KEY'', ''k''), (''DATABASE_URL'', ''postgres://db''), (''RABBITMQ_URL'', ''amqp://mq'')],
     to_number = (\<lambda>_. None), message_text = (\<lambda>_ _. []), connect_database = (\<lambda>_. Inr ()),
     prepare_storage = (\<lambda>_. Inr ()), connect_broker = (\<lambda>_. Inr ()), listen = (\<lambda>_. Inr ())\<rparr>"

theorem bootstrap_listens_witness:
  "\<exists>s. bootstrap sample_boot = Inr s \<and> guard_key s = ''k'' \<and> destination (upload_options s) = upload_temp_dir (storage_dir s)"
proof (cases "bootstrap sample_boot")
  case (Inl e)
  have "env_accepts (to_number sample_boot) (environ sample_boot)"
    by (simp add: env_accepts_def sample_boot_def)
  then show ?thesis using bootstrap_listens [of sample_boot] unfolding Inl by (simp add: sample_boot_def)
next
  case (Inr s)
  have "environ sample_boot ''API_KEY'' = Some ''k''" by (simp add: sample_boot_def)
  then show ?thesis using bootstrap_listens [of sample_boot] unfolding Inr by simp
qed

end
