(* ===== verification/Web_Page.thy ===== *)
theory Web_Page
  imports Subtitles
begin

text \<open>
  The page of the web front end (\<open>web/app/page.tsx\<close>): its state, what the user and the answers of
  the proxy do to it, and what it renders.

  An event is one callback of the browser; the code between two awaits without effect on the
  state (\<open>await fetch\<close> and \<open>await res.json()\<close>) is one event. \<open>setState\<close> and the effect that the
  following render runs are one step, and the timer of that effect is part of the state: the id
  it polls. Answers may arrive late and in any order.
\<close>

subsection \<open>Data\<close>

text \<open>
  What \<open>res.json()\<close> gives. The code casts it to \<open>Job\<close> without a check, so a field may be absent:
  \<open>None\<close> stands for an absent id, status, name or message. Bodies are JSON objects; any other
  body is counted as one that \<open>json()\<close> rejects.
\<close>

record page_job =
  pj_id :: "string option"
  pj_status :: "job_status option"
  pj_originalName :: "string option"
  pj_progress :: f64
  pj_durationSec :: "f64 option"
  pj_language :: "string option"
  pj_error :: "string option"
  pj_transcript :: "transcript_segment list option"
  pj_message :: "string option"    \<comment> \<open>the message of an error body\<close>

record reply =
  reply_status :: nat
  reply_json :: "string + page_job"  \<comment> \<open>\<open>Inl\<close>: \<open>json()\<close> rejects with this message\<close>

definition reply_ok :: "reply \<Rightarrow> bool" where
  "reply_ok r \<longleftrightarrow> 200 \<le> reply_status r \<and> reply_status r \<le> 299"

datatype upload_step =
    Posting string                 \<comment> \<open>the POST of a file of this name\<close>
  | Fetching_full                  \<comment> \<open>the GET after a deduplicated upload\<close>

record page =
  current_job :: "page_job option"
  uploading :: bool
  dragging :: bool
  uploadError :: "string option"
  in_flight :: "upload_step list"
  polls :: "string option list"          \<comment> \<open>polls without an answer yet\<close>
  timer :: "string option option"        \<comment> \<open>the id the interval polls, when there is one\<close>
  dialogs :: nat                         \<comment> \<open>open file dialogs\<close>

definition ACCEPTED :: string where
  "ACCEPTED = ''.wav,.mp3,.m4a,.flac,.ogg,.webm''"

definition page_init :: page where
  "page_init = \<lparr>current_job = None, uploading = False, dragging = False, uploadError = None,
     in_flight = [], polls = [], timer = None, dialogs = 0\<rparr>"

definition unfinished :: "page_job option \<Rightarrow> bool" where
  "unfinished j \<longleftrightarrow> (case j of None \<Rightarrow> False | Some j \<Rightarrow> pj_status j \<in> {Some Queued, Some Processing})"

definition busy :: "page \<Rightarrow> bool" where
  "busy s \<longleftrightarrow> uploading s \<or> unfinished (current_job s)"

subsection \<open>Callbacks\<close>

definition poll_effect :: "page_job option \<Rightarrow> string option option" where
  "poll_effect j = (if \<not> unfinished j then None else map_option pj_id j)"

definition set_job :: "page_job option \<Rightarrow> page \<Rightarrow> page" where
  "set_job j s = s\<lparr>current_job := j, timer := poll_effect j\<rparr>"

definition start_upload :: "string \<Rightarrow> page \<Rightarrow> page" where
  \<comment> \<open>\<open>upload(file)\<close> up to its first \<open>await\<close>\<close>
  "start_upload name s = (set_job None (s\<lparr>uploadError := None\<rparr>))
     \<lparr>uploading := True, in_flight := in_flight s @ [Posting name]\<rparr>"

definition drop_task :: "nat \<Rightarrow> page \<Rightarrow> page" where
  "drop_task n s = s\<lparr>in_flight := take n (in_flight s) @ drop (Suc n) (in_flight s)\<rparr>"

definition upload_failed :: "string \<Rightarrow> page \<Rightarrow> page" where
  \<comment> \<open>the catch and the finally clause\<close>
  "upload_failed message s = s\<lparr>uploadError := Some message, uploading := False\<rparr>"

definition fresh_job :: "page_job \<Rightarrow> string \<Rightarrow> page_job" where
  "fresh_job body name = \<lparr>pj_id = pj_id body, pj_status = pj_status body, pj_originalName = Some name,
     pj_progress = 0, pj_durationSec = None, pj_language = None, pj_error = None,
     pj_transcript = None, pj_message = None\<rparr>"

definition upload_message :: "reply \<Rightarrow> page_job \<Rightarrow> string" where
  "upload_message r body = (case pj_message body of Some m \<Rightarrow> m
     | None \<Rightarrow> ''Upload failed ('' @ digits (reply_status r) @ '')'')"

definition posted :: "nat \<Rightarrow> string \<Rightarrow> string + reply \<Rightarrow> page \<Rightarrow> page" where
  \<comment> \<open>the POST has been answered, or the fetch has been rejected\<close>
  "posted n name answer s = (case answer of
     Inl message \<Rightarrow> upload_failed message (drop_task n s)
   | Inr r \<Rightarrow> (case reply_json r of
       Inl message \<Rightarrow> upload_failed message (drop_task n s)
     | Inr body \<Rightarrow>
         if \<not> reply_ok r then upload_failed (upload_message r body) (drop_task n s)
         else if pj_status body = Some Completed then s\<lparr>in_flight := (in_flight s)[n := Fetching_full]\<rparr>
         else (set_job (Some (fresh_job body name)) (drop_task n s))\<lparr>uploading := False\<rparr>))"

definition fetched_full :: "nat \<Rightarrow> string + reply \<Rightarrow> page \<Rightarrow> page" where
  \<comment> \<open>the GET of a deduplicated upload has been answered\<close>
  "fetched_full n answer s = (case answer of
     Inl message \<Rightarrow> upload_failed message (drop_task n s)
   | Inr r \<Rightarrow> (case reply_json r of
       Inl message \<Rightarrow> upload_failed message (drop_task n s)
     | Inr body \<Rightarrow> (set_job (Some body) (drop_task n s))\<lparr>uploading := False\<rparr>))"

definition polled :: "string + reply \<Rightarrow> page \<Rightarrow> page" where
  "polled answer s = (case answer of Inl _ \<Rightarrow> s
   | Inr r \<Rightarrow> if \<not> reply_ok r then s
       else (case reply_json r of Inl _ \<Rightarrow> s
         | Inr fresh \<Rightarrow> if Option.bind (current_job s) pj_id = pj_id fresh then set_job (Some fresh) s else s))"

datatype page_event =
    Drag_over | Drag_leave
  | Drop_file "string option"          \<comment> \<open>the name of the first file dropped, if any\<close>
  | Click
  | Choose_file "string option"        \<comment> \<open>the file dialog's \<open>change\<close>\<close>
  | Upload_answer nat "string + reply"
  | Tick                               \<comment> \<open>of the interval\<close>
  | Poll_answer nat "string + reply"

fun page_step :: "page_event \<Rightarrow> page \<Rightarrow> page option" where
  \<comment> \<open>a busy section has \<open>pointer-events-none\<close>: nothing can be dropped on it\<close>
  "page_step Drag_over s = (if busy s then None else Some (s\<lparr>dragging := True\<rparr>))"
| "page_step Drag_leave s = Some (s\<lparr>dragging := False\<rparr>)"
| "page_step (Drop_file f) s = (if busy s then None else
     let s' = s\<lparr>dragging := False\<rparr> in
     Some (case f of None \<Rightarrow> s' | Some name \<Rightarrow> start_upload name s'))"
| "page_step Click s = (if busy s then None else Some (s\<lparr>dialogs := dialogs s + 1\<rparr>))"
| "page_step (Choose_file f) s = (if dialogs s = 0 then None else
     let s' = s\<lparr>dialogs := dialogs s - 1\<rparr> in
     Some (case f of None \<Rightarrow> s' | Some name \<Rightarrow> start_upload name s'))"
| "page_step (Upload_answer n answer) s = (if n < length (in_flight s) then
     Some (case in_flight s ! n of
       Posting name \<Rightarrow> posted n name answer s
     | Fetching_full \<Rightarrow> fetched_full n answer s) else None)"
| "page_step Tick s = (case timer s of None \<Rightarrow> None | Some i \<Rightarrow> Some (s\<lparr>polls := polls s @ [i]\<rparr>))"
| "page_step (Poll_answer n answer) s = (if n < length (polls s) then
     Some (polled answer (s\<lparr>polls := take n (polls s) @ drop (Suc n) (polls s)\<rparr>)) else None)"

fun page_run :: "page_event list \<Rightarrow> page \<Rightarrow> page option" where
  "page_run [] s = Some s"
| "page_run (e # es) s = Option.bind (page_step e s) (page_run es)"

subsection \<open>What the page renders\<close>

definition format_clock :: "f64 \<Rightarrow> string" where
  "format_clock seconds =
    (let total = math_floor seconds;
         h = math_floor (js_div (of_int total) 3600);
         m = js_rem (math_floor (js_div (of_int total) 60)) 60;
         s = js_rem total 60;
         mmss = pad_start 2 (CHR ''0'') (js_string_of_int m) @ '':'' @
           pad_start 2 (CHR ''0'') (js_string_of_int s)
     in if h > 0 then js_string_of_int h @ '':'' @ mmss else mmss)"

datatype headline = Uploading_headline | Drop_headline
datatype progress_text = Waiting_for_a_worker | Transcribing_percent int

record progress_view =
  bar_percent :: int
  progress_line :: progress_text

record transcript_view =
  export_links :: "string list"
  meta_parts :: "string list"       \<comment> \<open>language, clock and number of segments\<close>
  cue_lines :: "(string \<times> string) list"

record job_view =
  job_title :: "string option"
  job_id_line :: "string option"
  chip :: "job_status option"
  progress_part :: "progress_view option"
  failure_part :: "string option"
  transcript_part :: "transcript_view option"

record page_view =
  highlighted :: bool
  disabled :: bool
  head_line :: headline
  error_box :: "string option"
  job_part :: "job_view option"

definition progress_percent :: "f64 \<Rightarrow> int" where
  "progress_percent p = math_round (js_mul p 100)"

definition interpolated :: "string option \<Rightarrow> string" where
  "interpolated v = (case v of None \<Rightarrow> ''undefined'' | Some t \<Rightarrow> t)"

definition view_transcript :: "page_job \<Rightarrow> transcript_segment list \<Rightarrow> transcript_view" where
  "view_transcript j segs = \<lparr>
     export_links = [''/api/transcriptions/'' @ interpolated (pj_id j) @ ''/export?format=srt'',
       ''/api/transcriptions/'' @ interpolated (pj_id j) @ ''/export?format=vtt''],
     meta_parts = [case pj_language j of None \<Rightarrow> [] | Some l \<Rightarrow> if l = [] then [] else ''language: '' @ l,
       case pj_durationSec j of None \<Rightarrow> [] | Some d \<Rightarrow> if d = 0 then [] else format_clock d,
       digits (length segs) @ '' segments''],
     cue_lines = map (\<lambda>g. (format_clock (seg_start g), seg_text g)) segs\<rparr>"

definition view_job :: "page_job \<Rightarrow> job_view" where
  "view_job j = \<lparr>job_title = pj_originalName j, job_id_line = pj_id j, chip = pj_status j,
     progress_part = (if pj_status j = Some Queued \<or> pj_status j = Some Processing
       then Some \<lparr>bar_percent = progress_percent (pj_progress j),
         progress_line = (if pj_status j = Some Queued then Waiting_for_a_worker
           else Transcribing_percent (progress_percent (pj_progress j)))\<rparr> else None),
     failure_part = (if pj_status j = Some Failed
       then Some (case pj_error j of None \<Rightarrow> ''Transcription failed'' | Some e \<Rightarrow> e) else None),
     transcript_part = (if pj_status j = Some Completed
       then map_option (view_transcript j) (pj_transcript j) else None)\<rparr>"

definition render :: "page \<Rightarrow> page_view" where
  "render s = \<lparr>highlighted = dragging s, disabled = busy s,
     head_line = (if uploading s then Uploading_headline else Drop_headline),
     error_box = (case uploadError s of None \<Rightarrow> None | Some e \<Rightarrow> if e = [] then None else Some e),
     job_part = map_option view_job (current_job s)\<rparr>"

fun chip_style :: "job_status \<Rightarrow> string" where
  "chip_style Queued = ''bg-amber-100 text-amber-800 dark:bg-amber-950 dark:text-amber-300''"
| "chip_style Processing = ''bg-sky-100 text-sky-800 dark:bg-sky-950 dark:text-sky-300''"
| "chip_style Completed = ''bg-green-100 text-green-800 dark:bg-green-950 dark:text-green-300''"
| "chip_style Failed = ''bg-red-100 text-red-800 dark:bg-red-950 dark:text-red-300''"

definition status_chip :: "job_status option \<Rightarrow> string \<times> string" where
  \<comment> \<open>\<open>StatusChip\<close>: the class and the text; an absent status selects no style and prints nothing\<close>
  "status_chip st = (''shrink-0 rounded-full px-3 py-1 text-xs font-medium '' @
     interpolated (map_option chip_style st), case st of None \<Rightarrow> [] | Some s \<Rightarrow> status_text s)"

lemma status_chip_inj: "status_chip a = status_chip b \<Longrightarrow> a = b"
proof -
  have "status_text s \<noteq> []" "[] \<noteq> status_text s" "status_text s = status_text t \<longleftrightarrow> s = t" for s t
    by (cases s; cases t; simp)+
  then show "status_chip a = status_chip b \<Longrightarrow> a = b"
    by (cases a; cases b) (simp_all add: status_chip_def del: append_eq_append_conv)
qed

subsection \<open>The clock\<close>

definition parse_clock :: "string \<Rightarrow> nat option" where
  "parse_clock c = (case map parse_decimal (split_on (CHR '':'') c) of
     [Some m, Some s] \<Rightarrow> Some (60 * m + s)
   | [Some h, Some m, Some s] \<Rightarrow> Some (3600 * h + 60 * m + s)
   | _ \<Rightarrow> None)"

lemma format_clock_exact:
  assumes "0 \<le> t" and "t < 2 ^ 53"
  shows "format_clock t = (let n = nat \<lfloor>t\<rfloor>;
      mmss = pad_start 2 (CHR ''0'') (digits (n div 60 mod 60)) @ '':'' @ pad_start 2 (CHR ''0'') (digits (n mod 60))
    in if 3600 \<le> n then digits (n div 3600) @ '':'' @ mmss else mmss)"
proof -
  have "0 \<le> \<lfloor>t\<rfloor>" using assms by simp
  then obtain n where n: "\<lfloor>t\<rfloor> = int n" using nonneg_int_cases by blast
  have "\<lfloor>t\<rfloor> < 2 ^ 53" using assms(2) by (simp add: floor_less_iff)
  then have small: "n < 2 ^ 53" unfolding n by (metis of_nat_less_numeral_power_cancel_iff)
  have parts: "math_floor (js_div (of_int (int n)) 3600) = int (n div 3600)"
    "math_floor (js_div (of_int (int n)) 60) = int (n div 60)"
    by (rule math_floor_div_nat [OF small]; simp)+
  have "(0 < int (n div 3600)) = (3600 \<le> n)" by (simp add: div_greater_zero_iff)
  then show ?thesis
    by (simp only: format_clock_def math_floor_def [of t] Let_def n parts js_rem_nat js_string_of_nat nat_int)
qed

lemma clock_digits [simp]: "CHR '':'' \<notin> set (digits n)" "CHR '':'' \<notin> set (pad_start k (CHR ''0'') (digits n))"
  by simp_all

lemma parse_clock_format:
  assumes "0 \<le> t" and "t < 2 ^ 53"
  shows "parse_clock (format_clock t) = Some (nat \<lfloor>t\<rfloor>)"
proof -
  let ?n = "nat \<lfloor>t\<rfloor>"
  have "60 * (?n div 60 mod 60) + ?n mod 60 = ?n mod 3600"
    using mod_mult2_eq [of ?n 60 60] by (simp add: mult.commute)
  then have sum: "3600 * (?n div 3600) + 60 * (?n div 60 mod 60) + ?n mod 60 = ?n"
    using div_mult_mod_eq [of ?n 3600] by linarith
  show ?thesis
  proof (cases "3600 \<le> ?n")
    case True
    then show ?thesis using sum unfolding format_clock_exact [OF assms] Let_def
      by (simp add: parse_clock_def split_on_append split_on_plain)
  next
    case False
    then show ?thesis using sum unfolding format_clock_exact [OF assms] Let_def
      by (simp add: parse_clock_def split_on_append split_on_plain)
  qed
qed

text \<open>
  A clock on the page reads back as the whole seconds of the time it was printed from, with or
  without an hour field, for every time below \<open>2 ^ 53\<close> seconds; the hours appear exactly from 3600
  seconds on.
\<close>

theorem clock_roundtrip:
  assumes "0 \<le> t" and "t < 2 ^ 53"
  shows "parse_clock (format_clock t) = Some (nat \<lfloor>t\<rfloor>) \<and>
    length (split_on (CHR '':'') (format_clock t)) = (if 3600 \<le> t then 3 else 2)"
proof
  have "(3600 \<le> nat \<lfloor>t\<rfloor>) = (3600 \<le> t)" using assms by (simp add: le_nat_iff le_floor_iff)
  then show "length (split_on (CHR '':'') (format_clock t)) = (if 3600 \<le> t then 3 else 2)"
    unfolding format_clock_exact [OF assms] Let_def by (simp add: split_on_append split_on_plain)
qed (rule parse_clock_format [OF assms])

theorem clock_roundtrip_witness: "parse_clock (format_clock (7325/2)) = Some 3662"
proof -
  have "\<lfloor>7325/2 :: rat\<rfloor> = 3662" by (simp add: floor_eq_iff)
  then show ?thesis using clock_roundtrip [of "7325/2"] by simp
qed

subsection \<open>Reachable pages\<close>

text \<open>
  What the invariants need of the surroundings: a file dialog delivers its file while nothing else
  is going on (it was opened from an idle page, and is modal), and a successful poll answers with
  a job that has an id, as the API does.
\<close>

definition orderly :: "page_event \<Rightarrow> page \<Rightarrow> bool" where
  "orderly e s \<longleftrightarrow> (case e of
     Choose_file (Some _) \<Rightarrow> \<not> busy s
   | Poll_answer _ (Inr r) \<Rightarrow> (reply_ok r \<longrightarrow> (case reply_json r of Inr f \<Rightarrow> pj_id f \<noteq> None | Inl _ \<Rightarrow> True))
   | _ \<Rightarrow> True)"

inductive page_reach :: "page \<Rightarrow> bool" where
  init: "page_reach page_init"
| step: "page_reach s \<Longrightarrow> page_step e s = Some s' \<Longrightarrow> orderly e s \<Longrightarrow> page_reach s'"

lemma page_reach_run:
  assumes "page_run es s = Some s'" and "page_reach s"
    and "\<forall>e \<in> set es. \<forall>s. orderly e s"
  shows "page_reach s'"
  using assms by (induction es arbitrary: s) (auto simp: bind_eq_Some_conv intro: page_reach.step)

definition one_upload :: "page \<Rightarrow> bool" where
  "one_upload s \<longleftrightarrow> length (in_flight s) = (if uploading s then 1 else 0) \<and>
     (uploading s \<longrightarrow> current_job s = None) \<and>
     (uploadError s \<noteq> None \<longrightarrow> current_job s = None \<and> \<not> uploading s)"

definition timer_ok :: "page \<Rightarrow> bool" where
  "timer_ok s \<longleftrightarrow> timer s = poll_effect (current_job s)"

lemmas page_defs = one_upload_def timer_ok_def set_job_def start_upload_def drop_task_def upload_failed_def

lemma page_updates [simp]:
  "one_upload (s\<lparr>dragging := b\<rparr>) = one_upload s" "timer_ok (s\<lparr>dragging := b\<rparr>) = timer_ok s"
  "busy (s\<lparr>dragging := b\<rparr>) = busy s" "one_upload (s\<lparr>dialogs := n\<rparr>) = one_upload s"
  "timer_ok (s\<lparr>dialogs := n\<rparr>) = timer_ok s" "busy (s\<lparr>dialogs := n\<rparr>) = busy s"
  "one_upload (s\<lparr>polls := ps\<rparr>) = one_upload s" "timer_ok (s\<lparr>polls := ps\<rparr>) = timer_ok s"
  by (simp_all add: one_upload_def timer_ok_def busy_def)

lemma set_job_timer [simp]: "timer_ok (set_job j s)"
  by (simp add: page_defs)

lemma started_inv: "one_upload s \<Longrightarrow> \<not> busy s \<Longrightarrow> one_upload (start_upload f s) \<and> timer_ok (start_upload f s)"
  by (auto simp: page_defs busy_def)

lemma in_flight_one: "one_upload s \<Longrightarrow> n < length (in_flight s) \<Longrightarrow>
    n = 0 \<and> uploading s \<and> current_job s = None \<and> uploadError s = None \<and> (\<exists>u. in_flight s = [u])"
  by (auto simp: one_upload_def length_Suc_conv split: if_splits)

lemma posted_inv:
  assumes "one_upload s" and "timer_ok s" and "n < length (in_flight s)"
  shows "one_upload (posted n name a s) \<and> timer_ok (posted n name a s)"
  using in_flight_one [OF assms(1,3)] assms(1,2)
  by (auto simp: posted_def page_defs split: sum.split)

lemma fetched_full_inv:
  assumes "one_upload s" and "timer_ok s" and "n < length (in_flight s)"
  shows "one_upload (fetched_full n a s) \<and> timer_ok (fetched_full n a s)"
  using in_flight_one [OF assms(1,3)] assms(1,2)
  by (auto simp: fetched_full_def page_defs split: sum.split)

lemma polled_cases:
  obtains (same) "polled a s = s"
  | (shown) r f where "a = Inr r" "reply_ok r" "reply_json r = Inr f"
      "Option.bind (current_job s) pj_id = pj_id f" "polled a s = set_job (Some f) s"
proof (cases a)
  case (Inl m)
  then show ?thesis using that by (simp add: polled_def)
next
  case (Inr r)
  note Inr_r = this
  show ?thesis
  proof (cases "reply_json r")
    case (Inl m)
    then show ?thesis using that(1) Inr_r by (simp add: polled_def)
  next
    case (Inr f)
    show ?thesis
    proof (cases "reply_ok r \<and> Option.bind (current_job s) pj_id = pj_id f")
      case True
      then show ?thesis using that(2) [OF Inr_r _ Inr] Inr_r Inr by (simp add: polled_def)
    next
      case False
      then show ?thesis using that(1) Inr_r Inr by (auto simp: polled_def)
    qed
  qed
qed

lemma polled_inv:
  assumes "one_upload s" and "timer_ok s" and "orderly (Poll_answer n a) s'"
  shows "one_upload (polled a s) \<and> timer_ok (polled a s)"
proof (cases rule: polled_cases [of a s])
  case (shown r f)
  then have "pj_id f \<noteq> None" using assms(3) by (simp add: orderly_def)
  then have "current_job s \<noteq> None" using shown(4) by (cases "current_job s") auto
  then show ?thesis using assms(1) shown(5) by (auto simp: page_defs)
qed (use assms in simp)

lemma page_step_inv:
  assumes "one_upload s" and "timer_ok s" and "page_step e s = Some s'" and "orderly e s"
  shows "one_upload s' \<and> timer_ok s'"
proof (cases e)
  case (Drop_file f)
  then show ?thesis using assms by (cases f) (auto simp: started_inv split: if_splits)
next
  case (Choose_file f)
  then show ?thesis using assms by (cases f) (auto simp: started_inv orderly_def split: if_splits)
next
  case (Upload_answer n a)
  then show ?thesis using assms posted_inv fetched_full_inv
    by (auto split: upload_step.splits if_splits)
next
  case (Poll_answer n a)
  let ?s = "s\<lparr>polls := take n (polls s) @ drop (Suc n) (polls s)\<rparr>"
  have "one_upload (polled a ?s) \<and> timer_ok (polled a ?s)"
    using assms(1,2) by (intro polled_inv [OF _ _ assms(4) [unfolded Poll_answer]]) simp_all
  then show ?thesis using Poll_answer assms(3) by (auto split: if_splits)
next
  case Tick
  then show ?thesis using assms by (auto split: option.splits)
qed (use assms in \<open>auto split: if_splits\<close>)

lemma page_reach_inv: "page_reach s \<Longrightarrow> one_upload s \<and> timer_ok s"
proof (induction rule: page_reach.induct)
  case init
  show ?case by (simp add: page_init_def one_upload_def timer_ok_def poll_effect_def unfinished_def)
qed (use page_step_inv in blast)

subsection \<open>Properties\<close>

text \<open>
  C22. One upload at a time. In every reachable state the page says it is uploading exactly while
  one request of one upload is in flight; no job and no error is shown during an upload, an error
  and a job are never shown together, and the interval polls exactly when the shown job is queued
  or processing, for the id of that job.
\<close>

theorem page_one_upload:
  assumes "page_reach s"
  shows "length (in_flight s) = (if head_line (render s) = Uploading_headline then 1 else 0) \<and>
    (head_line (render s) = Uploading_headline \<longrightarrow>
       job_part (render s) = None \<and> error_box (render s) = None \<and> disabled (render s)) \<and>
    \<not> (error_box (render s) \<noteq> None \<and> job_part (render s) \<noteq> None) \<and>
    timer s = (case current_job s of None \<Rightarrow> None
      | Some j \<Rightarrow> if pj_status j \<in> {Some Queued, Some Processing} then Some (pj_id j) else None)"
  using page_reach_inv [OF assms]
  by (auto simp: render_def busy_def one_upload_def timer_ok_def poll_effect_def unfinished_def
      split: option.splits if_splits)

text \<open>A first upload, up to the moment its job is shown.\<close>

definition api_body :: "string \<Rightarrow> job_status \<Rightarrow> page_job" where
  "api_body i st = \<lparr>pj_id = Some i, pj_status = Some st, pj_originalName = Some ''a.mp3'', pj_progress = 0,
     pj_durationSec = None, pj_language = None, pj_error = None, pj_transcript = None, pj_message = None\<rparr>"

definition answer_of :: "page_job \<Rightarrow> string + reply" where
  "answer_of b = Inr \<lparr>reply_status = 200, reply_json = Inr b\<rparr>"

definition first_upload :: "page_event list" where
  "first_upload = [Drag_over, Drop_file (Some ''a.mp3''), Upload_answer 0 (answer_of (api_body ''j1'' Queued))]"

definition first_page :: page where
  "first_page = page_init\<lparr>current_job := Some (fresh_job (api_body ''j1'' Queued) ''a.mp3''), timer := Some (Some ''j1'')\<rparr>"

lemmas page_run_simps = answer_of_def api_body_def first_page_def page_init_def busy_def unfinished_def
  start_upload_def set_job_def poll_effect_def drop_task_def posted_def reply_ok_def fresh_job_def

lemma first_upload_run: "page_run first_upload page_init = Some first_page"
  by (simp add: first_upload_def page_run_simps)

lemma first_page_reach: "page_reach first_page"
  by (rule page_reach_run [OF first_upload_run page_reach.init]) (simp add: first_upload_def orderly_def)

theorem page_one_upload_witness: "page_reach first_page \<and> in_flight first_page = [] \<and>
    job_part (render first_page) \<noteq> None \<and> error_box (render first_page) = None"
  using page_one_upload [OF first_page_reach] first_page_reach
  by (simp add: render_def first_page_def page_init_def)

text \<open>
  C23. An unfinished job keeps being followed. Whenever the page shows a queued or processing job
  the interval is running, its next tick asks for that job, and the first successful answer for
  that job replaces what is shown; failed or unreadable answers change nothing, and no answer,
  however late, puts the job of another id on the page.
\<close>

theorem page_follows_job:
  assumes reach: "page_reach s" and job: "current_job s = Some j"
    and st: "pj_status j = Some Queued \<or> pj_status j = Some Processing"
  shows "\<exists>s1. page_step Tick s = Some s1 \<and> polls s1 = polls s @ [pj_id j] \<and> current_job s1 = Some j \<and>
    (\<forall>n a. n < length (polls s1) \<longrightarrow> (\<exists>s2. page_step (Poll_answer n a) s1 = Some s2 \<and>
      current_job s2 = Some (case a of
          Inr r \<Rightarrow> (case reply_json r of
              Inr f \<Rightarrow> if reply_ok r \<and> pj_id f = pj_id j then f else j
            | Inl _ \<Rightarrow> j)
        | Inl _ \<Rightarrow> j)))"
proof -
  have t: "timer s = Some (pj_id j)"
    using page_reach_inv [OF reach] job st by (auto simp: timer_ok_def poll_effect_def unfinished_def)
  have answered: "current_job (polled a s') = Some (case a of Inr r \<Rightarrow> (case reply_json r of
              Inr f \<Rightarrow> if reply_ok r \<and> pj_id f = pj_id j then f else j
            | Inl _ \<Rightarrow> j) | Inl _ \<Rightarrow> j)" if "current_job s' = Some j" for a s'
    using that by (simp add: polled_def set_job_def split: sum.split)
  show ?thesis using job t
    by (intro exI [of _ "s\<lparr>polls := polls s @ [pj_id j]\<rparr>"]) (simp add: answered)
qed

theorem page_follows_job_witness:
  "\<exists>s1. page_step Tick first_page = Some s1 \<and> polls s1 = [Some ''j1'']"
proof -
  have "current_job first_page = Some (fresh_job (api_body ''j1'' Queued) ''a.mp3'')"
    and "pj_status (fresh_job (api_body ''j1'' Queued) ''a.mp3'') = Some Queued"
    and "polls first_page = []" and "pj_id (fresh_job (api_body ''j1'' Queued) ''a.mp3'') = Some ''j1''"
    by (simp_all add: page_run_simps)
  then show ?thesis using page_follows_job [OF first_page_reach, of "fresh_job (api_body ''j1'' Queued) ''a.mp3''"]
    by auto
qed

text \<open>
  A finished job is not final on the page. When two polls overlap and their answers come back
  in the wrong order, the page goes from the completed job back to the processing one; its
  interval, already stopped, starts again, so that a later poll can show the completed job again.
\<close>

theorem late_poll_reverts_job:
  "\<exists>s s'. page_run (first_upload @ [Tick, Tick, Poll_answer 1 (answer_of (api_body ''j1'' Completed))]) page_init = Some s \<and>
    current_job s = Some (api_body ''j1'' Completed) \<and> timer s = None \<and>
    page_step (Poll_answer 0 (answer_of (api_body ''j1'' Processing))) s = Some s' \<and>
    current_job s' = Some (api_body ''j1'' Processing) \<and> timer s' = Some (Some ''j1'')"
  by (simp add: first_upload_def page_run_simps polled_def)

text \<open>Answers to polls that the page takes, for a shown job with the given id.\<close>

fun taken_answer :: "string option \<Rightarrow> page_event \<Rightarrow> page_job list" where
  "taken_answer i (Poll_answer n (Inr r)) = (case reply_json r of
     Inr f \<Rightarrow> if reply_ok r \<and> pj_id f = i then [f] else [] | Inl _ \<Rightarrow> [])"
| "taken_answer i _ = []"

fun poll_event :: "page_event \<Rightarrow> bool" where
  "poll_event Tick = True"
| "poll_event (Poll_answer n a) = True"
| "poll_event _ = False"

lemma poll_event_step:
  assumes "poll_event e" and "page_step e s = Some s'" and "current_job s = Some j" and "timer_ok s"
  shows "current_job s' = Some (last (j # taken_answer (pj_id j) e)) \<and> timer_ok s' \<and>
    pj_id (last (j # taken_answer (pj_id j) e)) = pj_id j \<and>
    in_flight s' = in_flight s \<and> uploading s' = uploading s \<and> uploadError s' = uploadError s"
proof (cases e)
  case (Poll_answer n a)
  let ?s = "s\<lparr>polls := take n (polls s) @ drop (Suc n) (polls s)\<rparr>"
  have s': "s' = polled a ?s" using assms(2) Poll_answer by (auto split: if_splits)
  show ?thesis
  proof (cases a)
    case (Inr r)
    then show ?thesis using assms(3,4) s' Poll_answer
      by (auto simp: polled_def page_defs split: sum.split)
  qed (use assms(3,4) s' Poll_answer in \<open>auto simp: polled_def timer_ok_def\<close>)
qed (use assms in \<open>auto simp: timer_ok_def split: option.splits\<close>)

lemma poll_events_run:
  assumes "page_run es s = Some s'" and "list_all poll_event es" and "current_job s = Some j"
    and "timer_ok s" and "pj_id j = i"
  shows "current_job s' = Some (last (j # concat (map (taken_answer i) es))) \<and> timer_ok s' \<and>
    pj_id (last (j # concat (map (taken_answer i) es))) = i \<and>
    in_flight s' = in_flight s \<and> uploading s' = uploading s \<and> uploadError s' = uploadError s"
  using assms
proof (induction es arbitrary: s j)
  case (Cons e es)
  from Cons.prems(1) obtain s1 where s1: "page_step e s = Some s1" "page_run es s1 = Some s'"
    by (auto simp: bind_eq_Some_conv)
  let ?k = "last (j # taken_answer i e)"
  have polls: "poll_event e" "list_all poll_event es" using Cons.prems(2) by simp_all
  note one = poll_event_step [OF polls(1) s1(1) Cons.prems(3,4), unfolded Cons.prems(5)]
  have "last (j # concat (map (taken_answer i) (e # es))) = last (?k # concat (map (taken_answer i) es))"
    by simp
  with Cons.IH [OF s1(2) polls(2), of ?k] one show ?case by presburger
qed simp

text \<open>
  C39. The last answer to arrive decides what the page shows. While a job is shown and only polls
  are sent and answered, however they overlap and in whatever order their answers come back: the
  page shows the job of the last successful answer with the shown id, it keeps showing this id, the
  interval runs exactly when that answer was queued or processing, and nothing else of the page
  changes. So a poll that comes back late, after one sent later, puts its older state back on the
  page (the witness goes from completed back to processing), and restarts the interval with it.
\<close>

theorem last_answer_wins:
  assumes "page_reach s" and "current_job s = Some j" and "list_all poll_event es"
    and "page_run es s = Some s'"
  shows "let shown = last (j # concat (map (taken_answer (pj_id j)) es)) in
    current_job s' = Some shown \<and> pj_id shown = pj_id j \<and>
    timer s' = (if pj_status shown \<in> {Some Queued, Some Processing} then Some (pj_id j) else None) \<and>
    in_flight s' = in_flight s \<and> uploading s' = uploading s \<and> uploadError s' = uploadError s"
  using poll_events_run [OF assms(4,3,2) _ refl] page_reach_inv [OF assms(1)]
  by (simp add: timer_ok_def poll_effect_def unfinished_def Let_def)

definition overlapping_polls :: "page_event list" where
  "overlapping_polls = [Tick, Tick, Poll_answer 1 (answer_of (api_body ''j1'' Completed)),
     Poll_answer 0 (answer_of (api_body ''j1'' Processing))]"

theorem last_answer_wins_witness:
  "\<exists>s'. page_run overlapping_polls first_page = Some s' \<and>
    current_job s' = Some (api_body ''j1'' Processing) \<and> timer s' = Some (Some ''j1'')"
proof -
  let ?j = "fresh_job (api_body ''j1'' Queued) ''a.mp3''"
  have shown: "last (?j # concat (map (taken_answer (pj_id ?j)) overlapping_polls)) = api_body ''j1'' Processing"
    and ids: "pj_id ?j = Some ''j1''" "pj_status (api_body ''j1'' Processing) = Some Processing"
    by (simp_all add: overlapping_polls_def page_run_simps)
  have job: "current_job first_page = Some ?j" by (simp add: first_page_def)
  have polls: "list_all poll_event overlapping_polls" by (simp add: overlapping_polls_def)
  have "page_run overlapping_polls first_page \<noteq> None"
    by (simp add: overlapping_polls_def page_run_simps polled_def)
  then obtain s' where "page_run overlapping_polls first_page = Some s'" by auto
  with last_answer_wins [OF first_page_reach job polls this, unfolded Let_def shown] ids
  show ?thesis by auto
qed

text \<open>
  An error on the second request of a deduplicated upload is shown as a job. The code does not
  look at the status of that answer: a JSON error body (of a 404, a 502 or a 503) becomes the shown
  job, with no error box, nothing but an empty card, and no interval that could replace it.
\<close>

theorem dedup_error_shown_as_job:
  assumes "pj_id err = None" and "pj_status err = None" and "\<not> reply_ok \<lparr>reply_status = code, reply_json = Inr err\<rparr>"
  shows "\<exists>s. page_run [Drop_file (Some name), Upload_answer 0 (answer_of (api_body i Completed)),
      Upload_answer 0 (Inr \<lparr>reply_status = code, reply_json = Inr err\<rparr>)] page_init = Some s \<and>
    current_job s = Some err \<and> error_box (render s) = None \<and> timer s = None \<and>
    (\<exists>v. job_part (render s) = Some v \<and> job_id_line v = None \<and> chip v = None \<and>
       progress_part v = None \<and> failure_part v = None \<and> transcript_part v = None)"
  using assms(1,2) by (simp add: page_run_simps fetched_full_def render_def view_job_def)

definition not_found_body :: page_job where
  "not_found_body = (api_body ''j1'' Failed)\<lparr>pj_id := None, pj_status := None, pj_message := Some ''Job j1 not found''\<rparr>"

theorem dedup_error_shown_as_job_witness:
  "\<exists>s. page_run [Drop_file (Some ''a.mp3''), Upload_answer 0 (answer_of (api_body ''j1'' Completed)),
      Upload_answer 0 (Inr \<lparr>reply_status = 404, reply_json = Inr not_found_body\<rparr>)] page_init = Some s \<and>
    current_job s = Some not_found_body \<and> error_box (render s) = None"
proof -
  have "pj_id not_found_body = None" "pj_status not_found_body = None"
    "\<not> reply_ok \<lparr>reply_status = 404, reply_json = Inr not_found_body\<rparr>"
    by (simp_all add: not_found_body_def reply_ok_def)
  from dedup_error_shown_as_job [OF this, of "''a.mp3''" "''j1''"] show ?thesis
    by (elim exE conjE) (intro exI conjI)
qed

subsection \<open>A job of the API on the page\<close>

definition from_detail :: "job_detail_dto \<Rightarrow> page_job" where
  \<comment> \<open>the JSON of a job detail, read as the page reads it; an absent and a null field look alike\<close>
  "from_detail d = \<lparr>pj_id = Some (dto_id d), pj_status = Some (dto_status d),
     pj_originalName = Some (dto_originalName d), pj_progress = dto_progress d,
     pj_durationSec = dto_durationSec d, pj_language = dto_language d,
     pj_error = Option.bind (dto_error d) id,
     pj_transcript = map_option segments (Option.bind (dto_transcript d) id), pj_message = None\<rparr>"

lemma from_detail_simps:
  "pj_id (from_detail (to_job_detail j)) = Some (jid j)"
  "pj_status (from_detail (to_job_detail j)) = Some (status j)"
  "pj_originalName (from_detail (to_job_detail j)) = Some (originalName j)"
  "pj_progress (from_detail (to_job_detail j)) = progress j"
  "pj_error (from_detail (to_job_detail j)) = (if status j = Failed then job_error j else None)"
  "pj_transcript (from_detail (to_job_detail j)) =
     (if status j = Completed then map_option segments (job_transcript j) else None)"
  by (simp_all add: from_detail_def to_job_detail_def to_job_summary_def job_summary_dto.defs)

lemma progress_percent_range:
  assumes "0 \<le> p" and "p \<le> 1"
  shows "0 \<le> progress_percent p" and "progress_percent p \<le> 100"
proof -
  have "js_mul 0 100 \<le> js_mul p 100" "js_mul p 100 \<le> js_mul 1 100"
    unfolding js_mul_def using assms by (intro fl_mono; simp)+
  moreover have "js_mul 0 100 = of_int 0" "js_mul 1 100 = of_int 100"
    using fl_of_int [of 0] fl_of_int [of 100] by (simp_all add: js_mul_def)
  ultimately have "math_round (of_int 0) \<le> progress_percent p" "progress_percent p \<le> math_round (of_int 100)"
    unfolding progress_percent_def by (metis math_round_mono)+
  then show "0 \<le> progress_percent p" and "progress_percent p \<le> 100" by (simp_all only: math_round_of_int)
qed

lemma cue_line_clocks:
  assumes "\<forall>g \<in> set segs. 0 \<le> seg_start g \<and> seg_start g < 2 ^ 53"
  shows "map (\<lambda>(c, x). (parse_clock c, x)) (cue_lines (view_transcript j segs)) =
    map (\<lambda>g. (Some (nat \<lfloor>seg_start g\<rfloor>), seg_text g)) segs"
  using assms by (simp add: view_transcript_def parse_clock_format)

text \<open>
  C37. What the page shows for a job of the API, on every status: the name, the id and the status
  always; a percentage between 0 and 100 while it is unfinished; the stored error, or a default
  text, when it has failed; and when it is completed one line per segment of the stored
  transcript, whose clock reads back as the second the segment starts in. Nothing of one status
  is shown for another, whatever columns earlier attempts have left in the row.
\<close>

theorem page_shows_job:
  assumes "0 \<le> progress j" and "progress j \<le> 1"
    and times: "\<And>tr g. job_transcript j = Some tr \<Longrightarrow> g \<in> set (segments tr) \<Longrightarrow> 0 \<le> seg_start g \<and> seg_start g < 2 ^ 53"
  shows "let v = view_job (from_detail (to_job_detail j)) in
    job_title v = Some (originalName j) \<and> job_id_line v = Some (jid j) \<and> chip v = Some (status j) \<and>
    (case status j of
       Queued \<Rightarrow> \<exists>p. 0 \<le> p \<and> p \<le> 100 \<and> failure_part v = None \<and> transcript_part v = None \<and>
         progress_part v = Some \<lparr>bar_percent = p, progress_line = Waiting_for_a_worker\<rparr>
     | Processing \<Rightarrow> \<exists>p. 0 \<le> p \<and> p \<le> 100 \<and> failure_part v = None \<and> transcript_part v = None \<and>
         progress_part v = Some \<lparr>bar_percent = p, progress_line = Transcribing_percent p\<rparr>
     | Failed \<Rightarrow> progress_part v = None \<and> transcript_part v = None \<and>
         failure_part v = Some (case job_error j of None \<Rightarrow> ''Transcription failed'' | Some e \<Rightarrow> e)
     | Completed \<Rightarrow> progress_part v = None \<and> failure_part v = None \<and>
         (case job_transcript j of None \<Rightarrow> transcript_part v = None
          | Some tr \<Rightarrow> \<exists>tv. transcript_part v = Some tv \<and>
              map (\<lambda>(c, x). (parse_clock c, x)) (cue_lines tv) =
              map (\<lambda>g. (Some (nat \<lfloor>seg_start g\<rfloor>), seg_text g)) (segments tr)))"
proof (cases "status j")
  case Completed
  then show ?thesis using cue_line_clocks [of _ "from_detail (to_job_detail j)"] times
    by (auto simp: view_job_def from_detail_simps split: option.split)
qed (use progress_percent_range [OF assms(1,2)] in \<open>simp_all add: view_job_def from_detail_simps\<close>)

definition finished_transcript :: transcript where
  "finished_transcript = \<lparr>text_of = ''hi'', transcript_language = ''en'', transcript_duration = 2,
     segments = [\<lparr>seg_id = 0, seg_start = 3725, seg_end = 3726, seg_text = ''hi''\<rparr>]\<rparr>"

definition finished_row :: job where
  "finished_row = \<lparr>jid = ''j1'', status = Completed, originalName = ''a.mp3'', language = Some ''en'',
     durationSec = Some 2, progress = 1, attempts = 1, createdAt = 0, updatedAt = 0,
     filePath = ''/data/a.mp3'', contentHash = None, job_error = Some ''old'',
     job_transcript = Some finished_transcript\<rparr>"

theorem page_shows_job_witness:
  "\<exists>tv. transcript_part (view_job (from_detail (to_job_detail finished_row))) = Some tv \<and>
    map (\<lambda>(c, x). (parse_clock c, x)) (cue_lines tv) = [(Some 3725, ''hi'')]"
proof -
  have "status finished_row = Completed" "0 \<le> progress finished_row" "progress finished_row \<le> 1"
    and tr: "job_transcript finished_row = Some finished_transcript"
    by (simp_all add: finished_row_def)
  moreover have "0 \<le> seg_start g \<and> seg_start g < 2 ^ 53" if "g \<in> set (segments finished_transcript)" for g
    using that by (auto simp: finished_transcript_def)
  moreover have "map (\<lambda>g. (Some (nat \<lfloor>seg_start g\<rfloor>), seg_text g)) (segments finished_transcript) = [(Some 3725, ''hi'')]"
    by (simp add: finished_transcript_def)
  ultimately show ?thesis using page_shows_job [of finished_row] by (simp add: Let_def)
qed

end
