(* ===== verification/Job_Db.thy ===== *)
theory Job_Db
  imports Job_Repository
begin

text \<open>
  The statements the worker runs on the jobs table (\<open>worker/db.py\<close>), as functions of the table.
  \<open>now\<close> is the database's clock. A statement may instead raise; that is decided where it is used.
\<close>

definition update_row :: "string \<Rightarrow> (job \<Rightarrow> job) \<Rightarrow> table \<Rightarrow> table" where
  \<comment> \<open>\<open>UPDATE jobs SET ... WHERE id = $1\<close>\<close>
  "update_row i f t = map (\<lambda>j. if jid j = i then f j else j) t"

definition get_status :: "string \<Rightarrow> table \<Rightarrow> job_status option" where
  "get_status i t = map_option status (table_rows t i)"

definition mark_processing :: "date \<Rightarrow> string \<Rightarrow> table \<Rightarrow> table" where
  "mark_processing now i = update_row i (\<lambda>j. j\<lparr>status := Processing, attempts := attempts j + 1,
     progress := 0, updatedAt := now\<rparr>)"

definition update_progress :: "date \<Rightarrow> string \<Rightarrow> f64 \<Rightarrow> table \<Rightarrow> table" where
  "update_progress now i x = update_row i (\<lambda>j. if status j = Processing
     then j\<lparr>progress := x, updatedAt := now\<rparr> else j)"

definition complete :: "date \<Rightarrow> string \<Rightarrow> transcript \<Rightarrow> table \<Rightarrow> table" where
  "complete now i tr = update_row i (\<lambda>j. j\<lparr>status := Completed, job_transcript := Some tr,
     language := Some (transcript_language tr), durationSec := Some (transcript_duration tr),
     progress := 1, job_error := None, updatedAt := now\<rparr>)"

definition record_retry :: "date \<Rightarrow> string \<Rightarrow> string \<Rightarrow> table \<Rightarrow> table" where
  "record_retry now i err = update_row i (\<lambda>j. j\<lparr>status := Queued, job_error := Some err, updatedAt := now\<rparr>)"

definition fail :: "date \<Rightarrow> string \<Rightarrow> string \<Rightarrow> table \<Rightarrow> table" where
  "fail now i err = update_row i (\<lambda>j. j\<lparr>status := Failed, job_error := Some err, updatedAt := now\<rparr>)"

text \<open>What a statement does to the rows.\<close>

lemma update_row_rows:
  assumes "\<And>j. jid (f j) = jid j"
  shows "table_rows (update_row i f t) k =
    (if k = i then map_option f (table_rows t k) else table_rows t k)"
  using assms by (induction t) (auto simp: table_rows_def update_row_def)

lemma update_row_inv:
  assumes "\<And>j. jid (f j) = jid j"
  shows "table_inv (update_row i f t) = table_inv t"
proof -
  have "map jid (update_row i f t) = map jid t" using assms by (auto simp: update_row_def)
  then show ?thesis by (simp add: table_inv_def)
qed

lemmas db_defs = mark_processing_def update_progress_def complete_def record_retry_def fail_def

lemma statement_inv [simp]:
  "table_inv (mark_processing now i t) = table_inv t" "table_inv (update_progress now i x t) = table_inv t"
  "table_inv (complete now i tr t) = table_inv t" "table_inv (record_retry now i err t) = table_inv t"
  "table_inv (fail now i err t) = table_inv t"
  by (simp_all add: db_defs update_row_inv)

lemma statement_rows:
  "table_rows (mark_processing now i t) k = (if k = i then map_option (\<lambda>j. j\<lparr>status := Processing,
     attempts := attempts j + 1, progress := 0, updatedAt := now\<rparr>) (table_rows t k) else table_rows t k)"
  "table_rows (update_progress now i x t) k = (if k = i then map_option (\<lambda>j. if status j = Processing
     then j\<lparr>progress := x, updatedAt := now\<rparr> else j) (table_rows t k) else table_rows t k)"
  "table_rows (complete now i tr t) k = (if k = i then map_option (\<lambda>j. j\<lparr>status := Completed,
     job_transcript := Some tr, language := Some (transcript_language tr),
     durationSec := Some (transcript_duration tr), progress := 1, job_error := None, updatedAt := now\<rparr>)
     (table_rows t k) else table_rows t k)"
  "table_rows (record_retry now i err t) k = (if k = i then map_option (\<lambda>j. j\<lparr>status := Queued,
     job_error := Some err, updatedAt := now\<rparr>) (table_rows t k) else table_rows t k)"
  "table_rows (fail now i err t) k = (if k = i then map_option (\<lambda>j. j\<lparr>status := Failed,
     job_error := Some err, updatedAt := now\<rparr>) (table_rows t k) else table_rows t k)"
  by (simp_all add: db_defs update_row_rows)

text \<open>The status of a row after each statement.\<close>

lemma statement_status:
  "get_status k (mark_processing now i t) = (if k = i then map_option (\<lambda>_. Processing) (get_status k t) else get_status k t)"
  "get_status k (update_progress now i x t) = get_status k t"
  "get_status k (complete now i tr t) = (if k = i then map_option (\<lambda>_. Completed) (get_status k t) else get_status k t)"
  "get_status k (record_retry now i err t) = (if k = i then map_option (\<lambda>_. Queued) (get_status k t) else get_status k t)"
  "get_status k (fail now i err t) = (if k = i then map_option (\<lambda>_. Failed) (get_status k t) else get_status k t)"
  by (auto simp: get_status_def statement_rows option.map_comp comp_def intro!: option.map_cong0)

end
