(* ===== verification/Worker.thy ===== *)
theory Worker
  imports Worker_Message Job_Db "HOL-Library.AList"
begin

text \<open>
  One worker's handling of a message (\<open>worker/main.py\<close>: \<open>handle_message\<close> and \<open>handle_failure\<close>).
  The coroutine is cut at its \<open>await\<close>s: a \<open>handler\<close> is the \<open>await\<close> where it is suspended, with
  the local variables still needed, and \<open>worker_step\<close> is the code from there to the next one.

  What an awaited call does is an \<open>answer\<close>: it returns, it raises without having had an effect,
  or it raises after its effect (a commit, a publish or an acknowledgement whose reply was
  lost). The sleep before a requeue is part of the suspension at the \<open>nack\<close>. An exception that
  leaves \<open>handle_message\<close> ends the handler with the message neither acked nor nacked.
\<close>

record incoming =
  in_body :: "byte list"
  in_headers :: headers

datatype handler =
    Idle
  | Nacking_dead incoming                       \<comment> \<open>\<open>message.nack(requeue=False)\<close>\<close>
  | Reading_status incoming string string       \<comment> \<open>\<open>db.get_status\<close>; job id and file path\<close>
  | Requeueing incoming                         \<comment> \<open>the sleep and \<open>message.nack(requeue=True)\<close>\<close>
  | Acking_skip incoming                        \<comment> \<open>\<open>message.ack()\<close> of a completed job\<close>
  | Marking incoming string string              \<comment> \<open>\<open>db.mark_processing\<close>\<close>
  | Running incoming string string              \<comment> \<open>\<open>asyncio.to_thread(run_pipeline, ...)\<close>\<close>
  | Completing incoming string transcript       \<comment> \<open>\<open>db.complete\<close>\<close>
  | Acking_done incoming string                 \<comment> \<open>\<open>message.ack()\<close> after \<open>complete\<close>\<close>
  | Publishing_retry incoming string string int int
      \<comment> \<open>\<open>exchange.publish\<close>; job id, error, retry count and ttl\<close>
  | Recording_retry incoming string string      \<comment> \<open>\<open>db.record_retry\<close>\<close>
  | Publishing_dead incoming string string      \<comment> \<open>\<open>dlx_exchange.publish\<close>\<close>
  | Recording_fail incoming string string       \<comment> \<open>\<open>db.fail\<close>\<close>
  | Acking_failure incoming string              \<comment> \<open>\<open>message.ack()\<close> at the end of \<open>handle_failure\<close>\<close>

datatype answer =
    Returned
  | Transcribed transcript     \<comment> \<open>what the pipeline returned\<close>
  | Raised_error string
  | Raised_late string         \<comment> \<open>raised after the effect\<close>

datatype broker_op =
    Ack | Nack bool
  | Publish string string incoming "int option"  \<comment> \<open>exchange, routing key, message, expiration\<close>

fun had_effect :: "answer \<Rightarrow> bool" where
  "had_effect (Raised_error _) = False"
| "had_effect _ = True"

fun error_of :: "answer \<Rightarrow> string option" where
  "error_of (Raised_error e) = Some e"
| "error_of (Raised_late e) = Some e"
| "error_of _ = None"

definition start_handler :: "(json \<Rightarrow> string) \<Rightarrow> incoming \<Rightarrow> handler" where
  \<comment> \<open>\<open>handle_message\<close> up to its first \<open>await\<close>\<close>
  "start_handler repr m = (case parse_message repr (in_body m) of
     None \<Rightarrow> Nacking_dead m
   | Some (i, p) \<Rightarrow> Reading_status m i p)"

definition retry_message :: "incoming \<Rightarrow> int \<Rightarrow> incoming" where
  "retry_message m n = m\<lparr>in_headers := AList.update RETRY_COUNT_HEADER (H_int (n + 1)) (in_headers m)\<rparr>"

definition start_failure :: "incoming \<Rightarrow> string \<Rightarrow> string \<Rightarrow> handler" where
  \<comment> \<open>\<open>handle_failure\<close> up to its first \<open>await\<close>; \<open>Idle\<close> when an exception leaves the handler\<close>
  "start_failure m i err = (case retry_count_of (in_headers m) of Inl _ \<Rightarrow> Idle
   | Inr n \<Rightarrow> (case decide n of Inl _ \<Rightarrow> Idle
     | Inr (Retry ttl_ms) \<Rightarrow> Publishing_retry m i err n ttl_ms
     | Inr Dead \<Rightarrow> Publishing_dead m i err))"

text \<open>
  After an \<open>await\<close> inside a try block: go on, or go to the except clause. The third argument is
  where the code goes on, the fourth the except clause.
\<close>

definition after_await :: "answer \<Rightarrow> handler \<Rightarrow> (string \<Rightarrow> handler) \<Rightarrow> handler" where
  "after_await a next_pc except = (case error_of a of None \<Rightarrow> next_pc | Some e \<Rightarrow> except e)"

definition effect_if :: "answer \<Rightarrow> 'a \<Rightarrow> 'a \<Rightarrow> 'a" where
  "effect_if a changed same = (if had_effect a then changed else same)"

fun worker_step :: "date \<Rightarrow> answer \<Rightarrow> handler \<Rightarrow> table \<Rightarrow> handler \<times> table \<times> broker_op list" where
  "worker_step now a Idle t = (Idle, t, [])"
| "worker_step now a (Nacking_dead m) t = (Idle, t, effect_if a [Nack False] [])"
| "worker_step now a (Reading_status m i p) t =
    (after_await a (case get_status i t of
        None \<Rightarrow> Nacking_dead m
      | Some s \<Rightarrow> if s = Completed then Acking_skip m else Marking m i p) (\<lambda>_. Requeueing m), t, [])"
| "worker_step now a (Requeueing m) t = (Idle, t, effect_if a [Nack True] [])"
| "worker_step now a (Acking_skip m) t = (Idle, t, effect_if a [Ack] [])"
| "worker_step now a (Marking m i p) t =
    (after_await a (Running m i p) (start_failure m i), effect_if a (mark_processing now i t) t, [])"
| "worker_step now a (Running m i p) t =
    (case a of Transcribed tr \<Rightarrow> Completing m i tr
     | _ \<Rightarrow> after_await a (Running m i p) (start_failure m i), t, [])"
| "worker_step now a (Completing m i tr) t =
    (after_await a (Acking_done m i) (start_failure m i), effect_if a (complete now i tr t) t, [])"
| "worker_step now a (Acking_done m i) t =
    (after_await a Idle (start_failure m i), t, effect_if a [Ack] [])"
| "worker_step now a (Publishing_retry m i err n ttl_ms) t =
    (after_await a (Recording_retry m i err) (\<lambda>_. Requeueing m), t,
     effect_if a [Publish EXCHANGE ROUTING_KEY_RETRY (retry_message m n) (Some ttl_ms)] [])"
| "worker_step now a (Recording_retry m i err) t =
    (after_await a (Acking_failure m i) (\<lambda>_. Requeueing m), effect_if a (record_retry now i err t) t, [])"
| "worker_step now a (Publishing_dead m i err) t =
    (after_await a (Recording_fail m i err) (\<lambda>_. Requeueing m), t,
     effect_if a [Publish DLX_EXCHANGE ROUTING_KEY_DEAD m None] [])"
| "worker_step now a (Recording_fail m i err) t =
    (after_await a (Acking_failure m i) (\<lambda>_. Requeueing m), effect_if a (fail now i err t) t, [])"
| "worker_step now a (Acking_failure m i) t =
    (after_await a Idle (\<lambda>_. Requeueing m), t, effect_if a [Ack] [])"

lemma start_failure_cases:
  "start_failure m i err = Idle \<or> (\<exists>n ttl. start_failure m i err = Publishing_retry m i err n ttl) \<or>
   start_failure m i err = Publishing_dead m i err"
  by (simp add: start_failure_def split: sum.split decision.split)

lemma after_await_simps [simp]:
  "after_await Returned x f = x" "after_await (Transcribed tr) x f = x"
  "after_await (Raised_error e) x f = f e" "after_await (Raised_late e) x f = f e"
  by (simp_all add: after_await_def)

lemma effect_if_simps [simp]:
  "effect_if Returned x y = x" "effect_if (Transcribed tr) x y = x"
  "effect_if (Raised_error e) x y = y" "effect_if (Raised_late e) x y = x"
  by (simp_all add: effect_if_def)

text \<open>A run of the handler of one message, with no one else at work.\<close>

fun run_handler :: "date \<Rightarrow> answer list \<Rightarrow> handler \<Rightarrow> table \<Rightarrow> handler \<times> table \<times> broker_op list" where
  "run_handler now [] h t = (h, t, [])"
| "run_handler now (a # as) h t = (case worker_step now a h t of (h', t', ops) \<Rightarrow>
     (case run_handler now as h' t' of (h'', t'', ops') \<Rightarrow> (h'', t'', ops @ ops')))"

end
