(* ===== verification/System.thy ===== *)
theory System
  imports Worker Transcriptions_Service
begin

text \<open>
  The two services at work together: uploads of the API, the broker's three queues and any number
  of workers, over one jobs table. A step is what one party does between two of its \<open>await\<close>s, or
  an event of the broker (a delivery, an expired retry) or of a process (a lost connection, a
  crash). An upload is in the system from its insert on; the steps before it touch neither the
  table nor the queues. \<open>Upload_dies\<close> ends an upload between its insert and its end: the API
  process died there, or the insert was committed but its answer lost, so that \<open>create\<close> threw.

  A worker has a handler and the delivery it has not settled; it takes a message when it has
  neither (\<open>prefetch_count=1\<close>, and the lock held while a message is handled).
\<close>

datatype upload_task = Publishing string path | Undoing string path

record sys =
  jobs :: table
  ready :: "incoming list"        \<comment> \<open>\<open>transcription.jobs\<close>\<close>
  retryq :: "incoming list"       \<comment> \<open>\<open>transcription.retry\<close>\<close>
  deadq :: "incoming list"        \<comment> \<open>\<open>transcription.dead\<close>\<close>
  workers :: "nat \<Rightarrow> handler \<times> incoming option"
  uploads :: "upload_task list"
  drawn :: "string list"          \<comment> \<open>the ids drawn so far\<close>
  given_up :: "string list"
      \<comment> \<open>ids whose publish and delete both failed, or whose upload died with its process\<close>

definition sys_init :: sys where
  "sys_init = \<lparr>jobs = [], ready = [], retryq = [], deadq = [], workers = (\<lambda>_. (Idle, None)),
     uploads = [], drawn = [], given_up = []\<rparr>"

subsection \<open>The broker\<close>

definition deliver_to :: "incoming \<Rightarrow> string \<Rightarrow> sys \<Rightarrow> sys" where
  "deliver_to m q s = (if q = JOBS_QUEUE then s\<lparr>ready := ready s @ [m]\<rparr>
     else if q = RETRY_QUEUE then s\<lparr>retryq := retryq s @ [m]\<rparr>
     else if q = DEAD_QUEUE then s\<lparr>deadq := deadq s @ [m]\<rparr> else s)"

definition publish_to :: "string \<Rightarrow> string \<Rightarrow> incoming \<Rightarrow> sys \<Rightarrow> sys" where
  "publish_to e k m = fold (deliver_to m) (route assert_topology e k)"

definition dead_letter :: "string \<Rightarrow> incoming \<Rightarrow> sys \<Rightarrow> sys" where
  "dead_letter q m = fold (deliver_to m) (dead_letter_targets assert_topology q)"

definition set_worker :: "nat \<Rightarrow> handler \<Rightarrow> incoming option \<Rightarrow> sys \<Rightarrow> sys" where
  "set_worker w h u s = s\<lparr>workers := (workers s)(w := (h, u))\<rparr>"

abbreviation handler_of :: "sys \<Rightarrow> nat \<Rightarrow> handler" where
  "handler_of s w \<equiv> fst (workers s w)"

abbreviation unsettled :: "sys \<Rightarrow> nat \<Rightarrow> incoming option" where
  "unsettled s w \<equiv> snd (workers s w)"

definition requeue :: "nat \<Rightarrow> handler \<Rightarrow> sys \<Rightarrow> sys" where
  \<comment> \<open>the unsettled delivery of a worker goes back to the work queue\<close>
  "requeue w h s = (case unsettled s w of None \<Rightarrow> set_worker w h None s
     | Some m \<Rightarrow> (set_worker w h None s)\<lparr>ready := m # ready s\<rparr>)"

fun broker_step :: "nat \<Rightarrow> broker_op \<Rightarrow> sys \<Rightarrow> sys" where
  \<comment> \<open>settling a delivery that is not unsettled any more has no effect\<close>
  "broker_step w Ack s = set_worker w (handler_of s w) None s"
| "broker_step w (Nack again) s = (if again then requeue w (handler_of s w) s
     else case unsettled s w of None \<Rightarrow> s
       | Some m \<Rightarrow> dead_letter JOBS_QUEUE m (set_worker w (handler_of s w) None s))"
| "broker_step w (Publish e k m ttl) s = publish_to e k m s"

subsection \<open>Steps\<close>

datatype event =
    Upload string path string "string option" date
  | Upload_publish nat "nat option" publish_outcome
  | Upload_undo nat answer
  | Upload_dies nat
  | Deliver nat nat
  | Await nat date answer
  | Progress date string f64
  | Expire nat
  | Connection_lost nat
  | Crash nat

fun upload_id :: "upload_task \<Rightarrow> string" where
  "upload_id (Publishing i p) = i"
| "upload_id (Undoing i p) = i"

definition drop_nth :: "nat \<Rightarrow> 'a list \<Rightarrow> 'a list" where
  "drop_nth n xs = take n xs @ drop (Suc n) xs"

definition from_api :: "outgoing \<Rightarrow> incoming" where
  "from_api out = \<lparr>in_body = out_body out, in_headers = []\<rparr>"

fun sys_step :: "(json \<Rightarrow> string) \<Rightarrow> event \<Rightarrow> sys \<Rightarrow> sys option" where
  "sys_step repr (Upload i p name h now) s =
    (if i \<in> set (drawn s) \<or> \<not> py_uuid_ok i then None
     else case repo_save (table_repository now) \<lparr>n_id = i, n_status = Queued, n_originalName = name,
         n_filePath = p, n_contentHash = h\<rparr> (jobs s) of
       (Inl _, _) \<Rightarrow> None
     | (Inr _, t) \<Rightarrow> Some (s\<lparr>jobs := t, uploads := Publishing i p # uploads s, drawn := i # drawn s\<rparr>))"
| "sys_step repr (Upload_publish n ch oc) s =
    (if n < length (uploads s) then (case uploads s ! n of
       Publishing i p \<Rightarrow> (case publish_job (\<lambda>_. oc) \<lparr>connection = ch, channel = ch, shuttingDown = False\<rparr>
           \<lparr>m_jobId = i, m_filePath = p, m_attempt = 0\<rparr> [] of (r, outs) \<Rightarrow>
         Some (fold (\<lambda>out. publish_to (out_exchange out) (out_routing_key out) (from_api out)) outs
           (s\<lparr>uploads := (case r of Inr _ \<Rightarrow> drop_nth n (uploads s)
              | Inl _ \<Rightarrow> (uploads s)[n := Undoing i p])\<rparr>)))
     | Undoing _ _ \<Rightarrow> None) else None)"
| "sys_step repr (Upload_undo n a) s =
    (if n < length (uploads s) then (case uploads s ! n of
       Undoing i p \<Rightarrow> Some (s\<lparr>uploads := drop_nth n (uploads s),
         jobs := effect_if a (snd (repo_delete (table_repository 0) i (jobs s))) (jobs s),
         given_up := (if error_of a = None then given_up s else i # given_up s)\<rparr>)
     | Publishing _ _ \<Rightarrow> None) else None)"
| "sys_step repr (Upload_dies n) s =
    (if n < length (uploads s) then Some (s\<lparr>uploads := drop_nth n (uploads s),
       given_up := upload_id (uploads s ! n) # given_up s\<rparr>) else None)"
| "sys_step repr (Deliver w n) s =
    (if workers s w = (Idle, None) \<and> n < length (ready s)
     then Some ((set_worker w (start_handler repr (ready s ! n)) (Some (ready s ! n)) s)
       \<lparr>ready := drop_nth n (ready s)\<rparr>) else None)"
| "sys_step repr (Await w now a) s =
    (if handler_of s w = Idle then None
     else case worker_step now a (handler_of s w) (jobs s) of (h, t, ops) \<Rightarrow>
       Some (fold (broker_step w) ops (set_worker w h (unsettled s w) (s\<lparr>jobs := t\<rparr>))))"
| "sys_step repr (Progress now i x) s = Some (s\<lparr>jobs := update_progress now i x (jobs s)\<rparr>)"
| "sys_step repr (Expire n) s =
    (if n < length (retryq s)
     then Some (dead_letter RETRY_QUEUE (retryq s ! n) (s\<lparr>retryq := drop_nth n (retryq s)\<rparr>)) else None)"
| "sys_step repr (Connection_lost w) s = Some (requeue w (handler_of s w) s)"
| "sys_step repr (Crash w) s = Some (requeue w Idle s)"

fun sys_run :: "(json \<Rightarrow> string) \<Rightarrow> event list \<Rightarrow> sys \<Rightarrow> sys option" where
  "sys_run repr [] s = Some s"
| "sys_run repr (e # es) s = Option.bind (sys_step repr e s) (sys_run repr es)"

inductive sys_reach :: "(json \<Rightarrow> string) \<Rightarrow> sys \<Rightarrow> bool" for repr where
  init: "sys_reach repr sys_init"
| step: "sys_reach repr s \<Longrightarrow> sys_step repr e s = Some s' \<Longrightarrow> sys_reach repr s'"

end
