(* ===== verification/System_Safety.thy ===== *)
theory System_Safety
  imports System
begin

text \<open>
  No accepted job is lost: the invariant of the whole system, by induction over its steps.
\<close>

definition about :: "(json \<Rightarrow> string) \<Rightarrow> incoming \<Rightarrow> string \<Rightarrow> bool" where
  "about repr m i \<longleftrightarrow> (\<exists>p. parse_message repr (in_body m) = Some (i, p))"

fun msg_of :: "handler \<Rightarrow> incoming option" where
  "msg_of Idle = None"
| "msg_of (Nacking_dead m) = Some m"
| "msg_of (Reading_status m i p) = Some m"
| "msg_of (Requeueing m) = Some m"
| "msg_of (Acking_skip m) = Some m"
| "msg_of (Marking m i p) = Some m"
| "msg_of (Running m i p) = Some m"
| "msg_of (Completing m i tr) = Some m"
| "msg_of (Acking_done m i) = Some m"
| "msg_of (Publishing_retry m i err n ttl_ms) = Some m"
| "msg_of (Recording_retry m i err) = Some m"
| "msg_of (Publishing_dead m i err) = Some m"
| "msg_of (Recording_fail m i err) = Some m"
| "msg_of (Acking_failure m i) = Some m"

fun job_of :: "handler \<Rightarrow> string option" where
  "job_of (Reading_status m i p) = Some i"
| "job_of (Marking m i p) = Some i"
| "job_of (Running m i p) = Some i"
| "job_of (Completing m i tr) = Some i"
| "job_of (Acking_done m i) = Some i"
| "job_of (Publishing_retry m i err n ttl_ms) = Some i"
| "job_of (Recording_retry m i err) = Some i"
| "job_of (Publishing_dead m i err) = Some i"
| "job_of (Recording_fail m i err) = Some i"
| "job_of (Acking_failure m i) = Some i"
| "job_of _ = None"

text \<open>A handler that is about to settle its message for good.\<close>

fun finished :: "handler \<Rightarrow> bool" where
  "finished (Nacking_dead m) = True"
| "finished (Acking_skip m) = True"
| "finished (Acking_done m i) = True"
| "finished (Acking_failure m i) = True"
| "finished _ = False"

text \<open>A handler that has not acked or nacked anything yet.\<close>

fun holding :: "handler \<Rightarrow> bool" where
  "holding (Nacking_dead m) = True"
| "holding (Reading_status m i p) = True"
| "holding (Acking_skip m) = True"
| "holding (Marking m i p) = True"
| "holding (Running m i p) = True"
| "holding (Completing m i tr) = True"
| "holding (Acking_done m i) = True"
| "holding _ = False"

definition live :: "(json \<Rightarrow> string) \<Rightarrow> sys \<Rightarrow> string \<Rightarrow> bool" where
  \<comment> \<open>a message for the job is queued, or held by a worker that has not finished with it, or the
     upload is still at work, or has been given up\<close>
  "live repr s i \<longleftrightarrow> (\<exists>m \<in> set (ready s) \<union> set (retryq s). about repr m i) \<or>
     (\<exists>w m. unsettled s w = Some m \<and> about repr m i \<and> \<not> finished (handler_of s w)) \<or>
     (\<exists>p. Publishing i p \<in> set (uploads s) \<or> Undoing i p \<in> set (uploads s)) \<or>
     i \<in> set (given_up s)"

definition messages :: "sys \<Rightarrow> incoming set" where
  "messages s = set (ready s) \<union> set (retryq s) \<union> set (deadq s) \<union>
     {m. \<exists>w. unsettled s w = Some m \<or> msg_of (handler_of s w) = Some m}"

definition parked :: "(json \<Rightarrow> string) \<Rightarrow> sys \<Rightarrow> string \<Rightarrow> bool" where
  "parked repr s i \<longleftrightarrow> (\<exists>m \<in> set (deadq s). about repr m i)"

definition worker_ok :: "(json \<Rightarrow> string) \<Rightarrow> sys \<Rightarrow> handler \<Rightarrow> incoming option \<Rightarrow> bool" where
  "worker_ok repr s h u \<longleftrightarrow>
     (\<forall>m i. msg_of h = Some m \<longrightarrow> job_of h = Some i \<longrightarrow> about repr m i) \<and>
     (u \<noteq> None \<longrightarrow> msg_of h \<noteq> None \<longrightarrow> u = msg_of h) \<and>
     (holding h \<longrightarrow> u = msg_of h) \<and>
     (\<forall>m i. h = Nacking_dead m \<longrightarrow> about repr m i \<longrightarrow> get_status i (jobs s) = None) \<and>
     (\<forall>m i e. h = Recording_retry m i e \<longrightarrow> (\<exists>m' \<in> set (retryq s). about repr m' i)) \<and>
     (\<forall>m i e. h = Recording_fail m i e \<longrightarrow> parked repr s i)"

definition ids_drawn :: "(json \<Rightarrow> string) \<Rightarrow> sys \<Rightarrow> bool" where
  "ids_drawn repr s \<longleftrightarrow> (\<forall>m \<in> messages s. \<forall>i. about repr m i \<longrightarrow> i \<in> set (drawn s)) \<and>
     (\<forall>i. get_status i (jobs s) \<noteq> None \<longrightarrow> i \<in> set (drawn s)) \<and>
     (\<forall>i p. Publishing i p \<in> set (uploads s) \<or> Undoing i p \<in> set (uploads s) \<longrightarrow>
        i \<in> set (drawn s) \<and> py_uuid_ok i)"

definition no_job_lost :: "(json \<Rightarrow> string) \<Rightarrow> sys \<Rightarrow> bool" where
  "no_job_lost repr s \<longleftrightarrow> (\<forall>i. (get_status i (jobs s) = Some Queued \<or> get_status i (jobs s) = Some Processing
       \<longrightarrow> live repr s i) \<and>
     (get_status i (jobs s) = Some Failed \<longrightarrow> parked repr s i))"

definition sys_inv :: "(json \<Rightarrow> string) \<Rightarrow> sys \<Rightarrow> bool" where
  "sys_inv repr s \<longleftrightarrow> table_inv (jobs s) \<and> ids_drawn repr s \<and>
     (\<forall>w. worker_ok repr s (handler_of s w) (unsettled s w)) \<and> no_job_lost repr s"

text \<open>
  What the timing of the system has to exclude: a worker losing its connection while its handler
  lives on (a crash, which loses both, is fine), and the copy of a message expiring in the retry
  queue while the worker that published it still waits for \<open>record_retry\<close>.
\<close>

fun calm :: "(json \<Rightarrow> string) \<Rightarrow> event \<Rightarrow> sys \<Rightarrow> bool" where
  "calm repr (Connection_lost w) s = False"
| "calm repr (Expire n) s = (\<forall>w m i e. handler_of s w = Recording_retry m i e \<longrightarrow>
     \<not> about repr (retryq s ! n) i)"
| "calm repr _ s = True"

inductive calm_reach :: "(json \<Rightarrow> string) \<Rightarrow> sys \<Rightarrow> bool" for repr where
  init: "calm_reach repr sys_init"
| step: "calm_reach repr s \<Longrightarrow> calm repr e s \<Longrightarrow> sys_step repr e s = Some s' \<Longrightarrow> calm_reach repr s'"

subsection \<open>What the parts of a step do\<close>

lemma queue_names [simp]:
  "JOBS_QUEUE \<noteq> RETRY_QUEUE" "JOBS_QUEUE \<noteq> DEAD_QUEUE" "RETRY_QUEUE \<noteq> DEAD_QUEUE"
  "RETRY_QUEUE \<noteq> JOBS_QUEUE" "DEAD_QUEUE \<noteq> JOBS_QUEUE" "DEAD_QUEUE \<noteq> RETRY_QUEUE"
  by (simp_all add: topology_names)

lemma publish_simps [simp]:
  "publish_to EXCHANGE ROUTING_KEY_JOB m s = s\<lparr>ready := ready s @ [m]\<rparr>"
  "publish_to EXCHANGE ROUTING_KEY_RETRY m s = s\<lparr>retryq := retryq s @ [m]\<rparr>"
  "publish_to DLX_EXCHANGE ROUTING_KEY_DEAD m s = s\<lparr>deadq := deadq s @ [m]\<rparr>"
  "dead_letter RETRY_QUEUE m s = s\<lparr>ready := ready s @ [m]\<rparr>"
  "dead_letter JOBS_QUEUE m s = s\<lparr>deadq := deadq s @ [m]\<rparr>"
  by (simp_all add: publish_to_def dead_letter_def routes deliver_to_def)

lemma set_worker_simps [simp]:
  "jobs (set_worker w h u s) = jobs s" "ready (set_worker w h u s) = ready s"
  "retryq (set_worker w h u s) = retryq s" "deadq (set_worker w h u s) = deadq s"
  "uploads (set_worker w h u s) = uploads s" "drawn (set_worker w h u s) = drawn s"
  "given_up (set_worker w h u s) = given_up s"
  "workers (set_worker w h u s) = (workers s)(w := (h, u))"
  by (simp_all add: set_worker_def)

lemma set_worker_twice [simp]: "set_worker w h u (set_worker w h' u' s) = set_worker w h u s"
  by (simp add: set_worker_def)

lemma settle_simps [simp]:
  "broker_step w Ack (set_worker w h u s) = set_worker w h None s"
  "broker_step w (Nack True) (set_worker w h (Some m) s) = (set_worker w h None s)\<lparr>ready := m # ready s\<rparr>"
  "broker_step w (Nack True) (set_worker w h None s) = set_worker w h None s"
  "broker_step w (Nack False) (set_worker w h None s) = set_worker w h None s"
  "broker_step w (Nack False) (set_worker w h (Some m) s) = (set_worker w h None s)\<lparr>deadq := deadq s @ [m]\<rparr>"
  by (simp_all add: requeue_def)

lemma in_drop_nth: "x \<in> set (drop_nth n xs) \<Longrightarrow> x \<in> set xs"
  by (auto simp: drop_nth_def dest: in_set_takeD in_set_dropD)

lemma drop_nth_mem:
  assumes "x \<in> set xs"
  shows "x \<in> set (drop_nth n xs) \<or> n < length xs \<and> x = xs ! n"
proof (cases "n < length xs")
  case True
  have "set xs = set (take n xs @ xs ! n # drop (Suc n) xs)"
    using id_take_nth_drop [OF True] by metis
  then show ?thesis using assms True by (auto simp: drop_nth_def)
next
  case False
  then show ?thesis using assms by (simp add: drop_nth_def)
qed

lemma about_unique: "about repr m i \<Longrightarrow> about repr m k \<Longrightarrow> k = i"
  by (simp add: about_def) force

lemma about_retry [simp]: "about repr (retry_message m n) i = about repr m i"
  by (simp add: about_def retry_message_def)

lemma about_from_api:
  "py_uuid_ok i \<Longrightarrow> about repr (from_api (job_out i p)) k \<longleftrightarrow> k = i"
  using parse_api_message [of repr i p 0] by (auto simp: about_def from_api_def job_out_def)

lemma worker_okD:
  "worker_ok repr s h u \<Longrightarrow> holding h \<Longrightarrow> u = msg_of h"
  "worker_ok repr s h u \<Longrightarrow> msg_of h = Some m \<Longrightarrow> job_of h = Some i \<Longrightarrow> about repr m i"
  "worker_ok repr s h u \<Longrightarrow> u = None \<or> msg_of h = None \<or> u = msg_of h"
  "worker_ok repr s (Recording_retry m i e) u \<Longrightarrow> \<exists>m' \<in> set (retryq s). about repr m' i"
  "worker_ok repr s (Recording_fail m i e) u \<Longrightarrow> parked repr s i"
  unfolding worker_ok_def by blast+

text \<open>What the invariant of a worker says at each \<open>await\<close>.\<close>

lemma worker_ok_simps [simp]:
  "worker_ok repr s Idle u"
  "worker_ok repr s (Nacking_dead m) u \<longleftrightarrow> u = Some m \<and> (\<forall>i. about repr m i \<longrightarrow> get_status i (jobs s) = None)"
  "worker_ok repr s (Reading_status m i p) u \<longleftrightarrow> u = Some m \<and> about repr m i"
  "worker_ok repr s (Requeueing m) u \<longleftrightarrow> u = None \<or> u = Some m"
  "worker_ok repr s (Acking_skip m) u \<longleftrightarrow> u = Some m"
  "worker_ok repr s (Marking m i p) u \<longleftrightarrow> u = Some m \<and> about repr m i"
  "worker_ok repr s (Running m i p) u \<longleftrightarrow> u = Some m \<and> about repr m i"
  "worker_ok repr s (Completing m i tr) u \<longleftrightarrow> u = Some m \<and> about repr m i"
  "worker_ok repr s (Acking_done m i) u \<longleftrightarrow> u = Some m \<and> about repr m i"
  "worker_ok repr s (Publishing_retry m i err n ttl) u \<longleftrightarrow> (u = None \<or> u = Some m) \<and> about repr m i"
  "worker_ok repr s (Recording_retry m i err) u \<longleftrightarrow> (u = None \<or> u = Some m) \<and> about repr m i \<and>
     (\<exists>m' \<in> set (retryq s). about repr m' i)"
  "worker_ok repr s (Publishing_dead m i err) u \<longleftrightarrow> (u = None \<or> u = Some m) \<and> about repr m i"
  "worker_ok repr s (Recording_fail m i err) u \<longleftrightarrow> (u = None \<or> u = Some m) \<and> about repr m i \<and> parked repr s i"
  "worker_ok repr s (Acking_failure m i) u \<longleftrightarrow> (u = None \<or> u = Some m) \<and> about repr m i"
  by (auto simp: worker_ok_def)

lemma start_failure_simps [simp]:
  "worker_ok repr s (start_failure m i e) u \<longleftrightarrow> start_failure m i e = Idle \<or> (u = None \<or> u = Some m) \<and> about repr m i"
  "\<not> finished (start_failure m i e)"
  using start_failure_cases [of m i e] by auto

lemma start_failure_msg: "msg_of (start_failure m i e) = None \<or> msg_of (start_failure m i e) = Some m"
  using start_failure_cases [of m i e] by auto

subsection \<open>Preservation by a step of a worker\<close>

abbreviation pending :: "job_status option \<Rightarrow> bool" where
  "pending st \<equiv> st = Some Queued \<or> st = Some Processing"

lemma no_job_lostD:
  "no_job_lost repr s \<Longrightarrow> pending (get_status i (jobs s)) \<Longrightarrow> live repr s i"
  "no_job_lost repr s \<Longrightarrow> get_status i (jobs s) = Some Failed \<Longrightarrow> parked repr s i"
  by (auto simp: no_job_lost_def)

text \<open>
  A step of worker \<open>w\<close> only adds messages to the queues, and only ones about jobs its own message
  is about; what remains to show of it is about \<open>w\<close> and the rows it changes.
\<close>

lemma worker_step_inv:
  assumes inv: "sys_inv repr s" and w: "workers s w = (h, u)"
    and same: "drawn s' = drawn s" "uploads s' = uploads s" "given_up s' = given_up s"
      "workers s' = (workers s)(w := (h', u'))"
    and grow: "set (ready s) \<subseteq> set (ready s')" "set (retryq s) \<subseteq> set (retryq s')" "set (deadq s) \<subseteq> set (deadq s')"
    and new: "\<And>m i. m \<in> set (ready s') \<union> set (retryq s') \<union> set (deadq s') \<Longrightarrow> about repr m i \<Longrightarrow>
      m \<in> set (ready s) \<union> set (retryq s) \<union> set (deadq s) \<or> (\<exists>m'. (u = Some m' \<or> msg_of h = Some m') \<and> about repr m' i)"
    and own: "msg_of h' = None \<or> msg_of h' = msg_of h" "u' = None \<or> u' = u"
    and table: "table_inv (jobs s')" "\<And>i. get_status i (jobs s') = None \<longleftrightarrow> get_status i (jobs s) = None"
    and ok: "worker_ok repr s' h' u'"
    and pend: "\<And>i. pending (get_status i (jobs s')) \<Longrightarrow> pending (get_status i (jobs s)) \<or> live repr s' i"
    and failed: "\<And>i. get_status i (jobs s') = Some Failed \<Longrightarrow>
      get_status i (jobs s) = Some Failed \<or> parked repr s' i"
    and settled: "\<And>m i. u = Some m \<Longrightarrow> about repr m i \<Longrightarrow> \<not> finished h \<Longrightarrow>
      pending (get_status i (jobs s')) \<Longrightarrow> live repr s' i"
  shows "sys_inv repr s'"
proof -
  have drawn: "ids_drawn repr s" and others: "\<And>v. worker_ok repr s (handler_of s v) (unsettled s v)"
    and lost: "no_job_lost repr s" using inv by (auto simp: sys_inv_def)
  have hw: "handler_of s w = h" "unsettled s w = u" using w by simp_all
  have "messages s' \<subseteq> messages s \<union> {m. m \<in> set (ready s') \<union> set (retryq s') \<union> set (deadq s')}"
    using own hw by (auto simp: messages_def same split: if_splits)
  moreover have "i \<in> set (drawn s)" if "m \<in> set (ready s') \<union> set (retryq s') \<union> set (deadq s')" "about repr m i" for m i
    using new [OF that] drawn hw that(2) by (fastforce simp: ids_drawn_def messages_def)
  ultimately have "i \<in> set (drawn s)" if "m \<in> messages s'" "about repr m i" for m i
    using that drawn unfolding ids_drawn_def by blast
  then have "ids_drawn repr s'"
    using drawn table(2) by (auto simp: ids_drawn_def same)
  moreover have "worker_ok repr s' (handler_of s' v) (unsettled s' v)" for v
  proof (cases "v = w")
    case True
    then show ?thesis using ok by (simp add: same)
  next
    case False
    have "parked repr s i \<Longrightarrow> parked repr s' i" for i using grow(3) by (auto simp: parked_def)
    with False others [of v] grow(2) table(2) show ?thesis
      by (fastforce simp: worker_ok_def same)
  qed
  moreover have "live repr s' i" if pending: "pending (get_status i (jobs s'))" for i
    using pend [OF pending]
  proof
    assume "pending (get_status i (jobs s))"
    from no_job_lostD(1) [OF lost this]
    consider (queued) m where "m \<in> set (ready s) \<union> set (retryq s)" "about repr m i"
      | (held) v m where "unsettled s v = Some m" "about repr m i" "\<not> finished (handler_of s v)"
      | (api) "(\<exists>p. Publishing i p \<in> set (uploads s) \<or> Undoing i p \<in> set (uploads s)) \<or> i \<in> set (given_up s)"
      unfolding live_def by blast
    then show ?thesis
    proof cases
      case queued
      then show ?thesis using grow(1,2) by (auto simp: live_def)
    next
      case held
      show ?thesis
      proof (cases "v = w")
        case True
        then show ?thesis using settled pending held hw by simp
      next
        case False
        then have "unsettled s' v = Some m" "handler_of s' v = handler_of s v" using held by (simp_all add: same)
        then show ?thesis using held(2,3) unfolding live_def by metis
      qed
    next
      case api
      then show ?thesis by (simp add: live_def same)
    qed
  qed
  moreover have "parked repr s' i" if "get_status i (jobs s') = Some Failed" for i
    using failed [OF that] no_job_lostD(2) [OF lost] grow(3) by (auto simp: parked_def)
  ultimately show ?thesis using table(1) by (simp add: sys_inv_def no_job_lost_def)
qed

lemma await_cases:
  assumes "sys_step repr (Await w now a) s = Some s'"
  obtains h t ops where "worker_step now a (handler_of s w) (jobs s) = (h, t, ops)"
    and "handler_of s w \<noteq> Idle"
    and "s' = fold (broker_step w) ops (set_worker w h (unsettled s w) (s\<lparr>jobs := t\<rparr>))"
  using assms by (auto split: if_splits prod.splits)

text \<open>A step that only moves the handler on, with the same delivery, table and queues.\<close>

lemma move_on_inv:
  assumes inv: "sys_inv repr s" and w: "workers s w = (h, u)"
    and own: "msg_of h' = None \<or> msg_of h' = msg_of h"
    and ok: "worker_ok repr s h' u"
    and settled: "\<And>m i. u = Some m \<Longrightarrow> about repr m i \<Longrightarrow> \<not> finished h \<Longrightarrow>
      pending (get_status i (jobs s)) \<Longrightarrow> \<not> finished h'"
  shows "sys_inv repr (set_worker w h' u s)"
proof -
  have ok': "worker_ok repr (set_worker w h' u s) h' u" using ok by (simp add: worker_ok_def parked_def)
  have settled': "live repr (set_worker w h' u s) i"
    if "u = Some m" "about repr m i" "\<not> finished h" "pending (get_status i (jobs s))" for m i
    using settled [OF that] that(1,2) unfolding live_def by (simp add: ) metis
  show ?thesis
    by (rule worker_step_inv [OF inv w, where h' = h' and u' = u])
      (use inv own ok' settled' in \<open>auto simp: sys_inv_def\<close>)
qed

text \<open>A step that sets the status of the handler's job and moves on.\<close>

lemma set_status_inv:
  assumes inv: "sys_inv repr s" and w: "workers s w = (h, u)"
    and h: "msg_of h = Some m" "job_of h = Some i"
    and own: "msg_of h' = None \<or> msg_of h' = msg_of h"
    and table: "table_inv t = table_inv (jobs s)"
    and status: "\<And>k. get_status k t = (if k = i then map_option (\<lambda>_. st) (get_status k (jobs s))
        else get_status k (jobs s))"
    and ok: "worker_ok repr (s\<lparr>jobs := t\<rparr>) h' u"
    and still: "\<not> finished h \<Longrightarrow> finished h' \<Longrightarrow> st = Completed \<or> st = Failed \<or> (\<exists>m' \<in> set (retryq s). about repr m' i)"
    and st: "st = Processing \<and> u = Some m \<and> \<not> finished h' \<or> st = Queued \<and> (\<exists>m' \<in> set (retryq s). about repr m' i) \<or>
      st = Completed \<or> st = Failed \<and> parked repr s i"
  shows "sys_inv repr (set_worker w h' u (s\<lparr>jobs := t\<rparr>))" (is "sys_inv repr ?s")
proof -
  have wok: "worker_ok repr s h u" using inv w by (metis sys_inv_def fst_conv snd_conv)
  have about_m: "about repr m i" using wok h by (auto simp: worker_ok_def)
  have about_i: "k = i" if "about repr m k" for k by (rule about_unique [OF about_m that])
  have um: "u = None \<or> u = Some m" using wok h by (auto simp: worker_ok_def)
  have livei: "live repr ?s i" if "get_status i t = Some Queued \<or> get_status i t = Some Processing"
  proof -
    have "st = Queued \<or> st = Processing" using that status [of i] by auto
    with st have "u = Some m \<and> \<not> finished h' \<or> (\<exists>m' \<in> set (retryq s). about repr m' i)" by auto
    then show ?thesis using about_m by (auto simp: live_def)
  qed
  show ?thesis
  proof (rule worker_step_inv [OF inv w, where h' = h' and u' = u])
    show "worker_ok repr ?s h' u" using ok by (simp add: worker_ok_def parked_def)
    show "pending (get_status k (jobs ?s)) \<Longrightarrow> pending (get_status k (jobs s)) \<or> live repr ?s k" for k
      using livei status by (cases "k = i") auto
    show "get_status k (jobs ?s) = Some Failed \<Longrightarrow> get_status k (jobs s) = Some Failed \<or> parked repr ?s k" for k
      using st status by (cases "k = i") (auto simp: parked_def)
    show "live repr ?s k" if "u = Some m'" "about repr m' k" "\<not> finished h" "pending (get_status k (jobs ?s))" for m' k
    proof -
      have "k = i" using that um about_i by auto
      then show ?thesis using livei that(4) by simp
    qed
    show "(get_status k (jobs ?s) = None) = (get_status k (jobs s) = None)" for k
      using status by simp
  qed (use own table inv in \<open>auto simp: sys_inv_def\<close>)
qed

lemma own_ok: "sys_inv repr s \<Longrightarrow> workers s w = (h, u) \<Longrightarrow> worker_ok repr s h u"
  by (metis sys_inv_def fst_conv snd_conv)

text \<open>The ways a step touches the queues.\<close>

lemma settled_inv:
  assumes inv: "sys_inv repr s" and w: "workers s w = (h, u)" and h: "finished h"
    and own: "msg_of h' = None \<or> msg_of h' = msg_of h" and ok: "worker_ok repr s h' None"
  shows "sys_inv repr (set_worker w h' None s)"
proof -
  have "worker_ok repr (set_worker w h' None s) h' None" using ok by (simp add: worker_ok_def parked_def)
  then show ?thesis
    by (intro worker_step_inv [OF inv w, where h' = h' and u' = None])
      (use own inv h in \<open>auto simp: sys_inv_def\<close>)
qed

lemma requeued_inv:
  assumes inv: "sys_inv repr s" and w: "workers s w = (h, u)"
  shows "sys_inv repr (requeue w Idle s)"
proof (cases u)
  case None
  have "sys_inv repr (set_worker w Idle None s)"
    by (rule worker_step_inv [OF inv w, where h' = Idle and u' = None])
      (use inv None in \<open>auto simp: sys_inv_def worker_ok_def\<close>)
  then show ?thesis using w None by (simp add: requeue_def)
next
  case (Some m)
  have "sys_inv repr ((set_worker w Idle None s)\<lparr>ready := m # ready s\<rparr>)"
    by (rule worker_step_inv [OF inv w, where h' = Idle and u' = None])
      (use inv Some in \<open>auto simp: sys_inv_def worker_ok_def live_def\<close>)
  then show ?thesis using w Some by (simp add: requeue_def)
qed

lemma dead_lettered_inv:
  assumes inv: "sys_inv repr s" and w: "workers s w = (h, Some m)" and h: "finished h"
  shows "sys_inv repr ((set_worker w Idle None s)\<lparr>deadq := deadq s @ [m]\<rparr>)"
  by (rule worker_step_inv [OF inv w, where h' = Idle and u' = None])
    (use inv h in \<open>auto simp: sys_inv_def worker_ok_def parked_def\<close>)

lemma retry_published_inv:
  assumes inv: "sys_inv repr s" and w: "workers s w = (h, u)" and h: "msg_of h = Some m"
    and own: "msg_of h' = Some m" "\<not> finished h'"
    and ok: "worker_ok repr (s\<lparr>retryq := retryq s @ [retry_message m n]\<rparr>) h' u"
  shows "sys_inv repr ((set_worker w h' u s)\<lparr>retryq := retryq s @ [retry_message m n]\<rparr>)" (is "sys_inv repr ?s")
proof -
  have "worker_ok repr ?s h' u" using ok by (simp add: worker_ok_def parked_def)
  moreover have "live repr ?s k" if "u = Some m'" "about repr m' k" for m' k
  proof -
    have "unsettled ?s w = Some m' \<and> about repr m' k \<and> \<not> finished (handler_of ?s w)"
      using that own(2) by simp
    then show ?thesis unfolding live_def by blast
  qed
  ultimately show ?thesis
    by (intro worker_step_inv [OF inv w, where h' = h' and u' = u])
      (use inv own(1) h in \<open>auto simp: sys_inv_def\<close>)
qed

lemma dead_published_inv:
  assumes inv: "sys_inv repr s" and w: "workers s w = (h, u)" and h: "msg_of h = Some m"
    and own: "msg_of h' = Some m" "\<not> finished h'"
    and ok: "worker_ok repr (s\<lparr>deadq := deadq s @ [m]\<rparr>) h' u"
  shows "sys_inv repr ((set_worker w h' u s)\<lparr>deadq := deadq s @ [m]\<rparr>)" (is "sys_inv repr ?s")
proof -
  have "worker_ok repr ?s h' u" using ok by (simp add: worker_ok_def parked_def)
  moreover have "live repr ?s k" if "u = Some m'" "about repr m' k" for m' k
  proof -
    have "unsettled ?s w = Some m' \<and> about repr m' k \<and> \<not> finished (handler_of ?s w)"
      using that own(2) by simp
    then show ?thesis unfolding live_def by blast
  qed
  ultimately show ?thesis
    by (intro worker_step_inv [OF inv w, where h' = h' and u' = u])
      (use inv own(1) h in \<open>auto simp: sys_inv_def\<close>)
qed

subsection \<open>Each await of the handler\<close>

lemma await_eq:
  assumes "sys_step repr (Await w now a) s = Some s'" and "workers s w = (h, u)"
  shows "s' = (case worker_step now a h (jobs s) of (h', t, ops) \<Rightarrow>
    fold (broker_step w) ops (set_worker w h' u (s\<lparr>jobs := t\<rparr>)))"
  using assms by (auto split: if_splits prod.splits)

lemma reading_inv:
  assumes inv: "sys_inv repr s" and w: "workers s w = (Reading_status m i p, u)"
    and step: "sys_step repr (Await w now a) s = Some s'"
  shows "sys_inv repr s'"
proof -
  note wok = own_ok [OF inv w]
  have u: "u = Some m" using worker_okD(1) [OF wok] by simp
  have mi: "about repr m i" by (rule worker_okD(2) [OF wok]) simp_all
  note uniq = about_unique [OF mi]
  have requeueing: "sys_inv repr (set_worker w (Requeueing m) u s)"
    by (rule move_on_inv [OF inv w]) (use u in auto)
  have marking: "sys_inv repr (set_worker w (Marking m i p) u s)"
    by (rule move_on_inv [OF inv w]) (use u mi in auto)
  have unknown: "sys_inv repr (set_worker w (Nacking_dead m) u s)" if "get_status i (jobs s) = None"
    by (rule move_on_inv [OF inv w]) (use u uniq that in auto)
  have skip: "sys_inv repr (set_worker w (Acking_skip m) u s)" if "get_status i (jobs s) = Some Completed"
    by (rule move_on_inv [OF inv w]) (use u uniq that in auto)
  show ?thesis using await_eq [OF step w] requeueing marking unknown skip
    by (cases a) (simp_all split: option.splits if_splits)
qed

lemma settling_inv:
  assumes inv: "sys_inv repr s" and w: "workers s w = (h, u)"
    and h: "h = Nacking_dead m \<or> h = Requeueing m \<or> h = Acking_skip m"
    and step: "sys_step repr (Await w now a) s = Some s'"
  shows "sys_inv repr s'"
proof -
  have wok: "worker_ok repr s h u" by (rule own_ok [OF inv w])
  have idle: "sys_inv repr (set_worker w Idle u s)"
    by (rule move_on_inv [OF inv w]) auto
  have requeued: "sys_inv repr (broker_step w (Nack True) (set_worker w Idle u s))"
    using requeued_inv [OF idle, of w Idle u] by simp
  have settled: "sys_inv repr (set_worker w Idle None s)" if "finished h"
    using that by (intro settled_inv [OF inv w]) auto
  have dead: "sys_inv repr (broker_step w (Nack False) (set_worker w Idle u s))" if "finished h"
    using dead_lettered_inv [OF inv _ that, of w] w settled [OF that] by (cases u) (auto simp del: broker_step.simps)
  show ?thesis using await_eq [OF step w] h idle requeued settled dead
    by (cases a) (auto simp del: broker_step.simps(2) settle_simps)
qed

lemma acked_inv:
  assumes inv: "sys_inv repr s" and w: "workers s w = (h, u)"
    and h: "h = Acking_done m i \<or> h = Acking_failure m i"
    and step: "sys_step repr (Await w now a) s = Some s'"
  shows "sys_inv repr s'"
proof -
  have ok: "(u = None \<or> u = Some m) \<and> about repr m i" using own_ok [OF inv w] h by auto
  have fin: "finished h" and hm: "msg_of h = Some m" using h by auto
  have idle: "sys_inv repr (set_worker w Idle None s)"
    by (rule settled_inv [OF inv w fin]) simp_all
  have failed: "sys_inv repr (set_worker w (start_failure m i e) None s)" for e
    by (rule settled_inv [OF inv w fin]) (use ok hm start_failure_msg in simp_all)
  have failed': "sys_inv repr (set_worker w (start_failure m i e) u s)" for e
    by (rule move_on_inv [OF inv w]) (use ok hm start_failure_msg in simp_all)
  have requeue: "sys_inv repr (set_worker w (Requeueing m) None s)"
    by (rule settled_inv [OF inv w fin]) (use hm in simp_all)
  have requeue': "sys_inv repr (set_worker w (Requeueing m) u s)"
    by (rule move_on_inv [OF inv w]) (use hm ok in simp_all)
  show ?thesis using await_eq [OF step w] h idle failed failed' requeue requeue'
    by (cases a) (auto simp del: broker_step.simps)
qed

lemma publishing_inv:
  assumes inv: "sys_inv repr s" and w: "workers s w = (h, u)"
    and h: "h = Publishing_retry m i err n ttl \<or> h = Publishing_dead m i err"
    and step: "sys_step repr (Await w now a) s = Some s'"
  shows "sys_inv repr s'"
proof -
  have ok: "(u = None \<or> u = Some m) \<and> about repr m i" using own_ok [OF inv w] h by auto
  have hm: "msg_of h = Some m" using h by auto
  have requeue: "sys_inv repr (set_worker w (Requeueing m) u s)"
    by (rule move_on_inv [OF inv w]) (use hm ok in simp_all)
  have retry: "sys_inv repr ((set_worker w h' u s)\<lparr>retryq := retryq s @ [retry_message m n]\<rparr>)"
    if "h' = Recording_retry m i err \<or> h' = Requeueing m" for h'
    by (rule retry_published_inv [OF inv w hm]) (use that ok in auto)
  have dead: "sys_inv repr ((set_worker w h' u s)\<lparr>deadq := deadq s @ [m]\<rparr>)"
    if "h' = Recording_fail m i err \<or> h' = Requeueing m" for h'
    by (rule dead_published_inv [OF inv w hm]) (use that ok in \<open>auto simp: parked_def\<close>)
  show ?thesis using h
  proof
    assume "h = Publishing_retry m i err n ttl"
    then show ?thesis using await_eq [OF step w] by (cases a) (simp_all add: requeue retry)
  next
    assume "h = Publishing_dead m i err"
    then show ?thesis using await_eq [OF step w] by (cases a) (simp_all add: requeue dead)
  qed
qed

text \<open>The four database writes.\<close>

lemma marking_inv:
  assumes inv: "sys_inv repr s" and w: "workers s w = (Marking m i p, u)"
    and step: "sys_step repr (Await w now a) s = Some s'"
  shows "sys_inv repr s'"
proof -
  have ok: "u = Some m" "about repr m i" using own_ok [OF inv w] by simp_all
  have mark: "sys_inv repr (set_worker w h' u (s\<lparr>jobs := mark_processing now i (jobs s)\<rparr>))"
    if "h' = Running m i p \<or> (\<exists>e. h' = start_failure m i e)" for h'
    by (rule set_status_inv [OF inv w, where st = Processing and m = m])
      (use that ok start_failure_msg in \<open>auto simp: statement_status\<close>)
  have same: "sys_inv repr (set_worker w (start_failure m i e) u s)" for e
    by (rule move_on_inv [OF inv w]) (use ok start_failure_msg in simp_all)
  show ?thesis using await_eq [OF step w] mark same by (cases a) auto
qed

lemma completing_inv:
  assumes inv: "sys_inv repr s" and w: "workers s w = (Completing m i tr, u)"
    and step: "sys_step repr (Await w now a) s = Some s'"
  shows "sys_inv repr s'"
proof -
  have ok: "u = Some m" "about repr m i" using own_ok [OF inv w] by simp_all
  have complete: "sys_inv repr (set_worker w h' u (s\<lparr>jobs := complete now i tr (jobs s)\<rparr>))"
    if "h' = Acking_done m i \<or> (\<exists>e. h' = start_failure m i e)" for h'
    by (rule set_status_inv [OF inv w, where st = Completed and m = m])
      (use that ok start_failure_msg in \<open>auto simp: statement_status\<close>)
  have same: "sys_inv repr (set_worker w (start_failure m i e) u s)" for e
    by (rule move_on_inv [OF inv w]) (use ok start_failure_msg in simp_all)
  show ?thesis using await_eq [OF step w] complete same by (cases a) auto
qed

lemma recording_inv:
  assumes inv: "sys_inv repr s" and w: "workers s w = (h, u)"
    and h: "h = Recording_retry m i err \<or> h = Recording_fail m i err"
    and step: "sys_step repr (Await w now a) s = Some s'"
  shows "sys_inv repr s'"
proof -
  have ok: "u = None \<or> u = Some m" "about repr m i" using own_ok [OF inv w] h by auto
  have same: "sys_inv repr (set_worker w (Requeueing m) u s)"
    by (rule move_on_inv [OF inv w]) (use ok h in auto)
  have retry: "sys_inv repr (set_worker w h' u (s\<lparr>jobs := record_retry now i err (jobs s)\<rparr>))"
    if "h = Recording_retry m i err" "h' = Acking_failure m i \<or> h' = Requeueing m" for h'
    by (rule set_status_inv [OF inv w, where st = Queued and m = m])
      (use that ok own_ok [OF inv w] in \<open>auto simp: statement_status\<close>)
  have failed: "sys_inv repr (set_worker w h' u (s\<lparr>jobs := fail now i err (jobs s)\<rparr>))"
    if "h = Recording_fail m i err" "h' = Acking_failure m i \<or> h' = Requeueing m" for h'
    by (rule set_status_inv [OF inv w, where st = Failed and m = m])
      (use that ok own_ok [OF inv w] in \<open>auto simp: statement_status\<close>)
  show ?thesis using h
  proof
    assume "h = Recording_retry m i err"
    then show ?thesis using await_eq [OF step w] by (cases a) (simp_all add: same retry)
  next
    assume "h = Recording_fail m i err"
    then show ?thesis using await_eq [OF step w] by (cases a) (simp_all add: same failed)
  qed
qed

lemma running_inv:
  assumes inv: "sys_inv repr s" and w: "workers s w = (Running m i p, u)"
    and step: "sys_step repr (Await w now a) s = Some s'"
  shows "sys_inv repr s'"
proof -
  have ok: "u = Some m" "about repr m i" using own_ok [OF inv w] by simp_all
  have "sys_inv repr (set_worker w h' u s)"
    if "(\<exists>e. h' = start_failure m i e) \<or> h' = Running m i p \<or> (\<exists>tr. h' = Completing m i tr)" for h'
    by (rule move_on_inv [OF inv w]) (use that ok start_failure_msg in auto)
  then show ?thesis using await_eq [OF step w] by (cases a) auto
qed

lemma worker_await_inv:
  assumes inv: "sys_inv repr s" and step: "sys_step repr (Await w now a) s = Some s'"
  shows "sys_inv repr s'"
proof -
  obtain h u where w: "workers s w = (h, u)" by fastforce
  show ?thesis
  proof (cases h)
    case Idle
    then show ?thesis using step w by simp
  next
    case (Nacking_dead m)
    show ?thesis by (rule settling_inv [OF inv w _ step, of m]) (simp add: Nacking_dead)
  next
    case (Reading_status m i p)
    show ?thesis by (rule reading_inv [OF inv w [unfolded Reading_status] step])
  next
    case (Requeueing m)
    show ?thesis by (rule settling_inv [OF inv w _ step, of m]) (simp add: Requeueing)
  next
    case (Acking_skip m)
    show ?thesis by (rule settling_inv [OF inv w _ step, of m]) (simp add: Acking_skip)
  next
    case (Marking m i p)
    show ?thesis by (rule marking_inv [OF inv w [unfolded Marking] step])
  next
    case (Running m i p)
    show ?thesis by (rule running_inv [OF inv w [unfolded Running] step])
  next
    case (Completing m i tr)
    show ?thesis by (rule completing_inv [OF inv w [unfolded Completing] step])
  next
    case (Acking_done m i)
    show ?thesis by (rule acked_inv [OF inv w _ step, of m i]) (simp add: Acking_done)
  next
    case (Publishing_retry m i err n ttl)
    show ?thesis by (rule publishing_inv [OF inv w _ step, of m i err n ttl]) (simp add: Publishing_retry)
  next
    case (Recording_retry m i err)
    show ?thesis by (rule recording_inv [OF inv w _ step, of m i err]) (simp add: Recording_retry)
  next
    case (Publishing_dead m i err)
    show ?thesis by (rule publishing_inv [OF inv w _ step, of m i err]) (simp add: Publishing_dead)
  next
    case (Recording_fail m i err)
    show ?thesis by (rule recording_inv [OF inv w _ step, of m i err]) (simp add: Recording_fail)
  next
    case (Acking_failure m i)
    show ?thesis by (rule acked_inv [OF inv w _ step, of m i]) (simp add: Acking_failure)
  qed
qed

subsection \<open>The other steps\<close>

lemma live_jobs [simp]: "live repr (s\<lparr>jobs := t\<rparr>) i = live repr s i"
  by (simp add: live_def)

lemma progress_inv:
  assumes "sys_inv repr s"
  shows "sys_inv repr (s\<lparr>jobs := update_progress now i x (jobs s)\<rparr>)"
  using assms
  by (simp add: sys_inv_def ids_drawn_def no_job_lost_def messages_def parked_def worker_ok_def statement_status)

lemma live_grow:
  assumes "live repr s i"
    and "set (ready s) \<union> set (retryq s) \<subseteq> set (ready s') \<union> set (retryq s') \<union> {m. \<not> about repr m i}"
    and "workers s' = workers s" "set (uploads s) \<subseteq> set (uploads s')" "set (given_up s) \<subseteq> set (given_up s')"
  shows "live repr s' i"
proof -
  from assms(1) consider (queued) m where "m \<in> set (ready s) \<union> set (retryq s)" "about repr m i"
    | (held) v m where "unsettled s v = Some m" "about repr m i" "\<not> finished (handler_of s v)"
    | (api) "(\<exists>p. Publishing i p \<in> set (uploads s) \<or> Undoing i p \<in> set (uploads s)) \<or> i \<in> set (given_up s)"
    unfolding live_def by blast
  then show ?thesis
  proof cases
    case queued
    then show ?thesis using assms(2) unfolding live_def by blast
  next
    case held
    then show ?thesis using assms(3) unfolding live_def by metis
  next
    case api
    then show ?thesis using assms(4,5) unfolding live_def by blast
  qed
qed

lemma expire_inv:
  assumes inv: "sys_inv repr s" and calm: "calm repr (Expire n) s"
    and step: "sys_step repr (Expire n) s = Some s'"
  shows "sys_inv repr s'"
proof -
  have n: "n < length (retryq s)" and s': "s' = s\<lparr>ready := ready s @ [retryq s ! n], retryq := drop_nth n (retryq s)\<rparr>"
    using step by (auto split: if_splits)
  have same: "set (retryq s) \<subseteq> insert (retryq s ! n) (set (drop_nth n (retryq s)))"
    "set (drop_nth n (retryq s)) \<subseteq> set (retryq s)" "retryq s ! n \<in> set (retryq s)"
    using drop_nth_mem [of _ "retryq s" n] in_drop_nth n by auto
  have "messages s' \<subseteq> messages s" using same by (auto simp: messages_def s')
  then have "ids_drawn repr s'" using inv unfolding sys_inv_def ids_drawn_def by (auto simp: s')
  moreover have "worker_ok repr s' (handler_of s v) (unsettled s v)" for v
  proof -
    have "worker_ok repr s (handler_of s v) (unsettled s v)" using inv by (simp add: sys_inv_def)
    moreover have "\<exists>m' \<in> set (drop_nth n (retryq s)). about repr m' i"
      if "handler_of s v = Recording_retry m i e" "m' \<in> set (retryq s)" "about repr m' i" for m i e m'
      using that calm same(1) by fastforce
    ultimately show ?thesis
      by (cases "handler_of s v") (auto simp: s' parked_def)
  qed
  moreover have "live repr s' i" if "live repr s i" for i
    by (rule live_grow [OF that]) (use same in \<open>auto simp: s'\<close>)
  ultimately show ?thesis using inv by (simp add: sys_inv_def no_job_lost_def s' parked_def)
qed

lemma deliver_inv:
  assumes inv: "sys_inv repr s" and step: "sys_step repr (Deliver w n) s = Some s'"
  shows "sys_inv repr s'"
proof -
  let ?m = "ready s ! n" and ?h = "start_handler repr (ready s ! n)"
  have n: "n < length (ready s)" and w: "workers s w = (Idle, None)"
    and s': "s' = (set_worker w ?h (Some ?m) s)\<lparr>ready := drop_nth n (ready s)\<rparr>"
    using step by (auto split: if_splits)
  have same: "set (ready s) \<subseteq> insert ?m (set (drop_nth n (ready s)))"
    "set (drop_nth n (ready s)) \<subseteq> set (ready s)" "?m \<in> set (ready s)"
    using drop_nth_mem [of _ "ready s" n] in_drop_nth n by auto
  have h: "msg_of ?h = Some ?m" "worker_ok repr s ?h (Some ?m)"
    by (auto simp: start_handler_def about_def split: option.split)
  have fin: "\<not> finished ?h" if "about repr ?m i" for i
    using that by (auto simp: start_handler_def about_def)
  have "messages s' \<subseteq> messages s" using same h(1) by (auto simp: messages_def s' split: if_splits)
  then have "ids_drawn repr s'" using inv unfolding sys_inv_def ids_drawn_def by (auto simp: s')
  moreover have "worker_ok repr s' (handler_of s' v) (unsettled s' v)" for v
  proof -
    have "worker_ok repr s (handler_of s' v) (unsettled s' v)"
      using inv h(2) by (cases "v = w") (simp_all add: sys_inv_def s')
    then show ?thesis by (simp add: worker_ok_def s' parked_def)
  qed
  moreover have "live repr s' i" if "live repr s i" for i
  proof (cases "about repr ?m i")
    case True
    then have "unsettled s' w = Some ?m \<and> about repr ?m i \<and> \<not> finished (handler_of s' w)"
      using fin by (simp add: s')
    then show ?thesis unfolding live_def by blast
  next
    case False
    have "live repr (s\<lparr>ready := drop_nth n (ready s)\<rparr>) i"
      by (rule live_grow [OF that]) (use same False in auto)
    then consider (rest) "(\<exists>m \<in> set (drop_nth n (ready s)) \<union> set (retryq s). about repr m i) \<or>
        (\<exists>p. Publishing i p \<in> set (uploads s) \<or> Undoing i p \<in> set (uploads s)) \<or> i \<in> set (given_up s)"
      | (held) v m where "unsettled s v = Some m" "about repr m i" "\<not> finished (handler_of s v)"
      by (auto simp: live_def)
    then show ?thesis
    proof cases
      case rest
      then show ?thesis by (simp add: live_def s') blast
    next
      case held
      then have "v \<noteq> w" using w by auto
      with held have "unsettled s' v = Some m \<and> about repr m i \<and> \<not> finished (handler_of s' v)" by (simp add: s')
      then show ?thesis unfolding live_def by blast
    qed
  qed
  ultimately show ?thesis using inv by (simp add: sys_inv_def no_job_lost_def s' parked_def)
qed

lemma upload_inv:
  assumes inv: "sys_inv repr s" and step: "sys_step repr (Upload i p name h now) s = Some s'"
  shows "sys_inv repr s'"
proof -
  let ?n = "\<lparr>n_id = i, n_status = Queued, n_originalName = name, n_filePath = p, n_contentHash = h\<rparr>"
  have new: "i \<notin> set (drawn s)" "py_uuid_ok i"
    and s': "s' = s\<lparr>jobs := jobs s @ [insert_row ?n now], uploads := Publishing i p # uploads s, drawn := i # drawn s\<rparr>"
    and none: "table_rows (jobs s) i = None"
    using step by (auto simp: table_repository_def split: if_splits)
  have status: "get_status k (jobs s @ [insert_row ?n now]) = (if k = i then Some Queued else get_status k (jobs s))" for k
    using none by (auto simp: get_status_def table_rows_append insert_row_def split: option.splits)
  have inv': "table_inv (jobs s @ [insert_row ?n now])"
    using inv none by (intro table_inv_snoc) (simp_all add: sys_inv_def insert_row_def)
  have fresh: "\<not> about repr m i" if "m \<in> messages s" for m
    using inv new(1) that by (auto simp: sys_inv_def ids_drawn_def)
  have "messages s' = messages s" by (simp add: messages_def s')
  then have "ids_drawn repr s'" using inv new status unfolding sys_inv_def ids_drawn_def by (auto simp: s')
  moreover have "worker_ok repr s' (handler_of s v) (unsettled s v)" for v
  proof -
    have ok: "worker_ok repr s (handler_of s v) (unsettled s v)" using inv by (simp add: sys_inv_def)
    have "\<not> about repr m i" if "handler_of s v = Nacking_dead m" for m
    proof (rule fresh)
      have "msg_of (handler_of s v) = Some m" using that by simp
      then show "m \<in> messages s" unfolding messages_def by blast
    qed
    with ok show ?thesis by (cases "handler_of s v") (auto simp: s' status parked_def)
  qed
  moreover have "live repr s' k" if "live repr s k \<or> k = i" for k
    using that by (auto simp: live_def s')
  ultimately show ?thesis using inv inv' status
    by (auto simp: sys_inv_def no_job_lost_def s' parked_def split: if_splits)
qed

lemma task_dropped:
  assumes "t \<in> set ts" "t \<noteq> ts ! n"
  shows "t \<in> set (drop_nth n ts)"
  using drop_nth_mem [OF assms(1), of n] assms(2) by auto

lemma task_replaced:
  assumes "t \<in> set ts" "t \<noteq> ts ! n"
  shows "t \<in> set (ts[n := t'])"
  using assms by (metis in_set_conv_nth length_list_update nth_list_update_neq)

text \<open>A step of an upload: its message may be queued, and its task changes.\<close>

lemma upload_step_inv:
  assumes inv: "sys_inv repr s" and task: "Publishing i p \<in> set (uploads s)"
    and s': "s' = s\<lparr>uploads := U, ready := ready s @ ms\<rparr>"
    and ms: "ms = [] \<and> Undoing i p \<in> set U \<or> ms = [from_api (job_out i p)]"
    and U: "set U \<subseteq> insert (Undoing i p) (set (uploads s))" "\<And>t. t \<in> set (uploads s) \<Longrightarrow> t \<noteq> Publishing i p \<Longrightarrow> t \<in> set U"
  shows "sys_inv repr s'"
proof -
  have i: "i \<in> set (drawn s)" "py_uuid_ok i" using inv task by (auto simp: sys_inv_def ids_drawn_def)
  note about = about_from_api [OF i(2), of repr p]
  have "messages s' \<subseteq> messages s \<union> set ms" by (auto simp: messages_def s')
  then have "k \<in> set (drawn s)" if "m \<in> messages s'" "about repr m k" for m k
    using that inv about i(1) ms unfolding sys_inv_def ids_drawn_def by auto
  then have "ids_drawn repr s'" using inv U(1) i unfolding sys_inv_def ids_drawn_def by (auto simp: s')
  moreover have "worker_ok repr s' (handler_of s v) (unsettled s v)" for v
    using inv by (simp add: sys_inv_def worker_ok_def s' parked_def)
  moreover have "live repr s' k" if lv: "live repr s k" for k
  proof (cases "k = i")
    case True
    then show ?thesis using ms about by (auto simp: live_def s')
  next
    case False
    from lv consider (queued) m where "m \<in> set (ready s) \<union> set (retryq s)" "about repr m k"
      | (held) v m where "unsettled s v = Some m" "about repr m k" "\<not> finished (handler_of s v)"
      | (task) q where "Publishing k q \<in> set (uploads s) \<or> Undoing k q \<in> set (uploads s)"
      | (given) "k \<in> set (given_up s)"
      unfolding live_def by blast
    then show ?thesis
    proof cases
      case queued
      then show ?thesis unfolding live_def by (auto simp: s')
    next
      case held
      then show ?thesis unfolding live_def s' by auto
    next
      case task
      then have "Publishing k q \<in> set U \<or> Undoing k q \<in> set U" using U(2) False by auto
      then show ?thesis unfolding live_def s' by auto
    next
      case given
      then show ?thesis by (simp add: live_def s')
    qed
  qed
  ultimately show ?thesis using inv by (simp add: sys_inv_def no_job_lost_def s' parked_def)
qed

lemma upload_publish_inv:
  assumes inv: "sys_inv repr s" and step: "sys_step repr (Upload_publish n ch oc) s = Some s'"
  shows "sys_inv repr s'"
proof -
  obtain i p where n: "n < length (uploads s)" and task: "uploads s ! n = Publishing i p"
    using step by (auto split: if_splits upload_task.splits)
  have mem: "Publishing i p \<in> set (uploads s)" using n task nth_mem by metis
  have other: "t \<in> set (drop_nth n (uploads s)) \<and> t \<in> set ((uploads s)[n := Undoing i p])"
    if "t \<in> set (uploads s)" "t \<noteq> Publishing i p" for t
    using task_dropped [OF that(1), of n] task_replaced [OF that(1), of n] that(2) task by simp
  have sets: "set (drop_nth n (uploads s)) \<subseteq> set (uploads s)"
    "set ((uploads s)[n := Undoing i p]) \<subseteq> insert (Undoing i p) (set (uploads s))"
    by (rule subsetI, erule in_drop_nth) (rule set_update_subset_insert)
  have undoing: "Undoing i p \<in> set ((uploads s)[n := Undoing i p])" using n by (rule set_update_memI)
  note step' = upload_step_inv [OF inv mem]
  have same: "s\<lparr>uploads := U, ready := ready s @ []\<rparr> = s\<lparr>uploads := U\<rparr>" for U by simp
  show ?thesis
  proof (cases ch)
    case None
    then have "s' = s\<lparr>uploads := (uploads s)[n := Undoing i p], ready := ready s @ []\<rparr>"
      using step n task unfolding same by (simp add: publish_job_eq)
    from step' [OF this] show ?thesis using undoing sets(2) other by blast
  next
    case (Some c)
    show ?thesis
    proof (cases oc)
      case Confirmed
      then have "s' = s\<lparr>uploads := drop_nth n (uploads s), ready := ready s @ [from_api (job_out i p)]\<rparr>"
        using step n task Some by (simp add: publish_job_eq job_out_def)
      from step' [OF this] show ?thesis using sets(1) other by blast
    next
      case (Refused err)
      then have "s' = s\<lparr>uploads := (uploads s)[n := Undoing i p], ready := ready s @ []\<rparr>"
        using step n task Some unfolding same by (simp add: publish_job_eq)
      from step' [OF this] show ?thesis using undoing sets(2) other by blast
    next
      case (ConfirmLost err)
      then have "s' = s\<lparr>uploads := (uploads s)[n := Undoing i p], ready := ready s @ [from_api (job_out i p)]\<rparr>"
        using step n task Some by (simp add: publish_job_eq job_out_def)
      from step' [OF this] show ?thesis using sets(2) other by blast
    qed
  qed
qed

text \<open>A step that ends an upload: the row is deleted, or its id is given up.\<close>

lemma upload_dropped_inv:
  assumes inv: "sys_inv repr s" and id: "upload_id (uploads s ! n) = i"
    and s': "s' = s\<lparr>uploads := drop_nth n (uploads s), jobs := t, given_up := g\<rparr>"
    and t: "t = jobs s \<and> i \<in> set g \<or> t = filter (\<lambda>j. jid j \<noteq> i) (jobs s)"
    and g: "set (given_up s) \<subseteq> set g"
  shows "sys_inv repr s'"
proof -
  have task: "t \<noteq> uploads s ! n" if "upload_id t \<noteq> i" for t using id that by auto
  have status: "get_status k t = get_status k (jobs s) \<or> get_status k t = None" for k
    using t by (auto simp: get_status_def table_rows_filter split: if_splits)
  have gone: "get_status i t = None \<or> i \<in> set g" using t by (auto simp: get_status_def table_rows_filter)
  have "table_inv t" using t inv table_inv_filter by (auto simp: sys_inv_def)
  have "messages s' = messages s" by (simp add: messages_def s')
  moreover have "k \<in> set (drawn s)" if "get_status k t \<noteq> None" for k
    using inv status [of k] that by (auto simp: sys_inv_def ids_drawn_def)
  moreover have "set (drop_nth n (uploads s)) \<subseteq> set (uploads s)" by (rule subsetI, erule in_drop_nth)
  ultimately have "table_inv t \<and> ids_drawn repr s'" using inv \<open>table_inv t\<close> unfolding sys_inv_def ids_drawn_def
    by (auto simp: s')
  moreover have "worker_ok repr s' (handler_of s v) (unsettled s v)" for v
  proof -
    have "worker_ok repr s (handler_of s v) (unsettled s v)" using inv by (simp add: sys_inv_def)
    moreover have "get_status k t = None" if "get_status k (jobs s) = None" for k
      using status [of k] that by auto
    ultimately show ?thesis by (cases "handler_of s v") (auto simp: s' parked_def)
  qed
  moreover have "live repr s' k" if lv: "live repr s k" and st: "get_status k t \<noteq> None" for k
  proof (cases "k = i")
    case True
    then have "k \<in> set g" using gone st by auto
    then show ?thesis by (simp add: live_def s')
  next
    case False
    then have "Publishing k q \<in> set (uploads s) \<Longrightarrow> Publishing k q \<in> set (drop_nth n (uploads s))"
      "Undoing k q \<in> set (uploads s) \<Longrightarrow> Undoing k q \<in> set (drop_nth n (uploads s))" for q
      by (auto intro!: task_dropped task)
    with lv g show ?thesis by (auto simp: live_def s')
  qed
  moreover have was: "get_status k (jobs s) = Some st" if "get_status k t = Some st" for k st
    using status [of k] that by auto
  moreover have "no_job_lost repr s" using inv by (simp add: sys_inv_def)
  ultimately have "no_job_lost repr s'" unfolding no_job_lost_def
    by (simp add: s' parked_def)
  then show ?thesis
    using \<open>table_inv t \<and> ids_drawn repr s'\<close> \<open>\<And>v. worker_ok repr s' (handler_of s v) (unsettled s v)\<close>
    by (simp add: sys_inv_def s')
qed

lemma upload_undo_inv:
  assumes inv: "sys_inv repr s" and step: "sys_step repr (Upload_undo n a) s = Some s'"
  shows "sys_inv repr s'"
proof -
  obtain i p where n: "n < length (uploads s)" and task: "uploads s ! n = Undoing i p"
    using step by (auto split: if_splits upload_task.splits)
  let ?t = "effect_if a (filter (\<lambda>j. jid j \<noteq> i) (jobs s)) (jobs s)"
    and ?g = "if error_of a = None then given_up s else i # given_up s"
  show ?thesis
  proof (rule upload_dropped_inv [OF inv])
    show "upload_id (uploads s ! n) = i" by (simp add: task)
    show "s' = s\<lparr>uploads := drop_nth n (uploads s), jobs := ?t, given_up := ?g\<rparr>"
      using step n task by (simp add: table_repository_def)
    show "?t = jobs s \<and> i \<in> set ?g \<or> ?t = filter (\<lambda>j. jid j \<noteq> i) (jobs s)" by (cases a) simp_all
  qed auto
qed

lemma upload_dies_inv:
  assumes inv: "sys_inv repr s" and step: "sys_step repr (Upload_dies n) s = Some s'"
  shows "sys_inv repr s'"
  by (rule upload_dropped_inv [OF inv refl, where t = "jobs s" and n = n
      and g = "upload_id (uploads s ! n) # given_up s"])
    (use step in \<open>auto split: if_splits\<close>)

lemma sys_init_inv: "sys_inv repr sys_init"
  by (simp add: sys_inv_def sys_init_def table_inv_def ids_drawn_def messages_def no_job_lost_def
      get_status_def table_rows_def)

lemma calm_step_inv:
  assumes inv: "sys_inv repr s" and calm: "calm repr e s" and step: "sys_step repr e s = Some s'"
  shows "sys_inv repr s'"
proof (cases e)
  case (Upload i p name h now)
  show ?thesis by (rule upload_inv [OF inv step [unfolded Upload]])
next
  case (Upload_publish n ch oc)
  show ?thesis by (rule upload_publish_inv [OF inv step [unfolded Upload_publish]])
next
  case (Upload_undo n a)
  show ?thesis by (rule upload_undo_inv [OF inv step [unfolded Upload_undo]])
next
  case (Upload_dies n)
  show ?thesis by (rule upload_dies_inv [OF inv step [unfolded Upload_dies]])
next
  case (Deliver w n)
  show ?thesis by (rule deliver_inv [OF inv step [unfolded Deliver]])
next
  case (Await w now a)
  show ?thesis by (rule worker_await_inv [OF inv step [unfolded Await]])
next
  case (Progress now i x)
  then show ?thesis using step progress_inv [OF inv] by auto
next
  case (Expire n)
  show ?thesis by (rule expire_inv [OF inv calm [unfolded Expire] step [unfolded Expire]])
next
  case (Connection_lost w)
  then show ?thesis using calm by simp
next
  case (Crash w)
  obtain h u where "workers s w = (h, u)" by fastforce
  with requeued_inv [OF inv this] show ?thesis using step Crash by simp
qed

lemma calm_reach_inv: "calm_reach repr s \<Longrightarrow> sys_inv repr s"
  by (induction rule: calm_reach.induct) (blast intro: sys_init_inv calm_step_inv)+

end
