(* ===== verification/System_Properties.thy ===== *)
theory System_Properties
  imports System_Safety
begin

text \<open>
  What the whole system guarantees, and the two timings under which it does not.
\<close>

lemma calm_reach_run:
  assumes "sys_run repr es s = Some s'" and "calm_reach repr s"
    and "\<forall>e \<in> set es. case e of Connection_lost _ \<Rightarrow> False | Expire _ \<Rightarrow> False | _ \<Rightarrow> True"
  shows "calm_reach repr s'"
  using assms
proof (induction es arbitrary: s)
  case (Cons e es)
  from Cons.prems(1) obtain s1 where s1: "sys_step repr e s = Some s1" "sys_run repr es s1 = Some s'"
    by (auto simp: bind_eq_Some_conv)
  have "calm repr e s" using Cons.prems(3) by (cases e) auto
  then have "calm_reach repr s1" using calm_reach.step Cons.prems(2) s1(1) by blast
  then show ?case using Cons.IH [OF s1(2)] Cons.prems(3) by simp
qed simp

text \<open>
  Runs of one job, for the witnesses: a row, its message, and the events up to the moment the
  first worker holds the message and has read the job's status.
\<close>

definition sample_uuid :: string where
  "sample_uuid = ''550e8400-e29b-41d4-a716-446655440000''"

lemma sample_uuid_ok: "py_uuid_ok sample_uuid"
  by code_simp

definition queued_row :: job where
  "queued_row = insert_row \<lparr>n_id = sample_uuid, n_status = Queued, n_originalName = ''a.mp3'',
     n_filePath = ''/data/a.mp3'', n_contentHash = None\<rparr> 1"

definition job_msg :: incoming where
  "job_msg = from_api (job_out sample_uuid ''/data/a.mp3'')"

definition taken_state :: sys where
  "taken_state = sys_init\<lparr>jobs := [queued_row], drawn := [sample_uuid],
     workers := (\<lambda>_. (Idle, None))(0 := (Marking job_msg sample_uuid ''/data/a.mp3'', Some job_msg))\<rparr>"

definition take_events :: "event list" where
  "take_events = [Upload sample_uuid ''/data/a.mp3'' ''a.mp3'' None 1, Upload_publish 0 (Some 0) Confirmed,
     Deliver 0 0, Await 0 2 Returned]"

lemma job_msg_parse: "parse_message repr (in_body job_msg) = Some (sample_uuid, ''/data/a.mp3'')"
  using parse_api_message [of repr sample_uuid "''/data/a.mp3''" 0] sample_uuid_ok
  by (simp add: job_msg_def from_api_def job_out_def)

lemma start_job_msg:
  "start_handler repr job_msg = Reading_status job_msg sample_uuid ''/data/a.mp3''"
  "start_handler repr (retry_message job_msg n) = Reading_status (retry_message job_msg n) sample_uuid ''/data/a.mp3''"
  by (simp_all add: start_handler_def retry_message_def job_msg_parse)

lemma queued_row_status: "get_status sample_uuid [queued_row] = Some Queued"
  by (simp add: get_status_def table_rows_def queued_row_def insert_row_def)

lemma queued_row_rows: "table_rows [queued_row] sample_uuid = Some queued_row"
  by (simp add: table_rows_def queued_row_def insert_row_def)

lemma take_run: "sys_run repr take_events sys_init = Some taken_state"
proof -
  have s1: "sys_step repr (Upload sample_uuid ''/data/a.mp3'' ''a.mp3'' None 1) sys_init =
      Some (sys_init\<lparr>jobs := [queued_row], uploads := [Publishing sample_uuid ''/data/a.mp3''], drawn := [sample_uuid]\<rparr>)"
    by (simp add: sys_init_def sample_uuid_ok table_repository_def table_rows_def queued_row_def)
  have s2: "sys_step repr (Upload_publish 0 (Some 0) Confirmed)
      (sys_init\<lparr>jobs := [queued_row], uploads := [Publishing sample_uuid ''/data/a.mp3''], drawn := [sample_uuid]\<rparr>) =
      Some (sys_init\<lparr>jobs := [queued_row], drawn := [sample_uuid], ready := [job_msg]\<rparr>)"
    by (simp add: publish_job_eq job_out_def drop_nth_def sys_init_def job_msg_def)
  have s3: "sys_step repr (Deliver 0 0) (sys_init\<lparr>jobs := [queued_row], drawn := [sample_uuid], ready := [job_msg]\<rparr>) =
      Some (sys_init\<lparr>jobs := [queued_row], drawn := [sample_uuid],
        workers := (\<lambda>_. (Idle, None))(0 := (Reading_status job_msg sample_uuid ''/data/a.mp3'', Some job_msg))\<rparr>)"
    by (simp add: start_job_msg drop_nth_def sys_init_def set_worker_def)
  have s4: "sys_step repr (Await 0 2 Returned) (sys_init\<lparr>jobs := [queued_row], drawn := [sample_uuid],
        workers := (\<lambda>_. (Idle, None))(0 := (Reading_status job_msg sample_uuid ''/data/a.mp3'', Some job_msg))\<rparr>) =
      Some taken_state"
    by (simp add: queued_row_status sys_init_def set_worker_def taken_state_def)
  show ?thesis unfolding take_events_def sys_run.simps s1 s2 s3 s4 bind.bind_lunit by simp
qed

text \<open>
  C2. No accepted job is lost. In every state the API, the broker and any number of workers can
  reach, through retries, crashes, failed or half-done database writes, publishes and
  acknowledgements in any order, a job that is queued or processing has a message in the work
  queue or the retry queue, or held unsettled by a worker that has not finished with it, or its
  upload is still at work, or its upload failed to publish and failed to delete the row; and the
  message of a failed job is in the dead queue. This holds as long as no worker outlives its
  broker connection, and no retry copy expires while its publisher still records the retry.
\<close>

theorem accepted_jobs_not_lost:
  assumes "calm_reach repr s" and "get_status i (jobs s) = Some st"
  shows "case st of
      Queued \<Rightarrow> live repr s i | Processing \<Rightarrow> live repr s i
    | Failed \<Rightarrow> \<exists>m \<in> set (deadq s). about repr m i
    | Completed \<Rightarrow> True"
  using calm_reach_inv [OF assms(1)] assms(2)
  by (auto simp: sys_inv_def no_job_lost_def parked_def split: job_status.split)

theorem accepted_jobs_not_lost_witness:
  "\<forall>repr. calm_reach repr taken_state \<and> live repr taken_state sample_uuid"
proof
  fix repr
  have "calm_reach repr taken_state"
    by (rule calm_reach_run [OF take_run calm_reach.init]) (simp add: take_events_def)
  moreover have "get_status sample_uuid (jobs taken_state) = Some Queued"
    by (simp add: taken_state_def queued_row_status)
  ultimately show "calm_reach repr taken_state \<and> live repr taken_state sample_uuid"
    using accepted_jobs_not_lost by fastforce
qed

subsection \<open>When the timing is not calm\<close>

text \<open>Everything that could still bring a job forward is gone.\<close>

definition quiet :: "sys \<Rightarrow> bool" where
  "quiet s \<longleftrightarrow> ready s = [] \<and> retryq s = [] \<and> uploads s = [] \<and> (\<forall>w. workers s w = (Idle, None))"

definition late_record_events :: "transcript \<Rightarrow> event list" where
  "late_record_events tr = [Await 0 3 Returned, Await 0 4 (Raised_error ''boom''), Await 0 5 Returned,
     Expire 0, Deliver 1 0, Await 1 6 Returned, Await 1 7 Returned, Await 1 8 (Transcribed tr),
     Await 1 9 Returned, Await 1 10 Returned, Await 0 11 Returned, Await 0 12 Returned]"

lemma job_msg_failure: "start_failure job_msg i e = Publishing_retry job_msg i e 0 10000"
  by (simp add: start_failure_def job_msg_def from_api_def retry_count_of_def py_int_def decide_simps)

lemmas run_simps = taken_state_def sys_init_def set_worker_def start_job_msg job_msg_failure
  statement_status queued_row_status drop_nth_def requeue_def

lemma sys_run_append: "sys_run repr (es @ es') s = Option.bind (sys_run repr es s) (sys_run repr es')"
  by (induction es arbitrary: s) (auto split: Option.bind_splits)

lemma quiet_not_live: "quiet s \<Longrightarrow> given_up s = [] \<Longrightarrow> \<not> live repr s i"
  by (simp add: quiet_def live_def)

text \<open>
  A slow retry record strands a job. The worker publishes the retry copy before it records the
  retry; if the copy expires and a second worker finishes the job before the first one's
  \<open>record_retry\<close> runs, that unguarded update turns the completed row back to queued, although no
  message for it exists any more: the system is quiet, the transcript is stored, and the job stays
  queued for ever.
\<close>

theorem late_record_strands_job:
  "\<exists>s j. sys_run repr (take_events @ late_record_events tr) sys_init = Some s \<and> quiet s \<and> \<not> live repr s sample_uuid \<and>
    table_rows (jobs s) sample_uuid = Some j \<and> status j = Queued \<and> job_transcript j = Some tr"
  unfolding sys_run_append take_run
  by (simp add: late_record_events_def run_simps quiet_def live_def statement_rows queued_row_rows)

definition lost_connection_events :: "transcript \<Rightarrow> event list" where
  "lost_connection_events tr = [Connection_lost 0, Deliver 1 0, Await 1 3 Returned, Await 1 4 Returned,
     Await 1 5 (Transcribed tr), Await 1 6 Returned, Await 1 7 Returned, Await 0 8 Returned, Crash 0]"

text \<open>
  A worker that outlives its connection can strand a job. If it has read the status, loses its
  connection, and only marks the job as processing after the redelivered message has been handled
  and acked by another worker, then a crash leaves the row processing with no message for it:
  here crash recovery has nothing to redeliver.
\<close>

theorem lost_connection_strands_job:
  "\<exists>s j. sys_run repr (take_events @ lost_connection_events tr) sys_init = Some s \<and> quiet s \<and> \<not> live repr s sample_uuid \<and>
    table_rows (jobs s) sample_uuid = Some j \<and> status j = Processing"
  unfolding sys_run_append take_run
  by (simp add: lost_connection_events_def run_simps quiet_def live_def statement_rows queued_row_rows)

text \<open>
  An API process that dies between the insert and the publish leaves a queued row for which no
  message was ever published.
\<close>

theorem dead_upload_strands_job:
  "\<exists>s. sys_run repr [Upload sample_uuid ''/data/a.mp3'' ''a.mp3'' None 1, Upload_dies 0] sys_init = Some s \<and>
    quiet s \<and> get_status sample_uuid (jobs s) = Some Queued"
  using queued_row_status
  by (simp add: sys_init_def sample_uuid_ok table_repository_def table_rows_def queued_row_def drop_nth_def quiet_def)

end
