(* ===== verification/System_Progress.thy ===== *)
theory System_Progress
  imports System_Properties
begin

text \<open>
  Progress of the whole system: from every state it can reach, the work that is still open can
  be finished, even when every worker process dies at that moment. The proof crashes the busy
  workers one by one, so that the broker has their deliveries back, and then brings the open jobs
  to their end one after the other.
\<close>

definition calm_step :: "(json \<Rightarrow> string) \<Rightarrow> sys \<Rightarrow> sys \<Rightarrow> bool" where
  "calm_step repr s s' \<longleftrightarrow> (\<exists>e. calm repr e s \<and> sys_step repr e s = Some s')"

abbreviation leads_to :: "(json \<Rightarrow> string) \<Rightarrow> sys \<Rightarrow> sys \<Rightarrow> bool" where
  "leads_to repr \<equiv> (calm_step repr)\<^sup>*\<^sup>*"

definition abandoned :: "sys \<Rightarrow> string \<Rightarrow> bool" where
  \<comment> \<open>the upload of the job failed to publish: its row is being deleted, or could not be\<close>
  "abandoned s i \<longleftrightarrow> i \<in> set (given_up s) \<or> (\<exists>p. Undoing i p \<in> set (uploads s))"

definition open_jobs :: "sys \<Rightarrow> string set" where
  "open_jobs s = {i. pending (get_status i (jobs s)) \<and> \<not> abandoned s i}"

lemma leads_to_reach: "leads_to repr s s' \<Longrightarrow> calm_reach repr s \<Longrightarrow> calm_reach repr s'"
  by (induction rule: rtranclp_induct) (auto simp: calm_step_def intro: calm_reach.step)

lemma leads_toI: "calm repr e s \<Longrightarrow> sys_step repr e s = Some s' \<Longrightarrow> leads_to repr s s'"
  unfolding calm_step_def by (rule r_into_rtranclp) blast

subsection \<open>Only finitely many workers are busy\<close>

definition busy_workers :: "sys \<Rightarrow> nat set" where
  "busy_workers s = {w. workers s w \<noteq> (Idle, None)}"

lemma deliver_fold_workers [simp]: "workers (fold (deliver_to m) qs s) = workers s"
  by (induction qs arbitrary: s) (simp_all add: deliver_to_def)

lemma publish_workers [simp]:
  "workers (publish_to e k m s) = workers s" "workers (dead_letter q m s) = workers s"
  by (simp_all add: publish_to_def dead_letter_def)

lemma publishes_workers [simp]:
  "workers (fold (\<lambda>out. publish_to (ex out) (rk out) (msg out)) outs s) = workers s"
  by (induction outs arbitrary: s) simp_all

lemma broker_step_workers: "v \<noteq> w \<Longrightarrow> workers (broker_step w op s) v = workers s v"
  by (cases op) (auto simp: requeue_def split: option.splits)

lemma broker_steps_workers: "v \<noteq> w \<Longrightarrow> workers (fold (broker_step w) ops s) v = workers s v"
  by (induction ops arbitrary: s) (simp_all add: broker_step_workers)

lemma step_workers: "sys_step repr e s = Some s' \<Longrightarrow> \<exists>w. \<forall>v. v \<noteq> w \<longrightarrow> workers s' v = workers s v"
proof (cases e)
  case (Await w now a)
  assume "sys_step repr e s = Some s'"
  then have "\<forall>v. v \<noteq> w \<longrightarrow> workers s' v = workers s v"
    using Await by (auto simp: broker_steps_workers split: if_splits prod.splits)
  then show ?thesis by blast
qed (auto simp: requeue_def split: if_splits upload_task.splits prod.splits sum.splits option.splits)

lemma step_busy:
  assumes "sys_step repr e s = Some s'" and "finite (busy_workers s)"
  shows "finite (busy_workers s')"
proof -
  obtain w where w: "\<forall>v. v \<noteq> w \<longrightarrow> workers s' v = workers s v" using step_workers [OF assms(1)] by blast
  have "busy_workers s' \<subseteq> insert w (busy_workers s)"
  proof
    fix v assume "v \<in> busy_workers s'"
    then show "v \<in> insert w (busy_workers s)" using w by (cases "v = w") (simp_all add: busy_workers_def)
  qed
  then show ?thesis using assms(2) finite_subset by blast
qed

lemma reach_busy: "calm_reach repr s \<Longrightarrow> finite (busy_workers s)"
  by (induction rule: calm_reach.induct) (simp add: busy_workers_def sys_init_def, blast intro: step_busy)

subsection \<open>Every id drawn is a UUID\<close>

lemma deliver_fold_drawn [simp]: "drawn (fold (deliver_to m) qs s) = drawn s"
  by (induction qs arbitrary: s) (simp_all add: deliver_to_def)

lemma publish_drawn [simp]:
  "drawn (publish_to e k m s) = drawn s" "drawn (dead_letter q m s) = drawn s"
  by (simp_all add: publish_to_def dead_letter_def)

lemma publishes_drawn [simp]:
  "drawn (fold (\<lambda>out. publish_to (ex out) (rk out) (msg out)) outs s) = drawn s"
  by (induction outs arbitrary: s) simp_all

lemma broker_step_drawn [simp]: "drawn (fold (broker_step w) ops s) = drawn s"
proof (induction ops arbitrary: s)
  case (Cons op ops)
  have "drawn (broker_step w op s) = drawn s"
    by (cases op) (auto simp: requeue_def split: option.splits)
  with Cons show ?case by simp
qed simp

lemma step_drawn: "sys_step repr e s = Some s' \<Longrightarrow> \<forall>i \<in> set (drawn s). py_uuid_ok i \<Longrightarrow> \<forall>i \<in> set (drawn s'). py_uuid_ok i"
  by (cases e) (auto simp: requeue_def split: if_splits upload_task.splits prod.splits sum.splits option.splits)

lemma reach_drawn: "calm_reach repr s \<Longrightarrow> \<forall>i \<in> set (drawn s). py_uuid_ok i"
proof (induction rule: calm_reach.induct)
  case init
  then show ?case by (simp add: sys_init_def)
next
  case (step s e s')
  show ?case by (rule step_drawn [OF step.hyps(3) step.IH])
qed

lemma reach_row_id:
  assumes "calm_reach repr s" and "get_status i (jobs s) \<noteq> None"
  shows "py_uuid_ok i"
proof -
  have "ids_drawn repr s" using calm_reach_inv [OF assms(1)] by (simp add: sys_inv_def)
  then have "i \<in> set (drawn s)" using assms(2) unfolding ids_drawn_def by blast
  then show ?thesis using reach_drawn [OF assms(1)] by blast
qed

text \<open>Only ids that were drawn are given up.\<close>

lemma deliver_fold_given_up [simp]: "given_up (fold (deliver_to m) qs s) = given_up s"
  by (induction qs arbitrary: s) (simp_all add: deliver_to_def)

lemma publish_given_up [simp]:
  "given_up (publish_to e k m s) = given_up s" "given_up (dead_letter q m s) = given_up s"
  by (simp_all add: publish_to_def dead_letter_def)

lemma publishes_given_up [simp]:
  "given_up (fold (\<lambda>out. publish_to (ex out) (rk out) (msg out)) outs s) = given_up s"
  by (induction outs arbitrary: s) simp_all

lemma broker_step_given_up [simp]: "given_up (fold (broker_step w) ops s) = given_up s"
proof (induction ops arbitrary: s)
  case (Cons op ops)
  have "given_up (broker_step w op s) = given_up s"
    by (cases op) (auto simp: requeue_def split: option.splits)
  with Cons show ?case by simp
qed simp

lemma step_given_up:
  assumes "sys_step repr e s = Some s'"
  shows "set (given_up s') \<subseteq> set (given_up s) \<union> upload_id ` set (uploads s)" and "set (drawn s) \<subseteq> set (drawn s')"
proof -
  show "set (given_up s') \<subseteq> set (given_up s) \<union> upload_id ` set (uploads s)"
  proof (cases e)
    case (Upload_undo n a)
    then obtain i p where task: "n < length (uploads s)" "uploads s ! n = Undoing i p"
      using assms by (auto split: if_splits upload_task.splits)
    then have "i \<in> upload_id ` set (uploads s)" using nth_mem [OF task(1)] image_iff by force
    moreover have "set (given_up s') \<subseteq> insert i (set (given_up s))"
      using task assms Upload_undo by (auto split: if_splits)
    ultimately show ?thesis by auto
  qed (use assms in \<open>auto simp: requeue_def split: if_splits upload_task.splits prod.splits sum.splits option.splits\<close>)
  show "set (drawn s) \<subseteq> set (drawn s')"
    using assms by (cases e) (auto simp: requeue_def split: if_splits upload_task.splits prod.splits sum.splits option.splits)
qed

lemma reach_given_up: "calm_reach repr s \<Longrightarrow> set (given_up s) \<subseteq> set (drawn s)"
proof (induction rule: calm_reach.induct)
  case init
  then show ?case by (simp add: sys_init_def)
next
  case (step s e s')
  have "ids_drawn repr s" using calm_reach_inv [OF step.hyps(1)] by (simp add: sys_inv_def)
  then have "upload_id u \<in> set (drawn s)" if "u \<in> set (uploads s)" for u
    using that unfolding ids_drawn_def by (cases u) auto
  then show ?case using step.IH step_given_up [OF step.hyps(3)] by blast
qed

subsection \<open>When every worker dies\<close>

definition restarted :: "sys \<Rightarrow> sys \<Rightarrow> bool" where
  "restarted s s' \<longleftrightarrow> jobs s' = jobs s \<and> uploads s' = uploads s \<and> given_up s' = given_up s \<and>
     (\<forall>w. workers s' w = (Idle, None))"

lemma workers_can_die:
  assumes "finite (busy_workers s)"
  shows "\<exists>s'. leads_to repr s s' \<and> restarted s s'"
  using assms
proof (induction "card (busy_workers s)" arbitrary: s)
  case 0
  then show ?case by (auto simp: busy_workers_def restarted_def)
next
  case (Suc n)
  then obtain w where w: "w \<in> busy_workers s" by (metis card.empty ex_in_conv nat.simps(3))
  have "busy_workers (requeue w Idle s) = busy_workers s - {w}"
    by (auto simp: busy_workers_def requeue_def split: option.splits)
  then obtain s' where s': "leads_to repr (requeue w Idle s) s'" "restarted (requeue w Idle s) s'"
    using Suc.hyps Suc.prems w by (metis card_Diff_singleton diff_Suc_1 finite_Diff)
  have "leads_to repr s (requeue w Idle s)" by (rule leads_toI [of _ "Crash w"]) simp_all
  moreover have "restarted s s'"
    using s'(2) by (auto simp: restarted_def requeue_def split: option.splits)
  ultimately show ?case using s'(1) by (meson rtranclp_trans)
qed

subsection \<open>One job to its end\<close>

lemma await_step:
  assumes "workers s w = (h, u)" and "h \<noteq> Idle" and "worker_step now a h (jobs s) = (h', t, ops)"
  shows "calm_step repr s (fold (broker_step w) ops (set_worker w h' u (s\<lparr>jobs := t\<rparr>)))"
  unfolding calm_step_def using assms by (intro exI [of _ "Await w now a"]) simp

definition finish :: "string \<Rightarrow> transcript \<Rightarrow> table \<Rightarrow> table" where
  \<comment> \<open>what an undisturbed handler does to the row of its job\<close>
  "finish i tr t = complete 0 i tr (mark_processing 0 i t)"

lemma finish_from_ready:
  assumes idle: "workers s 0 = (Idle, None)" and n: "n < length (ready s)"
    and m: "about repr (ready s ! n) i" and st: "pending (get_status i (jobs s))"
  shows "leads_to repr s (s\<lparr>jobs := finish i tr (jobs s), ready := drop_nth n (ready s)\<rparr>)"
proof -
  obtain p where p: "start_handler repr (ready s ! n) = Reading_status (ready s ! n) i p"
    using m by (auto simp: about_def start_handler_def)
  let ?m = "ready s ! n"
  let ?q = "s\<lparr>ready := drop_nth n (ready s)\<rparr>"
  let ?at = "\<lambda>h t. set_worker 0 h (Some ?m) (?q\<lparr>jobs := t\<rparr>)"
  let ?t = "mark_processing 0 i (jobs s)"
  have step: "calm_step repr (?at h t) (fold (broker_step 0) ops (?at h' t'))"
    if "h \<noteq> Idle" "worker_step 0 a h t = (h', t', ops)" for h t a h' t' ops
    using await_step [of "?at h t" 0 h "Some ?m" 0 a h' t' ops repr] that by (simp add: set_worker_def)
  have "leads_to repr s (?at (Reading_status ?m i p) (jobs s))"
    by (rule leads_toI [of _ "Deliver 0 n"]) (simp_all add: idle n p set_worker_def)
  also have "calm_step repr \<dots> (?at (Marking ?m i p) (jobs s))"
    using step [where a = Returned and h = "Reading_status ?m i p" and t = "jobs s" and ops = "[]"] st by auto
  also have "calm_step repr \<dots> (?at (Running ?m i p) ?t)"
    using step [where a = Returned and h = "Marking ?m i p" and t = "jobs s" and ops = "[]"] by simp
  also have "calm_step repr \<dots> (?at (Completing ?m i tr) ?t)"
    using step [where a = "Transcribed tr" and h = "Running ?m i p" and t = ?t and ops = "[]"] by simp
  also have "calm_step repr \<dots> (?at (Acking_done ?m i) (finish i tr (jobs s)))"
    using step [where a = Returned and h = "Completing ?m i tr" and t = ?t and ops = "[]"]
    by (simp add: finish_def)
  also have "calm_step repr \<dots> (set_worker 0 Idle None (?q\<lparr>jobs := finish i tr (jobs s)\<rparr>))"
    using step [where a = Returned and h = "Acking_done ?m i" and t = "finish i tr (jobs s)" and ops = "[Ack]"] by simp
  also have "set_worker 0 Idle None (?q\<lparr>jobs := finish i tr (jobs s)\<rparr>) =
      s\<lparr>jobs := finish i tr (jobs s), ready := drop_nth n (ready s)\<rparr>"
    using idle by (simp add: set_worker_def fun_upd_idem)
  finally show ?thesis .
qed

lemma finish_rows:
  "table_rows (finish i tr t) k = (if k = i then map_option (\<lambda>j. j\<lparr>status := Completed,
     attempts := attempts j + 1, job_transcript := Some tr, language := Some (transcript_language tr),
     durationSec := Some (transcript_duration tr), progress := 1, job_error := None, updatedAt := 0\<rparr>)
     (table_rows t k) else table_rows t k)"
  by (cases "table_rows t i") (simp_all add: finish_def statement_rows)

lemma finish_status:
  "get_status k (finish i tr t) = (if k = i then map_option (\<lambda>_. Completed) (get_status k t) else get_status k t)"
  by (cases "table_rows t i") (simp_all add: get_status_def finish_rows)

lemma abandoned_updates [simp]:
  "abandoned (s\<lparr>jobs := t\<rparr>) = abandoned s" "abandoned (s\<lparr>ready := q\<rparr>) = abandoned s"
  "abandoned (s\<lparr>retryq := q\<rparr>) = abandoned s"
  by (simp_all add: fun_eq_iff abandoned_def)

lemma finish_in_ready:
  assumes "workers s 0 = (Idle, None)" and "m \<in> set (ready s)" and "about repr m i"
    and "pending (get_status i (jobs s))"
  shows "\<exists>s'. leads_to repr s s' \<and> jobs s' = finish i tr (jobs s) \<and> abandoned s' = abandoned s"
proof -
  obtain n where n: "n < length (ready s)" "ready s ! n = m" using assms(2) by (auto simp: in_set_conv_nth)
  show ?thesis
    using finish_from_ready [OF assms(1) n(1), of repr i tr] n(2) assms(3,4)
    by (intro exI [of _ "s\<lparr>jobs := finish i tr (jobs s), ready := drop_nth n (ready s)\<rparr>"]) simp
qed

lemma finish_in_retryq:
  assumes "\<forall>w. workers s w = (Idle, None)" and "m \<in> set (retryq s)" and "about repr m i"
    and "pending (get_status i (jobs s))"
  shows "\<exists>s'. leads_to repr s s' \<and> jobs s' = finish i tr (jobs s) \<and> abandoned s' = abandoned s"
proof -
  obtain n where n: "n < length (retryq s)" "retryq s ! n = m" using assms(2) by (auto simp: in_set_conv_nth)
  let ?s = "s\<lparr>ready := ready s @ [m], retryq := drop_nth n (retryq s)\<rparr>"
  have "leads_to repr s ?s" by (rule leads_toI [of _ "Expire n"]) (use assms(1) n in simp_all)
  moreover have "\<exists>s'. leads_to repr ?s s' \<and> jobs s' = finish i tr (jobs s) \<and> abandoned s' = abandoned s"
    using finish_in_ready [of ?s m repr i tr] assms by simp
  ultimately show ?thesis by (meson rtranclp_trans)
qed

lemma finish_in_upload:
  assumes idle: "workers s 0 = (Idle, None)" and up: "Publishing i p \<in> set (uploads s)"
    and ok: "py_uuid_ok i" and st: "pending (get_status i (jobs s))"
  shows "\<exists>s'. leads_to repr s s' \<and> jobs s' = finish i tr (jobs s) \<and> abandoned s' = abandoned s"
proof -
  obtain n where n: "n < length (uploads s)" "uploads s ! n = Publishing i p"
    using up by (auto simp: in_set_conv_nth)
  let ?s = "s\<lparr>uploads := drop_nth n (uploads s), ready := ready s @ [from_api (job_out i p)]\<rparr>"
  have "leads_to repr s ?s"
    by (rule leads_toI [of _ "Upload_publish n (Some 0) Confirmed"])
      (use n in \<open>simp_all add: publish_job_eq job_out_def\<close>)
  moreover have ab: "abandoned ?s = abandoned s"
    using drop_nth_mem [of _ "uploads s" n] n in_drop_nth [of _ n "uploads s"]
    by (fastforce simp: abandoned_def fun_eq_iff)
  moreover have "\<exists>s'. leads_to repr ?s s' \<and> jobs s' = finish i tr (jobs s) \<and> abandoned s' = abandoned ?s"
    using finish_in_ready [of ?s "from_api (job_out i p)" repr i tr] idle st about_from_api [OF ok] by simp
  ultimately show ?thesis by (metis rtranclp_trans)
qed

lemma finish_one:
  assumes reach: "calm_reach repr s" and i: "i \<in> open_jobs s"
  shows "\<exists>s'. leads_to repr s s' \<and> jobs s' = finish i tr (jobs s) \<and> abandoned s' = abandoned s"
proof -
  obtain r where lead: "leads_to repr s r" and r: "restarted s r"
    using workers_can_die [OF reach_busy [OF reach]] by blast
  have same: "jobs r = jobs s" "abandoned r = abandoned s" and idle: "\<forall>w. workers r w = (Idle, None)"
    using r by (simp_all add: restarted_def abandoned_def fun_eq_iff)
  have st: "pending (get_status i (jobs r))" and "\<not> abandoned r i" using i by (simp_all add: open_jobs_def same)
  have inv: "sys_inv repr r" by (rule calm_reach_inv [OF leads_to_reach [OF lead reach]])
  then have "live repr r i" using st no_job_lostD(1) by (simp add: sys_inv_def)
  then consider (ready) m where "m \<in> set (ready r)" "about repr m i"
    | (retry) m where "m \<in> set (retryq r)" "about repr m i"
    | (upload) p where "Publishing i p \<in> set (uploads r)"
    using \<open>\<not> abandoned r i\<close> idle by (auto simp: live_def abandoned_def)
  then have "\<exists>s'. leads_to repr r s' \<and> jobs s' = finish i tr (jobs r) \<and> abandoned s' = abandoned r"
  proof cases
    case ready
    show ?thesis by (rule finish_in_ready [OF _ ready st]) (simp add: idle)
  next
    case retry
    show ?thesis by (rule finish_in_retryq [OF idle retry st])
  next
    case upload
    then have "py_uuid_ok i" using inv by (auto simp: sys_inv_def ids_drawn_def)
    with upload show ?thesis by (intro finish_in_upload [OF _ _ _ st]) (simp_all add: idle)
  qed
  with lead show ?thesis by (metis same rtranclp_trans)
qed

subsection \<open>All of them\<close>

lemma finite_open: "finite (open_jobs s)"
proof (rule finite_subset)
  show "open_jobs s \<subseteq> jid ` set (jobs s)"
  proof
    fix i assume "i \<in> open_jobs s"
    then have "table_rows (jobs s) i \<noteq> None" by (auto simp: open_jobs_def get_status_def)
    then show "i \<in> jid ` set (jobs s)" by (simp add: table_rows_None_iff)
  qed
qed simp

definition brought_to_end :: "(string \<Rightarrow> transcript) \<Rightarrow> sys \<Rightarrow> sys \<Rightarrow> bool" where
  "brought_to_end tr s s' \<longleftrightarrow> (\<forall>i. if i \<in> open_jobs s
     then \<exists>j. table_rows (jobs s') i = Some j \<and> status j = Completed \<and> job_transcript j = Some (tr i)
     else table_rows (jobs s') i = table_rows (jobs s) i)"

lemma open_jobs_drain:
  assumes "calm_reach repr s"
  shows "\<exists>s'. leads_to repr s s' \<and> brought_to_end tr s s' \<and> abandoned s' = abandoned s"
  using assms
proof (induction "card (open_jobs s)" arbitrary: s)
  case 0
  then have "open_jobs s = {}" using finite_open by simp
  then show ?case by (auto simp: brought_to_end_def)
next
  case (Suc n)
  then obtain i where i: "i \<in> open_jobs s" by (metis card.empty ex_in_conv nat.simps(3))
  obtain r where r: "leads_to repr s r" "jobs r = finish i (tr i) (jobs s)" "abandoned r = abandoned s"
    using finish_one [OF Suc.prems i] by blast
  have left: "open_jobs r = open_jobs s - {i}"
    using r(2,3) by (auto simp: open_jobs_def finish_status)
  have "n = card (open_jobs r)" using Suc.hyps(2) i by (simp add: left)
  then obtain s' where s': "leads_to repr r s'" "brought_to_end tr r s'" "abandoned s' = abandoned s"
    using Suc.hyps(1) leads_to_reach [OF r(1) Suc.prems] r(3) by metis
  have "brought_to_end tr s s'"
    unfolding brought_to_end_def
  proof
    fix k
    obtain j where j: "table_rows (jobs s) i = Some j"
      using i by (auto simp: open_jobs_def get_status_def)
    have rest: "if k \<in> open_jobs s - {i}
      then \<exists>j. table_rows (jobs s') k = Some j \<and> status j = Completed \<and> job_transcript j = Some (tr k)
      else table_rows (jobs s') k = table_rows (finish i (tr i) (jobs s)) k"
      using s'(2) [unfolded brought_to_end_def left r(2)] by (rule spec)
    show "if k \<in> open_jobs s
      then \<exists>j. table_rows (jobs s') k = Some j \<and> status j = Completed \<and> job_transcript j = Some (tr k)
      else table_rows (jobs s') k = table_rows (jobs s) k"
    proof (cases "k = i")
      case True
      then show ?thesis using rest i j by (simp add: finish_rows)
    next
      case False
      then show ?thesis using rest by (simp add: finish_rows)
    qed
  qed
  then show ?case using r(1) s'(1,3) by (metis rtranclp_trans)
qed

text \<open>
  C3. Every open job can be brought to its end. From every state the system can reach, whatever its
  workers are doing, and even if all of them die now, the system can go on, without ill timing, so
  that every job that is queued or processing and whose upload was not given up ends completed with
  the transcript the model makes of it, whichever that is, while no other row changes: no message
  is in the way of another, and no row is stuck behind a worker, a retry or an upload.
\<close>

theorem open_jobs_can_complete:
  assumes "calm_reach repr s"
  shows "\<exists>s'. leads_to repr s s' \<and> calm_reach repr s' \<and>
    (\<forall>i. if pending (get_status i (jobs s)) \<and> \<not> abandoned s i
       then \<exists>j. table_rows (jobs s') i = Some j \<and> status j = Completed \<and> job_transcript j = Some (tr i)
       else table_rows (jobs s') i = table_rows (jobs s) i)"
proof -
  obtain s' where s': "leads_to repr s s'" "brought_to_end tr s s'"
    using open_jobs_drain [OF assms] by blast
  moreover have "calm_reach repr s'" by (rule leads_to_reach [OF s'(1) assms])
  ultimately show ?thesis by (auto simp: brought_to_end_def open_jobs_def)
qed

theorem open_jobs_can_complete_witness:
  "\<forall>repr tr. \<exists>s' j. leads_to repr taken_state s' \<and> table_rows (jobs s') sample_uuid = Some j \<and>
     status j = Completed \<and> job_transcript j = Some (tr :: transcript)"
proof (intro allI)
  fix repr tr
  have "calm_reach repr taken_state"
    by (rule calm_reach_run [OF take_run calm_reach.init]) (simp add: take_events_def)
  moreover have "get_status sample_uuid (jobs taken_state) = Some Queued" "\<not> abandoned taken_state sample_uuid"
    by (simp_all add: taken_state_def queued_row_status abandoned_def sys_init_def)
  ultimately show "\<exists>s' j. leads_to repr taken_state s' \<and> table_rows (jobs s') sample_uuid = Some j \<and>
     status j = Completed \<and> job_transcript j = Some tr"
    using open_jobs_can_complete [of repr taken_state "\<lambda>_. tr"] by metis
qed

end
