(* ===== verification/Full_Stack.thy ===== *)
theory Full_Stack
  imports Api_Routes Web_Page System_Progress
begin

text \<open>
  From the page to the workers and back: a poll of the page through the proxy, the routes of the
  API, its guard, handler and table, and the answer on the page; and, with the progress of the
  whole system, the way of an upload to the transcript its user sees. Rendering an answer as
  JSON and reading it are the frameworks': parameters, of which only the answer at hand is asked
  to read back as what was written.
\<close>

text \<open>The file dialog of the page offers exactly the extensions the API accepts.\<close>

lemma accepted_extensions_agree: "split_on (CHR '','') ACCEPTED = map ((#) (CHR ''.'')) ALLOWED_EXTENSIONS"
  by code_simp

definition reply_of :: "(byte list \<Rightarrow> string + page_job) \<Rightarrow> http_response \<Rightarrow> reply" where
  "reply_of read_json r = \<lparr>reply_status = http_status r, reply_json = read_json (resp_body r)\<rparr>"

definition answers_in_json :: "'db api_server \<Rightarrow> (byte list \<Rightarrow> string + page_job) \<Rightarrow> job_detail_dto \<Rightarrow> bool" where
  \<comment> \<open>the answer with this body has status 200 and reads back as the body\<close>
  "answers_in_json srv read_json d \<longleftrightarrow> (let r = render_answer srv (Inr (DetailResponse d)) in
     http_status r = 200 \<and> read_json (resp_body r) = Inr (from_detail d))"

definition proxied_poll :: "string option \<Rightarrow> string \<Rightarrow> 'db api_server \<Rightarrow> 'db app_env \<Rightarrow> 'db api_state \<Rightarrow>
    string \<Rightarrow> (exn, http_response) result" where
  \<comment> \<open>the proxy's GET when its \<open>fetch\<close> reaches the API in this state\<close>
  "proxied_poll env_url key srv env s i = get_transcription env_url (Some key)
     (\<lambda>rq. Inr (fst (api_serve srv env (API_URL env_url) rq s))) i"

definition watching :: "page \<Rightarrow> nat \<Rightarrow> string \<Rightarrow> bool" where
  \<comment> \<open>the page shows the job of this id and its \<open>n\<close>th poll is on its way\<close>
  "watching pg n i \<longleftrightarrow> n < length (polls pg) \<and> (\<exists>c. current_job pg = Some c \<and> pj_id c = Some i)"

lemma proxied_poll_eq:
  assumes "key \<noteq> []" and "follows_routes (find_route srv)" and "i \<notin> {[], ''.'', ''..''}"
  shows "proxied_poll env_url key srv env s i =
    Inr (passthrough (fst (answer_with_key srv env key (GetTranscription i) s)))"
proof -
  let ?e = "encode_uri_component i"
  let ?get = "\<lparr>http_method = ''GET'', url = API_URL env_url @ ''/v1/transcriptions/'' @ ?e,
    req_headers = [(''x-api-key'', key)], req_body = None\<rparr>"
  have "requested_path (''/v1/transcriptions/'' @ ?e) = [''v1'', ''transcriptions'', ?e]"
    using assms(3) by (simp only: requested_job insert_iff de_Morgan_disj if_False)
  moreover have "?e \<noteq> []" using assms(3) by (simp add: encode_nonempty)
  ultimately have "api_serve srv env (API_URL env_url) ?get s = answer_with_key srv env key (GetTranscription i) s"
    using encoded_segment(1) [of i] follows_routesD(2) [OF assms(2) _ percent_decode_encode]
    by (intro api_serve_routed [where query = "[]" and path = "''/v1/transcriptions/'' @ ?e"
        and e = Get_one and args = "[i]"]) (simp_all add: assms(1))
  then show ?thesis using assms(1) by (simp add: proxied_poll_def get_transcription_def api_headers_def)
qed

lemma row_found:
  assumes "job_repository (repo env) rows ok" and "ok d" and "rows d i = Some j"
    and "repo_findOne (repo env) \<lparr>w_id = Some i, w_contentHash = None, w_status = None\<rparr> d = Inr found"
  shows "get_handler env i d = Inr (to_job_detail j)"
  using job_repository.findOne_by_id [OF assms(1,2,4)] assms(3,4)
  by (simp add: get_handler_def find_by_id_def)

text \<open>A poll that is answered while the row is \<open>j\<close>.\<close>

lemma poll_of_row:
  assumes "key \<noteq> []" "follows_routes (find_route srv)" "i \<notin> {[], ''.'', ''..''}" "API_KEY env = key"
    and "parse_uuid_pipe env i = Inr i" and "get_handler (svc env) i (db s) = Inr (to_job_detail j)" "jid j = i"
    and "answers_in_json srv read_json (to_job_detail j)" and "watching pg n i"
  shows "\<exists>r pg'. proxied_poll env_url key srv env s i = Inr r \<and>
    page_step (Poll_answer n (Inr (reply_of read_json r))) pg = Some pg' \<and>
    current_job pg' = Some (from_detail (to_job_detail j)) \<and>
    timer pg' = (if status j \<in> {Queued, Processing} then Some (Some i) else None)"
proof -
  let ?d = "to_job_detail j"
  let ?r = "passthrough (render_answer srv (Inr (DetailResponse ?d)))"
  have "proxied_poll env_url key srv env s i = Inr ?r"
    using assms(4,5,6) by (simp add: proxied_poll_eq [OF assms(1-3)] answer_with_key_def)
  moreover have "reply_of read_json ?r = \<lparr>reply_status = 200, reply_json = Inr (from_detail ?d)\<rparr>"
    using assms(8) by (simp add: reply_of_def answers_in_json_def passthrough_def Let_def)
  moreover have "pj_id (from_detail ?d) = Some i" "pj_status (from_detail ?d) = Some (status j)"
    using assms(7) by (simp_all add: from_detail_simps)
  ultimately show ?thesis
    using assms(9) by (auto simp: watching_def polled_def reply_ok_def set_job_def poll_effect_def unfinished_def)
qed

text \<open>
  A poll shows the row. When the page polls the job it shows, the proxy and the API have the
  same key and the database answers, then whatever the row is at that moment is what the page
  holds after the answer, in the form of the API's job detail; and the page goes on polling
  exactly as long as that row is queued or processing.
\<close>

theorem poll_shows_row:
  assumes "key \<noteq> []" "API_KEY env = key" "follows_routes (find_route srv)" "i \<notin> {[], ''.'', ''..''}"
    and "parse_uuid_pipe env i = Inr i"
    and laws: "job_repository (repo (svc env)) rows ok" "ok (db s)" and row: "rows (db s) i = Some j"
    and answers: "repo_findOne (repo (svc env)) \<lparr>w_id = Some i, w_contentHash = None, w_status = None\<rparr> (db s) = Inr found"
    and "answers_in_json srv read_json (to_job_detail j)" and "watching pg n i"
  shows "\<exists>r pg'. proxied_poll env_url key srv env s i = Inr r \<and>
    page_step (Poll_answer n (Inr (reply_of read_json r))) pg = Some pg' \<and>
    current_job pg' = Some (from_detail (to_job_detail j)) \<and>
    timer pg' = (if status j \<in> {Queued, Processing} then Some (Some i) else None)"
  by (rule poll_of_row [OF assms(1,3,4,2,5) row_found [OF laws row answers]
        job_repository.rows_jid [OF laws row] assms(10,11)])

text \<open>
  An API whose table is the system's, and a rendering of job details that only has to serve one
  of them.
\<close>

definition sample_api :: "table app_env" where
  "sample_api = \<lparr>svc = sample_env (Some 0) Confirmed, API_KEY = ''k'', receive = (\<lambda>_ fs. (Inr None, fs)),
     parse_uuid_pipe = Inr, export_pipe = (\<lambda>_. Inr Srt), list_pipe = (\<lambda>_. Inr default_list_query),
     select1 = Inr ()\<rparr>"

definition ok_server :: "'db api_server" where
  "ok_server = plain_server (\<lambda>r. \<lparr>http_status = (case r of Inl e \<Rightarrow> status_code e | Inr _ \<Rightarrow> 200),
     resp_headers = [], resp_body = []\<rparr>)"

lemma ok_server_laws:
  "follows_routes (find_route ok_server)" "answers_in_json ok_server (\<lambda>_. Inr (from_detail d)) d"
  unfolding ok_server_def answers_in_json_def
  by (rule plain_server_laws, simp add: plain_server_def)

lemma uuid_is_segment: "py_uuid_ok i \<Longrightarrow> i \<notin> {[], ''.'', ''..''}"
proof -
  have "\<not> py_uuid_ok []" "\<not> py_uuid_ok ''.''" "\<not> py_uuid_ok ''..''" by code_simp+
  then show "py_uuid_ok i \<Longrightarrow> i \<notin> {[], ''.'', ''..''}" by auto
qed

lemma table_row_found:
  assumes "repo env = table_repository now" and "table_inv t" and "table_rows t i = Some j"
  shows "get_handler env i t = Inr (to_job_detail j)"
proof (rule row_found)
  show "job_repository (repo env) table_rows table_inv"
    unfolding assms(1) by (rule jobs_table.job_repository_axioms)
  show "repo_findOne (repo env) \<lparr>w_id = Some i, w_contentHash = None, w_status = None\<rparr> t =
      Inr (find (matches \<lparr>w_id = Some i, w_contentHash = None, w_status = None\<rparr>) t)"
    by (simp add: assms(1) table_repository_def)
qed (fact assms(2), fact assms(3))

lemma completed_view:
  assumes "status j = Completed" and "job_transcript j = Some tr"
  shows "chip (view_job (from_detail (to_job_detail j))) = Some Completed \<and>
    (\<exists>tv. transcript_part (view_job (from_detail (to_job_detail j))) = Some tv \<and>
      cue_lines tv = map (\<lambda>g. (format_clock (seg_start g), seg_text g)) (segments tr))"
  using assms by (simp add: view_job_def from_detail_simps view_transcript_def)

definition watching_page :: "string \<Rightarrow> page" where
  "watching_page i = (set_job (Some (fresh_job \<lparr>pj_id = Some i, pj_status = Some Queued, pj_originalName = None,
     pj_progress = 0, pj_durationSec = None, pj_language = None, pj_error = None, pj_transcript = None,
     pj_message = None\<rparr> ''a.mp3'')) page_init)\<lparr>polls := [Some i]\<rparr>"

lemma watching_page_ok: "watching (watching_page i) 0 i"
  by (simp add: watching_def watching_page_def set_job_def fresh_job_def)

theorem poll_shows_row_witness:
  "\<exists>r pg'. proxied_poll None ''k'' ok_server sample_api (sample_state [sample_done]) ''u1'' = Inr r \<and>
    page_step (Poll_answer 0 (Inr (reply_of (\<lambda>_. Inr (from_detail (to_job_detail sample_done))) r)))
      (watching_page ''u1'') = Some pg' \<and>
    current_job pg' = Some (from_detail (to_job_detail sample_done)) \<and> timer pg' = None"
proof -
  let ?s = "sample_state [sample_done]"
  have laws: "job_repository (repo (svc sample_api)) table_rows table_inv" "table_inv (db ?s)"
    by (simp_all add: sample_api_def sample_laws table_inv_def sample_state_def)
  have row: "table_rows (db ?s) ''u1'' = Some sample_done"
    and find: "repo_findOne (repo (svc sample_api)) \<lparr>w_id = Some ''u1'', w_contentHash = None, w_status = None\<rparr> (db ?s) =
      Inr (Some sample_done)" by code_simp+
  have id_ok: "''k'' \<noteq> []" "API_KEY sample_api = ''k''" "''u1'' \<notin> {[], ''.'', ''..''}"
    "parse_uuid_pipe sample_api ''u1'' = Inr ''u1''" "status sample_done = Completed"
    by (simp_all add: sample_api_def sample_done_def)
  from poll_shows_row [OF id_ok(1,2) ok_server_laws(1) id_ok(3,4) laws row find ok_server_laws(2) watching_page_ok, of None]
  show ?thesis unfolding id_ok(5) by simp
qed

definition shows_transcript :: "page \<Rightarrow> transcript \<Rightarrow> bool" where
  \<comment> \<open>the page shows a completed job with one line per segment: the clock of its start and its text\<close>
  "shows_transcript pg tr \<longleftrightarrow> (\<exists>v tv. job_part (render pg) = Some v \<and> chip v = Some Completed \<and>
     transcript_part v = Some tv \<and>
     cue_lines tv = map (\<lambda>g. (format_clock (seg_start g), seg_text g)) (segments tr))"

definition reaches_table :: "string \<Rightarrow> 'db api_server \<Rightarrow> table app_env \<Rightarrow> string \<Rightarrow> bool" where
  \<comment> \<open>an API with this key and routes over a table, whose pipe lets the id through\<close>
  "reaches_table key srv env i \<longleftrightarrow> key \<noteq> [] \<and> API_KEY env = key \<and> follows_routes (find_route srv) \<and>
     parse_uuid_pipe env i = Inr i \<and> (\<exists>now. repo (svc env) = table_repository now)"

lemma page_reads_row:
  fixes srv :: "table api_server" and st :: "table api_state" and pg :: page
  assumes inv: "table_inv t" and row: "table_rows t i = Some j" and id: "py_uuid_ok i"
    and api: "reaches_table key srv env i" and db: "db st = t"
    and page: "answers_in_json srv read_json (to_job_detail j)" "watching pg n i"
  shows "\<exists>r pg'. proxied_poll env_url key srv env st i = Inr r \<and>
    page_step (Poll_answer n (Inr (reply_of read_json r))) pg = Some pg' \<and>
    current_job pg' = Some (from_detail (to_job_detail j)) \<and>
    timer pg' = (if status j \<in> {Queued, Processing} then Some (Some i) else None)"
proof -
  from api obtain now where conf: "key \<noteq> []" "API_KEY env = key" "follows_routes (find_route srv)"
    "parse_uuid_pipe env i = Inr i" "repo (svc env) = table_repository now" by (auto simp: reaches_table_def)
  have "get_handler (svc env) i (db st) = Inr (to_job_detail j)"
    unfolding db by (rule table_row_found [OF conf(5) inv row])
  from poll_of_row [where env_url = env_url, OF conf(1,3) uuid_is_segment [OF id] conf(2,4) this
      jobs_table.rows_jid [OF inv row] page]
  show ?thesis .
qed

lemma transcript_shown:
  fixes tr :: transcript
  assumes reach: "calm_reach repr s" and i: "i \<in> open_jobs s"
  obtains s' j where "leads_to repr s s'" and "table_rows (jobs s') i = Some j"
    and "\<And>(srv :: table api_server) env st key env_url read_json pg n. reaches_table key srv env i \<Longrightarrow> db st = jobs s' \<Longrightarrow>
      answers_in_json srv read_json (to_job_detail j) \<Longrightarrow> watching pg n i \<Longrightarrow>
      \<exists>r pg'. proxied_poll env_url key srv env st i = Inr r \<and>
        page_step (Poll_answer n (Inr (reply_of read_json r))) pg = Some pg' \<and> timer pg' = None \<and> shows_transcript pg' tr"
proof -
  obtain s' where lead: "leads_to repr s s'" and ends: "brought_to_end (\<lambda>_. tr) s s'"
    using open_jobs_drain [OF reach] by blast
  with spec [OF ends [unfolded brought_to_end_def], of i] i
  obtain j where j: "table_rows (jobs s') i = Some j" "status j = Completed" "job_transcript j = Some tr" by auto
  have inv: "table_inv (jobs s')" using calm_reach_inv [OF leads_to_reach [OF lead reach]] by (simp add: sys_inv_def)
  have id: "py_uuid_ok i" using reach_row_id [OF reach] i by (auto simp: open_jobs_def)
  show thesis
  proof (rule that [OF lead j(1)])
    fix srv :: "table api_server" and env :: "table app_env" and st :: "table api_state" and key env_url read_json
      and pg :: page and n
    assume api: "reaches_table key srv env i" and db: "db st = jobs s'"
      and page: "answers_in_json srv read_json (to_job_detail j)" "watching pg n i"
    from page_reads_row [where env_url = env_url, OF inv j(1) id api db page]
    obtain r pg' where "proxied_poll env_url key srv env st i = Inr r"
      "page_step (Poll_answer n (Inr (reply_of read_json r))) pg = Some pg'"
      "current_job pg' = Some (from_detail (to_job_detail j))" "timer pg' = None"
      using j(2) by (auto simp del: page_step.simps)
    then show "\<exists>r pg'. proxied_poll env_url key srv env st i = Inr r \<and>
        page_step (Poll_answer n (Inr (reply_of read_json r))) pg = Some pg' \<and> timer pg' = None \<and> shows_transcript pg' tr"
      using completed_view [OF j(2,3)] by (auto simp: shows_transcript_def render_def simp del: page_step.simps)
  qed
qed

text \<open>
  C6. The transcript reaches the user. Take any state the system can reach, with a job that is
  queued or processing and was not given up, and any transcript the model may make of it. The
  workers can go on so that the job's row is completed with it; and from then on, for every proxy
  and API with the same key over that table and every page that watches the job, the answer to
  the page's next poll makes it show the job as completed, with one line per segment of that
  transcript, its text and its clock.
\<close>

theorem transcript_reaches_page:
  fixes tr :: transcript
  assumes reach: "calm_reach repr s" and "pending (get_status i (jobs s))" and "\<not> abandoned s i"
  shows "\<exists>s' j. leads_to repr s s' \<and> table_rows (jobs s') i = Some j \<and>
    (\<forall>(srv :: table api_server) env st key env_url read_json pg n.
       reaches_table key srv env i \<and> db st = jobs s' \<and>
       answers_in_json srv read_json (to_job_detail j) \<and> watching pg n i \<longrightarrow>
       (\<exists>r pg'. proxied_poll env_url key srv env st i = Inr r \<and>
          page_step (Poll_answer n (Inr (reply_of read_json r))) pg = Some pg' \<and> timer pg' = None \<and>
          shows_transcript pg' tr))"
proof -
  have "i \<in> open_jobs s" using assms(2,3) by (simp add: open_jobs_def)
  from transcript_shown [OF reach this] show ?thesis by metis
qed

theorem transcript_reaches_page_witness:
  "\<forall>repr (tr :: transcript). \<exists>s' j r pg'. leads_to repr taken_state s' \<and>
     proxied_poll None ''k'' ok_server sample_api (sample_state (jobs s')) sample_uuid = Inr r \<and>
     page_step (Poll_answer 0 (Inr (reply_of (\<lambda>_. Inr (from_detail (to_job_detail j))) r)))
       (watching_page sample_uuid) = Some pg' \<and> shows_transcript pg' tr"
proof (intro allI)
  fix repr and tr :: transcript
  have reach: "calm_reach repr taken_state"
    by (rule calm_reach_run [OF take_run calm_reach.init]) (simp add: take_events_def)
  have "pending (get_status sample_uuid (jobs taken_state))" "\<not> abandoned taken_state sample_uuid"
    by (simp_all add: taken_state_def queued_row_status abandoned_def sys_init_def)
  from transcript_reaches_page [OF reach this, of tr]
  obtain s' j where s': "leads_to repr taken_state s'"
    and shows_it: "\<And>(srv :: table api_server) env st key env_url read_json pg n.
       reaches_table key srv env sample_uuid \<and> db st = jobs s' \<and>
       answers_in_json srv read_json (to_job_detail j) \<and> watching pg n sample_uuid \<Longrightarrow>
       \<exists>r pg'. proxied_poll env_url key srv env st sample_uuid = Inr r \<and>
          page_step (Poll_answer n (Inr (reply_of read_json r))) pg = Some pg' \<and> timer pg' = None \<and>
          shows_transcript pg' tr"
    by blast
  have "reaches_table ''k'' (ok_server :: table api_server) sample_api sample_uuid" "db (sample_state (jobs s')) = jobs s'"
    using ok_server_laws(1) by (auto simp: reaches_table_def sample_api_def sample_env_def sample_state_def)
  with shows_it [of "''k''" ok_server sample_api "sample_state (jobs s')" "\<lambda>_. Inr (from_detail (to_job_detail j))"
      "watching_page sample_uuid" 0 None] ok_server_laws(2) watching_page_ok
  obtain r pg' where "proxied_poll None ''k'' ok_server sample_api (sample_state (jobs s')) sample_uuid = Inr r"
    "page_step (Poll_answer 0 (Inr (reply_of (\<lambda>_. Inr (from_detail (to_job_detail j))) r))) (watching_page sample_uuid) = Some pg'"
    "shows_transcript pg' tr"
    by blast
  with s' show "\<exists>s' j r pg'. leads_to repr taken_state s' \<and>
     proxied_poll None ''k'' ok_server sample_api (sample_state (jobs s')) sample_uuid = Inr r \<and>
     page_step (Poll_answer 0 (Inr (reply_of (\<lambda>_. Inr (from_detail (to_job_detail j))) r)))
       (watching_page sample_uuid) = Some pg' \<and> shows_transcript pg' tr"
    by blast
qed

end
