(* ===== verification/Transcriber.thy ===== *)
theory Transcriber
  imports Worker_Message Job_Entity
begin

text \<open>
  The transcription of one file in the worker (\<open>worker/transcriber.py\<close>) and the throttled progress
  writes (\<open>make_progress_reporter\<close> of \<open>worker/main.py\<close>). The whisper model and ffmpeg are
  parameters: what segments a file yields before the model stops, with its language or what it
  raises, and where a slice is written or what the call raises. Deleting a slice afterwards is left
  out (the slices live in the temporary directory of the job).

  Settings are Python integers; adding one to a float or comparing it is exact below \<open>2 ^ 53\<close>.
\<close>

type_synonym raw_segment = "f64 \<times> f64 \<times> string"

record transcriber_env =
  load_model :: "(py_exception, unit) result"
  whisper :: "string \<Rightarrow> raw_segment list \<times> (py_exception, string) result"
  slice_wav :: "string \<Rightarrow> f64 \<Rightarrow> f64 \<Rightarrow> nat \<Rightarrow> (py_exception, string) result"
  chunk_threshold_sec :: int
  chunk_sec :: int

definition py_round2 :: "f64 \<Rightarrow> f64" where
  \<comment> \<open>\<open>round(x, 2)\<close>: the exact value to two decimals, ties to even, then to the nearest float\<close>
  "py_round2 x = fl (of_int (round_half_even (x * 100)) / 100)"

subsection \<open>Chunks\<close>

partial_function (option) plan_loop :: "f64 \<Rightarrow> f64 \<Rightarrow> f64 \<Rightarrow> (f64 \<times> f64) list option" where
  "plan_loop duration sec start = (if start < duration
     then Option.bind (plan_loop duration sec (fl (start + sec)))
       (\<lambda>chunks. Some ((start, min sec (fl (duration - start))) # chunks))
     else Some [])"

definition plan_chunks :: "f64 \<Rightarrow> int \<Rightarrow> (f64 \<times> f64) list option" where
  \<comment> \<open>\<open>None\<close> when the loop does not end\<close>
  "plan_chunks duration sec = plan_loop duration (of_int sec) 0"

definition offset_segments :: "raw_segment list \<Rightarrow> f64 \<Rightarrow> raw_segment list" where
  "offset_segments raw offset_sec = map (\<lambda>(start, stop, txt). (fl (start + offset_sec), fl (stop + offset_sec), txt)) raw"

definition merge_chunks :: "(f64 \<times> raw_segment list) list \<Rightarrow> raw_segment list" where
  "merge_chunks chunk_results = concat (map (\<lambda>(chunk_start, raw). offset_segments raw chunk_start) chunk_results)"

definition shape_segments :: "raw_segment list \<Rightarrow> transcript_segment list" where
  "shape_segments raw = map (\<lambda>(idx, start, stop, txt). \<lparr>seg_id = int idx, seg_start = py_round2 start,
     seg_end = py_round2 stop, seg_text = py_strip txt\<rparr>) (enumerate 0 raw)"

definition build_transcript :: "transcript_segment list \<Rightarrow> string \<Rightarrow> f64 \<Rightarrow> transcript" where
  "build_transcript segs lang dur = \<lparr>text_of = js_join '' '' (map seg_text segs), transcript_language = lang,
     transcript_duration = py_round2 dur, segments = segs\<rparr>"

definition transcribe_wav :: "transcriber_env \<Rightarrow> string \<Rightarrow> f64 \<Rightarrow>
    (py_exception, raw_segment list \<times> string) result \<times> f64 list" where
  \<comment> \<open>the result and the fractions reported on the way\<close>
  "transcribe_wav env wav dur = (case whisper env wav of (raw, r) \<Rightarrow>
     (map_sum id (\<lambda>lang. (raw, lang)) r,
      if dur > 0 then map (\<lambda>(start, stop, txt). min (fl (stop / dur)) 1) raw else []))"

definition scaled_progress :: "nat \<Rightarrow> nat \<Rightarrow> f64 \<Rightarrow> f64" where
  "scaled_progress index n_chunks fraction = fl (fl (of_nat index + fraction) / of_nat n_chunks)"

definition py_or :: "string option \<Rightarrow> string \<Rightarrow> string" where
  \<comment> \<open>\<open>a or b\<close>\<close>
  "py_or a b = (case a of None \<Rightarrow> b | Some s \<Rightarrow> if s = [] then b else s)"

definition chunk_path :: "transcriber_env \<Rightarrow> string \<Rightarrow> nat \<Rightarrow> nat \<times> f64 \<times> f64 \<Rightarrow> (py_exception, string) result" where
  "chunk_path env wav n_chunks = (\<lambda>(index, start, len).
     if n_chunks = 1 then Inr wav else slice_wav env wav start len index)"

fun chunk_loop :: "transcriber_env \<Rightarrow> string \<Rightarrow> nat \<Rightarrow> (nat \<times> f64 \<times> f64) list \<Rightarrow> raw_segment list \<Rightarrow> string option \<Rightarrow>
    (py_exception, raw_segment list \<times> string option) result \<times> f64 list" where
  "chunk_loop env wav n_chunks [] merged lang = (Inr (merged, lang), [])"
| "chunk_loop env wav n_chunks ((index, start, len) # cs) merged lang =
    (case chunk_path env wav n_chunks (index, start, len) of Inl e \<Rightarrow> (Inl e, [])
     | Inr path \<Rightarrow> (case transcribe_wav env path len of (r, fractions) \<Rightarrow>
         let reports = map (scaled_progress index n_chunks) fractions in
         (case r of Inl e \<Rightarrow> (Inl e, reports)
          | Inr (raw, chunk_language) \<Rightarrow>
              (case chunk_loop env wav n_chunks cs (merged @ offset_segments raw start)
                  (Some (py_or lang chunk_language)) of (result, later) \<Rightarrow> (result, reports @ later)))))"

definition transcribe :: "transcriber_env \<Rightarrow> string \<Rightarrow> f64 \<Rightarrow> ((py_exception, transcript) result \<times> f64 list) option" where
  "transcribe env wav dur = (case load_model env of Inl e \<Rightarrow> Some (Inl e, [])
   | Inr _ \<Rightarrow>
     Option.bind (if dur > of_int (chunk_threshold_sec env) then plan_chunks dur (chunk_sec env) else Some [(0, dur)])
       (\<lambda>chunks. case chunk_loop env wav (length chunks) (enumerate 0 chunks) [] None of (r, reports) \<Rightarrow>
          Some (map_sum id (\<lambda>(merged, lang). build_transcript (shape_segments merged) (py_or lang ''unknown'') dur) r,
            reports)))"

subsection \<open>Progress writes\<close>

definition PROGRESS_REPORT_STEP :: f64 where "PROGRESS_REPORT_STEP = fl (1/10)"

fun report_writes :: "f64 \<Rightarrow> f64 list \<Rightarrow> f64 list" where
  \<comment> \<open>what \<open>report\<close> writes to the row, from \<open>last_reported\<close> on\<close>
  "report_writes last_reported [] = []"
| "report_writes last_reported (fraction # fs) =
    (if fl (fraction - last_reported) \<ge> PROGRESS_REPORT_STEP
     then py_round2 fraction # report_writes fraction fs else report_writes last_reported fs)"

subsection \<open>The chunk loop ends\<close>

lemma plan_loop_chunks:
  fixes sec :: int
  assumes "0 < sec" and "sec < 2 ^ 52" and "duration \<le> 2 ^ 52" and "n = nat \<lceil>duration / of_int sec\<rceil>"
  shows "k \<le> n \<Longrightarrow> plan_loop duration (of_int sec) (of_int (int k * sec)) =
    Some (map (\<lambda>k. (of_int (int k * sec), min (of_int sec) (fl (duration - of_int (int k * sec))))) [k..<n])"
proof (induction "n - k" arbitrary: k)
  case 0
  then have "k = n" by simp
  have "duration / of_int sec \<le> of_int (int n)" unfolding assms(4) by linarith
  then have "duration \<le> of_int (int n) * of_int sec" using assms(1) by (simp add: pos_divide_le_eq)
  then show ?case using \<open>k = n\<close> by (simp add: plan_loop.simps)
next
  case (Suc j)
  then have k: "k < n" "j = n - Suc k" by simp_all
  then have "of_int (int k) < duration / of_int sec" unfolding assms(4) by linarith
  then have start: "of_int (int k * sec) < duration" using assms(1) by (simp add: pos_less_divide_eq)
  then have "(of_int (int k * sec) :: rat) < of_int (2 ^ 52)" using assms(3) by simp
  then have "int k * sec < 2 ^ 52" by (simp only: of_int_less_iff)
  moreover have "0 \<le> int k * sec" using assms(1) by simp
  moreover have next_start: "int k * sec + sec = int (Suc k) * sec" by (simp add: algebra_simps)
  ultimately have "\<bar>int (Suc k) * sec\<bar> < 2 ^ 53" using assms(1,2) unfolding next_start [symmetric] by simp
  then have step: "fl (of_int (int k * sec) + of_int sec) = of_int (int (Suc k) * sec)"
    unfolding of_int_add [symmetric] next_start by (rule fl_of_int)
  have up: "[k..<n] = k # [Suc k..<n]" using k(1) by (rule upt_conv_Cons)
  show ?case unfolding plan_loop.simps [of duration _ "of_int (int k * sec)"] step up list.map if_P [OF start]
    using Suc.hyps(1) [of "Suc k"] k by simp
qed

lemma plan_chunks_eq:
  assumes "0 < sec" and "sec < 2 ^ 52" and "duration \<le> 2 ^ 52"
  shows "plan_chunks duration sec = Some (map (\<lambda>k. (of_int (int k * sec),
    min (of_int sec) (fl (duration - of_int (int k * sec))))) [0..<nat \<lceil>duration / of_int sec\<rceil>])"
  using plan_loop_chunks [OF assms refl, of 0] by (simp add: plan_chunks_def)

lemma plan_loop_diverges:
  assumes "sec \<le> 0" and "start \<le> 0" and "0 < duration"
  shows "plan_loop duration sec start = None"
proof -
  have "\<not> (sec \<le> 0 \<and> start \<le> 0 \<and> 0 < duration)" if "plan_loop duration sec start = Some cs" for cs
  proof (rule plan_loop.raw_induct [OF _ that])
    fix f duration sec start cs
    assume IH: "\<And>d c s y. f d c s = Some y \<Longrightarrow> \<not> (c \<le> 0 \<and> s \<le> 0 \<and> 0 < (d::rat))"
      and run: "(if start < duration then Option.bind (f duration sec (fl (start + sec)))
         (\<lambda>chunks. Some ((start, min sec (fl (duration - start))) # chunks)) else Some []) = Some cs"
    show "\<not> (sec \<le> 0 \<and> start \<le> 0 \<and> 0 < duration)"
    proof
      assume *: "sec \<le> 0 \<and> start \<le> 0 \<and> 0 < duration"
      then obtain cs' where "f duration sec (fl (start + sec)) = Some cs'"
        using run by (auto simp: bind_eq_Some_conv split: if_splits)
      moreover have "fl (start + sec) \<le> 0" using fl_mono [of "start + sec" 0] * by simp
      ultimately show False using IH * by blast
    qed
  qed
  then show ?thesis using assms by (cases "plan_loop duration sec start") auto
qed

lemma chunk_start_before:
  assumes "0 < sec" and "k < nat \<lceil>duration / of_int sec\<rceil>"
  shows "of_int (int k * sec) < (duration :: rat)"
proof -
  have "of_int (int k) < duration / of_int sec" using assms(2) by linarith
  then show ?thesis using assms(1) by (simp add: pos_less_divide_eq)
qed

lemma chunk_covering:
  fixes x duration :: rat
  assumes "0 < sec" and "0 \<le> x" and "x < duration"
  shows "\<exists>!k. k < nat \<lceil>duration / of_int sec\<rceil> \<and> of_int (int k * sec) \<le> x \<and> x < of_int (int k * sec) + of_int sec"
proof
  let ?n = "nat \<lceil>duration / of_int sec\<rceil>" and ?k = "nat \<lfloor>x / of_int sec\<rfloor>"
  have "int ?k = \<lfloor>x / of_int sec\<rfloor>" using assms by simp
  then have k: "of_int (int ?k) \<le> x / of_int sec" "x / of_int sec < of_int (int ?k) + 1" by linarith+
  have "x / of_int sec < duration / of_int sec" using assms by (simp add: divide_strict_right_mono)
  then have "?k < ?n" using k(1) by linarith
  moreover have "of_int (int ?k * sec) \<le> x" using k(1) assms(1) by (simp add: pos_le_divide_eq)
  moreover have "x < of_int (int ?k * sec) + of_int sec"
    using k(2) assms(1) by (simp add: pos_divide_less_eq algebra_simps)
  ultimately show "?k < ?n \<and> of_int (int ?k * sec) \<le> x \<and> x < of_int (int ?k * sec) + of_int sec" by blast
  fix k assume "k < ?n \<and> of_int (int k * sec) \<le> x \<and> x < of_int (int k * sec) + of_int sec"
  then have "of_int (int k) \<le> x / of_int sec" "x / of_int sec < of_int (int k) + 1"
    using assms(1) by (simp_all add: pos_le_divide_eq pos_divide_less_eq algebra_simps)
  then have "\<lfloor>x / of_int sec\<rfloor> = int k" by (simp add: floor_unique)
  then show "k = ?k" by simp
qed

text \<open>
  What remains of the file is a difference of binary64 values, and an exact one: the chunk starts
  are integers, so the difference needs no more bits than the duration.
\<close>

lemma fl_exact:
  assumes "\<bar>m\<bar> < 2 ^ 53" and "- 1074 \<le> k"
  shows "fl (of_int m * 2 powi k) = of_int m * 2 powi k"
proof (cases "m = 0")
  case False
  let ?x = "of_int m * 2 powi k :: rat"
  have "?x \<noteq> 0" using False by simp
  then have "(2::rat) powi expo ?x \<le> of_int \<bar>m\<bar> * 2 powi k" using expo_bounds(1) [of ?x] by (simp add: abs_mult)
  also have "\<dots> < 2 powi 53 * 2 powi k"
    using assms(1) by (intro mult_strict_right_mono) (metis of_int_less_iff of_int_numeral of_int_power power_int_numeral, simp)
  also have "\<dots> = 2 powi (53 + k)" by (simp add: power_int_add)
  finally have "expo ?x < 53 + k" by (rule powi_less_imp_less)
  then have u: "ulp_expo ?x \<le> k" using assms(2) by (simp add: ulp_expo_def)
  let ?u = "ulp_expo ?x"
  have "?x = of_int (m * 2 ^ nat (k - ?u)) * 2 powi ?u"
    using u by (simp add: power_int_nonneg_exp [symmetric] power_int_add [symmetric])
  then show ?thesis using fl_at_exact [of ?u "m * 2 ^ nat (k - ?u)"] by (metis fl_eq_fl_at)
qed simp

lemma fl_significand:
  assumes "fl d = d" and "d \<noteq> 0"
  obtains m where "d = of_int m * 2 powi ulp_expo d" and "ulp_expo d < 0 \<Longrightarrow> \<bar>m\<bar> < 2 ^ 53"
proof -
  let ?u = "ulp_expo d" and ?m = "round_half_even (d / 2 powi ulp_expo d)"
  have d: "d = of_int ?m * 2 powi ?u" using assms by (simp add: fl_def)
  have "of_int \<bar>?m\<bar> * 2 powi ?u = \<bar>of_int ?m * 2 powi ?u :: rat\<bar>" by (simp add: abs_mult)
  also have "\<dots> = \<bar>d\<bar>" by (rule arg_cong [OF d [symmetric]])
  also have "\<dots> < 2 powi (expo d + 1)" by (rule expo_bounds(2) [OF assms(2)])
  also have "\<dots> \<le> 2 powi (53 + ?u)" by (intro power_int_increasing) (auto simp: ulp_expo_def)
  also have "\<dots> = 2 powi 53 * 2 powi ?u" by (simp add: power_int_add)
  finally have "(of_int \<bar>?m\<bar> :: rat) < of_int (2 ^ 53)" by simp
  then have "\<bar>?m\<bar> < 2 ^ 53" by (simp only: of_int_less_iff)
  with d show thesis using that by blast
qed

lemma fl_remaining:
  assumes "fl d = d" and "d \<le> 2 ^ 52" and "0 \<le> y" and "of_int y < d"
  shows "fl (d - of_int y) = d - of_int y"
proof -
  have pos: "0 < d" using assms(3,4) by (metis of_int_0_le_iff order_le_less_trans)
  then obtain m where d: "d = of_int m * 2 powi ulp_expo d" and m: "ulp_expo d < 0 \<Longrightarrow> \<bar>m\<bar> < 2 ^ 53"
    using fl_significand [OF assms(1)] by auto
  let ?u = "ulp_expo d"
  show ?thesis
  proof (cases "0 \<le> ?u")
    case True
    then have int: "d - of_int y = of_int (m * 2 ^ nat ?u - y)" using d by (simp add: power_int_nonneg_exp)
    have "of_int (m * 2 ^ nat ?u - y) < (of_int (2 ^ 53) :: rat)" "0 < (of_int (m * 2 ^ nat ?u - y) :: rat)"
      unfolding int [symmetric] using assms(2-4) by simp_all
    then have "\<bar>m * 2 ^ nat ?u - y\<bar> < 2 ^ 53" by (simp only: of_int_less_iff of_int_0_less_iff)
    then show ?thesis unfolding int by (rule fl_of_int)
  next
    case False
    let ?y = "y * 2 ^ nat (- ?u)"
    have "(of_int y :: rat) = of_int ?y * 2 powi ?u"
      using False by (simp add: power_int_nonneg_exp [symmetric] power_int_minus)
    then have diff: "d - of_int y = of_int (m - ?y) * 2 powi ?u" using d by (simp add: left_diff_distrib)
    have "0 < of_int (m - ?y) * (2::rat) powi ?u" unfolding diff [symmetric] using assms(4) by simp
    then have "(0::rat) < of_int (m - ?y)" by (rule zero_less_mult_pos2) simp
    then have "0 < m - ?y" by (simp only: of_int_0_less_iff)
    moreover have "0 \<le> ?y" using assms(3) by simp
    ultimately have "\<bar>m - ?y\<bar> < 2 ^ 53" using m False by auto
    then show ?thesis unfolding diff by (rule fl_exact) (simp add: ulp_expo_def)
  qed
qed

lemma chunk_lengths_cover:
  fixes x duration :: rat
  assumes "0 < sec" and "0 \<le> x" and "x < duration"
  shows "\<exists>!k. k < nat \<lceil>duration / of_int sec\<rceil> \<and> of_int (int k * sec) \<le> x \<and>
    x < of_int (int k * sec) + min (of_int sec) (duration - of_int (int k * sec))"
proof -
  have "x < a + min s (duration - a) \<longleftrightarrow> x < a + s" for a s using assms(3) by (auto simp: min_def)
  then show ?thesis using chunk_covering [OF assms] by (simp only:)
qed

text \<open>
  C16. The chunk plan ends and covers the file. With a positive chunk length and a duration up to
  \<open>2 ^ 52\<close> seconds the loop of \<open>plan_chunks\<close> returns, and every chunk is given exactly, in spite of
  the float arithmetic: the chunk with index \<open>k\<close> starts at \<open>k\<close> times the length and is as long as
  the length, or as what is left of the file. None is empty, and every moment of the file lies in
  exactly one chunk, from its start to its start plus its own length: no second is skipped or
  transcribed twice. With a length of zero or less (which the settings allow) the loop never returns.
\<close>

theorem plan_chunks_cover:
  assumes "0 < duration" and "duration \<le> 2 ^ 52" and "fl duration = duration" and "sec < 2 ^ 52"
  shows "case plan_chunks duration sec of None \<Rightarrow> sec \<le> 0
    | Some chunks \<Rightarrow> 0 < sec \<and> length chunks = nat \<lceil>duration / of_int sec\<rceil> \<and>
       (\<forall>k < length chunks. chunks ! k = (of_int (int k * sec),
            min (of_int sec) (duration - of_int (int k * sec))) \<and> 0 < snd (chunks ! k)) \<and>
       (\<forall>x. 0 \<le> x \<and> x < duration \<longrightarrow> (\<exists>!k. k < length chunks \<and>
          fst (chunks ! k) \<le> x \<and> x < fst (chunks ! k) + snd (chunks ! k)))"
proof (cases "0 < sec")
  case False
  then have "plan_chunks duration sec = None"
    unfolding plan_chunks_def using assms(1) by (intro plan_loop_diverges) simp_all
  then show ?thesis using False by simp
next
  case True
  let ?n = "nat \<lceil>duration / of_int sec\<rceil>"
  let ?c = "\<lambda>k. (of_int (int k * sec) :: rat, min (of_int sec) (duration - of_int (int k * sec)))"
  have before: "of_int (int k * sec) < duration" if "k < ?n" for k by (rule chunk_start_before [OF True that])
  have "fl (duration - of_int (int k * sec)) = duration - of_int (int k * sec)" if "k < ?n" for k
    using True by (intro fl_remaining [OF assms(3,2) _ before [OF that]]) simp
  then have plan: "plan_chunks duration sec = Some (map ?c [0..<?n])"
    unfolding plan_chunks_eq [OF True assms(4,2)] by (intro arg_cong [of _ _ Some] map_cong refl) simp
  have nth: "map ?c [0..<?n] ! k = ?c k" "0 < snd (?c k)" if "k < ?n" for k
    using that before [OF that] True by simp_all
  have inside: "(k < ?n \<and> fst (map ?c [0..<?n] ! k) \<le> x \<and> x < fst (map ?c [0..<?n] ! k) + snd (map ?c [0..<?n] ! k)) =
      (k < ?n \<and> of_int (int k * sec) \<le> x \<and> x < of_int (int k * sec) + min (of_int sec) (duration - of_int (int k * sec)))"
    for k x by (intro conj_cong refl) (simp_all only: nth(1) fst_conv snd_conv)
  have "\<exists>!k. k < ?n \<and> fst (map ?c [0..<?n] ! k) \<le> x \<and> x < fst (map ?c [0..<?n] ! k) + snd (map ?c [0..<?n] ! k)"
    if "0 \<le> x \<and> x < duration" for x unfolding inside using that by (intro chunk_lengths_cover True) simp_all
  moreover have "\<forall>k < ?n. map ?c [0..<?n] ! k = ?c k \<and> 0 < snd (map ?c [0..<?n] ! k)"
    using nth by (intro allI impI conjI) (simp_all only:)
  ultimately show ?thesis unfolding plan option.case length_map length_upt diff_zero using True by blast
qed

theorem plan_chunks_cover_witness:
  "case plan_chunks 700 300 of None \<Rightarrow> False | Some chunks \<Rightarrow> length chunks = 3 \<and> chunks ! 2 = (600, 100)"
proof -
  have n: "\<lceil>700 / of_int 300 :: rat\<rceil> = 3" by (simp add: ceiling_eq_iff)
  have float: "fl 700 = 700" using fl_of_int [of 700] by simp
  have plan: "case plan_chunks 700 300 of None \<Rightarrow> (300::int) \<le> 0
    | Some chunks \<Rightarrow> 0 < (300::int) \<and> length chunks = nat \<lceil>700 / of_int 300 :: rat\<rceil> \<and>
       (\<forall>k < length chunks. chunks ! k = (of_int (int k * 300),
            min (of_int 300) (700 - of_int (int k * 300))) \<and> 0 < snd (chunks ! k)) \<and>
       (\<forall>x. 0 \<le> x \<and> x < 700 \<longrightarrow> (\<exists>!k. k < length chunks \<and>
          fst (chunks ! k) \<le> x \<and> x < fst (chunks ! k) + snd (chunks ! k)))"
    by (rule plan_chunks_cover [OF _ _ float]) simp_all
  show ?thesis
  proof (cases "plan_chunks 700 300")
    case None
    then show ?thesis using plan by simp
  next
    case (Some chunks)
    note facts = plan [unfolded Some option.case]
    have "length chunks = nat \<lceil>700 / of_int 300 :: rat\<rceil>" using facts by blast
    then have len: "length chunks = 3" unfolding n by simp
    have "chunks ! 2 = (of_int (int 2 * 300), min (of_int 300) (700 - of_int (int 2 * 300))) \<and> 0 < snd (chunks ! 2)"
      by (rule mp [OF spec [OF conjunct1 [OF conjunct2 [OF conjunct2 [OF facts]]]]]) (simp_all add: len)
    then have "chunks ! 2 = (of_int (int 2 * 300), min (of_int 300) (700 - of_int (int 2 * 300)))" ..
    with len show ?thesis unfolding Some option.case by simp
  qed
qed

subsection \<open>The transcript\<close>

definition chunk_raw :: "transcriber_env \<Rightarrow> string \<Rightarrow> nat \<Rightarrow> nat \<times> f64 \<times> f64 \<Rightarrow> raw_segment list" where
  "chunk_raw env wav n c = (case chunk_path env wav n c of Inl _ \<Rightarrow> [] | Inr path \<Rightarrow> fst (whisper env path))"

lemma map_sum_eq_Inr: "map_sum f g x = Inr y \<longleftrightarrow> (\<exists>z. x = Inr z \<and> y = g z)"
  by (cases x) auto

lemma chunk_loop_merged:
  assumes "chunk_loop env wav n cs merged lang = (Inr (merged', lang'), reports)"
  shows "merged' = merged @ merge_chunks (map (\<lambda>c. (fst (snd c), chunk_raw env wav n c)) cs)"
  using assms
proof (induction cs arbitrary: merged lang reports)
  case (Cons c cs)
  obtain index start len where c: "c = (index, start, len)" by (metis prod_cases3)
  from Cons.prems obtain path raw cl more where
    path: "chunk_path env wav n (index, start, len) = Inr path"
    and w: "whisper env path = (raw, Inr cl)"
    and rest: "chunk_loop env wav n cs (merged @ offset_segments raw start) (Some (py_or lang cl)) = (Inr (merged', lang'), more)"
    by (auto simp: c transcribe_wav_def Let_def map_sum_eq_Inr split: sum.splits prod.splits)
  have "chunk_raw env wav n (index, start, len) = raw" using path w by (simp add: chunk_raw_def)
  then show ?case using Cons.IH [OF rest] c by (simp add: merge_chunks_def)
qed (simp add: merge_chunks_def)

lemma shape_ids: "map seg_id (shape_segments raw) = map int [0..<length raw]"
proof -
  have "map seg_id (shape_segments raw) = map (\<lambda>p. int (fst p)) (enumerate 0 raw)"
    by (simp add: shape_segments_def comp_def case_prod_unfold)
  also have "\<dots> = map int (map fst (enumerate 0 raw))" unfolding map_map comp_def ..
  also have "map fst (enumerate 0 raw) = [0..<length raw]" by (simp add: enumerate_eq_zip)
  finally show ?thesis .
qed

text \<open>
  C27. What a transcript consists of. When \<open>transcribe\<close> returns one, its segments are those the
  model yielded for the planned chunks, in the order of the chunks, each shifted by the start of
  its chunk (the loop agrees with \<open>merge_chunks\<close>, the function the unit tests exercise), rounded
  and stripped, and numbered 0, 1, 2 and so on; its text is their texts joined by blanks. A file
  up to the threshold is one chunk, transcribed without slicing.
\<close>

theorem transcript_merged:
  assumes "transcribe env wav dur = Some (Inr tr, reports)"
  shows "\<exists>chunks. (if dur > of_int (chunk_threshold_sec env) then plan_chunks dur (chunk_sec env) = Some chunks
      else chunks = [(0, dur)]) \<and>
    segments tr = shape_segments (merge_chunks (map (\<lambda>c. (fst (snd c), chunk_raw env wav (length chunks) c))
      (enumerate 0 chunks))) \<and>
    map seg_id (segments tr) = map int [0..<length (segments tr)] \<and>
    text_of tr = js_join '' '' (map seg_text (segments tr)) \<and>
    (dur \<le> of_int (chunk_threshold_sec env) \<longrightarrow>
       segments tr = shape_segments (offset_segments (fst (whisper env wav)) 0))"
proof -
  let ?plan = "if dur > of_int (chunk_threshold_sec env) then plan_chunks dur (chunk_sec env) else Some [(0, dur)]"
  from assms obtain chunks r where plan: "?plan = Some chunks"
    and loop: "chunk_loop env wav (length chunks) (enumerate 0 chunks) [] None = (r, reports)"
    and r: "map_sum id (\<lambda>(merged, lang). build_transcript (shape_segments merged) (py_or lang ''unknown'') dur) r = Inr tr"
    unfolding transcribe_def by (cases "load_model env"; cases ?plan) (auto split: prod.splits)
  obtain merged lang where m: "r = Inr (merged, lang)"
    and tr: "tr = build_transcript (shape_segments merged) (py_or lang ''unknown'') dur"
    using r by (cases r) auto
  have merged: "merged = merge_chunks (map (\<lambda>c. (fst (snd c), chunk_raw env wav (length chunks) c)) (enumerate 0 chunks))"
    using chunk_loop_merged [OF loop [unfolded m]] by simp
  have segs: "segments tr = shape_segments merged" "text_of tr = js_join '' '' (map seg_text (segments tr))"
    by (simp_all add: tr build_transcript_def)
  have ids: "map seg_id (segments tr) = map int [0..<length (segments tr)]"
  proof -
    have "length (shape_segments merged) = length merged" by (simp add: shape_segments_def)
    then show ?thesis unfolding segs(1) by (simp only: shape_ids)
  qed
  have one: "segments tr = shape_segments (offset_segments (fst (whisper env wav)) 0)"
    if "dur \<le> of_int (chunk_threshold_sec env)"
  proof -
    have "chunks = [(0, dur)]" using plan that by simp
    then show ?thesis using segs(1) merged by (simp add: merge_chunks_def chunk_raw_def chunk_path_def)
  qed
  have "if dur > of_int (chunk_threshold_sec env) then plan_chunks dur (chunk_sec env) = Some chunks
      else chunks = [(0, dur)]" using plan by (simp split: if_splits)
  then show ?thesis using segs ids one unfolding merged by blast
qed

definition tiny_env :: transcriber_env where
  "tiny_env = \<lparr>load_model = Inr (), whisper = (\<lambda>_. ([(0, 1, '' hi ''), (1, 2, ''you'')], Inr ''en'')),
     slice_wav = (\<lambda>_ _ _ _. Inl (Raised ''ffmpeg'')), chunk_threshold_sec = 600, chunk_sec = 300\<rparr>"

theorem transcript_merged_witness:
  "\<exists>tr reports. transcribe tiny_env ''a.wav'' 2 = Some (Inr tr, reports) \<and> map seg_id (segments tr) = [0, 1] \<and>
    text_of tr = ''hi you''"
proof -
  have run: "transcribe tiny_env ''a.wav'' 2 = Some (Inr \<lparr>text_of = ''hi you'', transcript_language = ''en'',
      transcript_duration = 2, segments = [\<lparr>seg_id = 0, seg_start = 0, seg_end = 1, seg_text = ''hi''\<rparr>,
        \<lparr>seg_id = 1, seg_start = 1, seg_end = 2, seg_text = ''you''\<rparr>]\<rparr>, [1/2, 1])"
    by code_simp
  from transcript_merged [OF run] run show ?thesis by auto
qed

subsection \<open>Progress\<close>

definition unit_range :: "f64 \<Rightarrow> bool" where "unit_range x \<longleftrightarrow> 0 \<le> x \<and> x \<le> 1"

lemma fl_1 [simp]: "fl 1 = 1"
  using fl_of_int [of 1] by simp

lemma scaled_range:
  assumes "unit_range f" and "index < n" and "n \<le> 2 ^ 52"
  shows "unit_range (scaled_progress index n f)"
proof -
  have exact: "fl (of_nat n) = of_nat n"
    using fl_of_int [of "int n"] assms(3) by (simp add: order_le_less_trans)
  have "(of_nat index :: rat) + 1 \<le> of_nat n" using assms(2) by (metis Suc_leI of_nat_Suc of_nat_le_iff add.commute)
  then have "of_nat index + f \<le> of_nat n" using assms(1) by (simp add: unit_range_def)
  then have "fl (of_nat index + f) \<le> of_nat n" using fl_mono exact by metis
  moreover have "0 \<le> fl (of_nat index + f)" using assms(1) by (intro fl_nonneg) (simp add: unit_range_def)
  moreover have "0 < (of_nat n :: rat)" using assms(2) by simp
  ultimately have "0 \<le> fl (of_nat index + f) / of_nat n" "fl (of_nat index + f) / of_nat n \<le> 1" by simp_all
  then show ?thesis using fl_mono [of _ 1] fl_nonneg by (simp add: unit_range_def scaled_progress_def)
qed

lemma round2_range: "unit_range x \<Longrightarrow> unit_range (py_round2 x)"
proof -
  assume x: "unit_range x"
  have "round_half_even 0 \<le> round_half_even (x * 100)" "round_half_even (x * 100) \<le> round_half_even 100"
    using x by (intro round_half_even_mono; simp add: unit_range_def)+
  then have "0 \<le> round_half_even (x * 100)" "round_half_even (x * 100) \<le> 100"
    using round_half_even_of_int [of 0] round_half_even_of_int [of 100] by simp_all
  then have "0 \<le> (of_int (round_half_even (x * 100)) :: rat) / 100" "(of_int (round_half_even (x * 100)) :: rat) / 100 \<le> 1"
    by simp_all
  then show ?thesis using fl_mono [of _ 1] fl_nonneg by (simp add: unit_range_def py_round2_def)
qed

lemma report_step: "fl (1/11) < PROGRESS_REPORT_STEP"
  unfolding PROGRESS_REPORT_STEP_def by code_simp

lemma reported_apart: "PROGRESS_REPORT_STEP \<le> fl x \<Longrightarrow> 1/11 < x"
  using report_step fl_mono [of x "1/11"] by linarith

lemma report_writes_bound:
  assumes "list_all unit_range xs" and "last_rep \<le> 1"
  shows "last_rep + of_nat (length (report_writes last_rep xs)) / 11 \<le> 1 \<and>
    (report_writes last_rep xs \<noteq> [] \<longrightarrow> last_rep + of_nat (length (report_writes last_rep xs)) / 11 < 1) \<and>
    list_all unit_range (report_writes last_rep xs)"
  using assms
proof (induction xs arbitrary: last_rep)
  case (Cons x xs)
  show ?case
  proof (cases "fl (x - last_rep) \<ge> PROGRESS_REPORT_STEP")
    case True
    have x: "unit_range x" "x \<le> 1" using Cons.prems(1) by (simp_all add: unit_range_def)
    have IH: "x + of_nat (length (report_writes x xs)) / 11 \<le> 1" "list_all unit_range (report_writes x xs)"
      using Cons.IH [of x] Cons.prems(1) x(2) by simp_all
    have "1/11 < x - last_rep" by (rule reported_apart [OF True])
    then show ?thesis using True IH round2_range [OF x(1)] by (simp add: add_divide_distrib)
  next
    case False
    then show ?thesis using Cons by simp
  qed
qed simp

lemma chunk_loop_range:
  assumes "\<And>path start stop txt. (start, stop, txt) \<in> set (fst (whisper env path)) \<Longrightarrow> 0 \<le> stop"
    and "\<forall>c \<in> set cs. fst c < n" and "n \<le> 2 ^ 52"
    and "chunk_loop env wav n cs merged lang = (r, reports)"
  shows "list_all unit_range reports"
  using assms(2,4)
proof (induction cs arbitrary: merged lang r reports)
  case (Cons c cs)
  obtain index start len where c: "c = (index, start, len)" by (metis prod_cases3)
  show ?case
  proof (cases "chunk_path env wav n (index, start, len)")
    case (Inl e)
    then show ?thesis using Cons.prems(2) by (simp add: c)
  next
    case (Inr path)
    obtain raw w where w: "whisper env path = (raw, w)" by fastforce
    let ?fs = "if len > 0 then map (\<lambda>(start, stop, txt). min (fl (stop / len)) 1) raw else []"
    have "list_all unit_range ?fs"
    proof (cases "len > 0")
      case True
      have "unit_range (min (fl (stop / len)) 1)" if "(s, stop, x) \<in> set raw" for s stop x
        using assms(1) [of s stop x path] that w True by (simp add: unit_range_def fl_nonneg)
      then show ?thesis using True by (auto simp: list_all_iff)
    qed simp
    then have now: "list_all unit_range (map (scaled_progress index n) ?fs)"
      using scaled_range [OF _ _ assms(3)] Cons.prems(1) c by (auto simp: list_all_iff)
    show ?thesis
    proof (cases w)
      case (Inl e)
      then show ?thesis using Cons.prems(2) c Inr w now by (simp add: transcribe_wav_def)
    next
      case l: (Inr cl)
      obtain r' more where rest: "chunk_loop env wav n cs (merged @ offset_segments raw start) (Some (py_or lang cl)) = (r', more)"
        by fastforce
      have "reports = map (scaled_progress index n) ?fs @ more"
        using Cons.prems(2) c Inr w l rest by (simp add: transcribe_wav_def)
      moreover have "list_all unit_range more" using Cons.IH [OF _ rest] Cons.prems(1) by simp
      ultimately show ?thesis using now by simp
    qed
  qed
qed simp

lemma transcribe_reports:
  assumes "\<And>path start stop txt. (start, stop, txt) \<in> set (fst (whisper env path)) \<Longrightarrow> 0 \<le> stop"
    and "transcribe env wav dur = Some (r, reports)" and "dur \<le> 2 ^ 52" and "chunk_sec env < 2 ^ 52"
  shows "list_all unit_range reports"
proof (cases "load_model env")
  case (Inl e)
  then show ?thesis using assms(2) by (simp add: transcribe_def)
next
  case (Inr u)
  then obtain chunks r' where
    plan: "(if dur > of_int (chunk_threshold_sec env) then plan_chunks dur (chunk_sec env) else Some [(0, dur)]) = Some chunks"
    and loop: "chunk_loop env wav (length chunks) (enumerate 0 chunks) [] None = (r', reports)"
    using assms(2) unfolding transcribe_def
    by (cases "if dur > of_int (chunk_threshold_sec env) then plan_chunks dur (chunk_sec env) else Some [(0, dur)]")
      (auto split: prod.splits)
  have "length chunks \<le> 2 ^ 52"
  proof (cases "dur > of_int (chunk_threshold_sec env) \<and> 0 < dur")
    case True
    then have p: "plan_chunks dur (chunk_sec env) = Some chunks" using plan by simp
    then have pos: "0 < chunk_sec env"
      using plan_loop_diverges [of "of_int (chunk_sec env)" 0 dur] True
      by (auto simp: plan_chunks_def not_less [symmetric])
    then have "length chunks = nat \<lceil>dur / of_int (chunk_sec env)\<rceil>"
      using plan_chunks_eq [OF pos assms(4,3)] p by simp
    moreover note pos
    moreover have "dur / of_int (chunk_sec env) \<le> dur / 1" if "0 < chunk_sec env"
      using that True by (intro divide_left_mono) auto
    ultimately have "dur / of_int (chunk_sec env) \<le> of_int (2 ^ 52)" using assms(3) by simp
    then have "\<lceil>dur / of_int (chunk_sec env)\<rceil> \<le> 2 ^ 52" by (simp only: ceiling_le_iff)
    from nat_mono [OF this] show ?thesis
      unfolding \<open>length chunks = _\<close> by (rule order_trans) simp
  next
    case False
    then have "chunks = [(0, dur)] \<or> plan_chunks dur (chunk_sec env) = Some chunks \<and> dur \<le> 0"
      using plan by (auto split: if_splits)
    then show ?thesis by (auto simp: plan_chunks_def plan_loop.simps)
  qed
  then show ?thesis using chunk_loop_range [OF assms(1) _ _ loop] by (auto simp: in_set_enumerate_eq)
qed

text \<open>
  C28. The progress a job reports. Whatever the model yields (segments that end at or after 0, in
  any order, possibly past the end of the file), every value written to the progress column is
  between 0 and 1, and one run of a job writes it at most ten times, however many segments the
  model yields.
\<close>

theorem progress_writes:
  assumes "\<And>path start stop txt. (start, stop, txt) \<in> set (fst (whisper env path)) \<Longrightarrow> 0 \<le> stop"
    and "transcribe env wav dur = Some (r, reports)" and "dur \<le> 2 ^ 52" and "chunk_sec env < 2 ^ 52"
  shows "(\<forall>x \<in> set (report_writes 0 reports). 0 \<le> x \<and> x \<le> 1) \<and> length (report_writes 0 reports) \<le> 10"
proof -
  have "list_all unit_range reports" using transcribe_reports [OF _ assms(2-4)] assms(1) by blast
  from report_writes_bound [OF this, of 0] show ?thesis by (auto simp: list_all_iff unit_range_def)
qed

theorem progress_writes_witness:
  "\<exists>r reports. transcribe tiny_env ''a.wav'' 2 = Some (r, reports) \<and> report_writes 0 reports = [1/2, 1] \<and>
    length (report_writes 0 reports) \<le> 10"
proof -
  obtain r reports where run: "transcribe tiny_env ''a.wav'' 2 = Some (r, reports)"
    and w: "report_writes 0 reports = [1/2, 1]"
  proof -
    have "map_option (\<lambda>(r, reports). report_writes 0 reports) (transcribe tiny_env ''a.wav'' 2) = Some [1/2, 1]"
      by code_simp
    then show thesis using that by auto
  qed
  have "length (report_writes 0 reports) \<le> 10"
    by (rule conjunct2 [OF progress_writes [OF _ run]]) (auto simp: tiny_env_def)
  then show ?thesis using run w by blast
qed

end
