(* ===== verification/Pipeline.thy ===== *)
theory Pipeline
  imports Audio Transcriber
begin

text \<open>
  \<open>run_pipeline\<close> of \<open>worker/main.py\<close>: probe, normalize, probe again and transcribe, with the
  slices of long files cut by ffmpeg. The temporary directory and the printing of floats are
  parameters. The result comes with what the calls before the transcription have logged; each slice
  logs its own command (\<open>cut_wav\<close>).
\<close>

datatype pipeline_end =
    Ended "(py_exception, transcript) result" "f64 list"  \<comment> \<open>and the fractions reported\<close>
  | Endless                     \<comment> \<open>the chunk loop does not end\<close>
  | Not_finite                  \<comment> \<open>the duration is infinite or not a number; not followed further\<close>

definition pipeline_env :: "subprocess \<Rightarrow> (f64 \<Rightarrow> string) \<Rightarrow> transcriber_env \<Rightarrow> transcriber_env" where
  "pipeline_env sp show_float env = env\<lparr>slice_wav :=
     (\<lambda>src start len index. fst (cut_wav sp show_float src start len index))\<rparr>"

definition transcribe_file :: "transcriber_env \<Rightarrow> string \<Rightarrow> py_float \<Rightarrow> pipeline_end" where
  "transcribe_file env wav_path duration = (case duration of
     Finite d \<Rightarrow> (case transcribe env wav_path d of None \<Rightarrow> Endless | Some (r, reports) \<Rightarrow> Ended r reports)
   | _ \<Rightarrow> Not_finite)"

definition run_pipeline :: "subprocess \<Rightarrow> (f64 \<Rightarrow> string) \<Rightarrow> transcriber_env \<Rightarrow> (py_exception, string) result \<Rightarrow>
    string \<Rightarrow> pipeline_end \<times> (command \<times> int) list" where
  "run_pipeline sp show_float env tmp file_path =
    (case probe sp file_path of (Inl e, cmds) \<Rightarrow> (Ended (Inl e) [], cmds)
     | (Inr _, cmds) \<Rightarrow> (case tmp of Inl e \<Rightarrow> (Ended (Inl e) [], cmds)
     | Inr tmp_dir \<Rightarrow> (case normalize sp file_path tmp_dir of (Inl e, cmds') \<Rightarrow> (Ended (Inl e) [], cmds @ cmds')
     | (Inr wav_path, cmds') \<Rightarrow> (case probe sp wav_path of (Inl e, cmds'') \<Rightarrow> (Ended (Inl e) [], cmds @ cmds' @ cmds'')
     | (Inr duration, cmds'') \<Rightarrow>
         (transcribe_file (pipeline_env sp show_float env) wav_path duration, cmds @ cmds' @ cmds'')))))"

text \<open>The calls with what they log.\<close>

lemma probe_pair: "fst (probe sp p) = r \<Longrightarrow> probe sp p = (r, [(probe_command p, 60)])"
  using probe_result(2) [of sp p] by (cases "probe sp p") simp

lemma normalize_pair: "fst (normalize sp src dir) = r \<Longrightarrow>
    normalize sp src dir = (r, [(normalize_command src (join_path dir ''normalized.wav''), 600)])"
  using normalize_result(2) [of sp src dir] by (cases "normalize sp src dir") simp

lemma run_pipeline_result:
  "fst (run_pipeline sp show_float env tmp file) = (case fst (probe sp file) of Inl e \<Rightarrow> Ended (Inl e) []
     | Inr _ \<Rightarrow> (case tmp of Inl e \<Rightarrow> Ended (Inl e) []
     | Inr dir \<Rightarrow> (case fst (normalize sp file dir) of Inl e \<Rightarrow> Ended (Inl e) []
     | Inr wav \<Rightarrow> (case fst (probe sp wav) of Inl e \<Rightarrow> Ended (Inl e) []
     | Inr d \<Rightarrow> transcribe_file (pipeline_env sp show_float env) wav d))))"
  by (simp add: run_pipeline_def case_prod_unfold split: sum.split)

text \<open>ffprobe has exited with 0 and has listed an audio stream in the file.\<close>

definition lists_audio :: "subprocess \<Rightarrow> string \<Rightarrow> bool" where
  "lists_audio sp path \<longleftrightarrow> (\<exists>r data ss s. sp (probe_command path) 60 = Exited r \<and> returncode r = 0 \<and>
     json_loads (proc_stdout r) = Some data \<and> json_get data ''streams'' = Some (JArr ss) \<and> s \<in> set ss \<and>
     json_get s ''codec_type'' = Some (JStr ''audio''))"

lemma any_audio_found:
  "any_audio ss = Inr True \<Longrightarrow> \<exists>s ms. s \<in> set ss \<and> s = JObj ms \<and> json_get s ''codec_type'' = Some (JStr ''audio'')"
proof (induction ss)
  case (Cons s ss)
  then obtain ms where s: "s = JObj ms" by (auto simp: result_iff dict_get_def split: json.splits)
  show ?case
  proof (cases "json_get s ''codec_type'' = Some (JStr ''audio'')")
    case True
    then show ?thesis using s by auto
  next
    case False
    then have "any_audio ss = Inr True"
      using Cons.prems by (auto simp: dict_get_def s split: option.splits if_splits)
    then show ?thesis using Cons.IH by auto
  qed
qed simp

lemma iterate_objects: "iterate v = Inr ss \<Longrightarrow> JObj ms \<in> set ss \<Longrightarrow> v = JArr ss"
  by (auto simp: iterate_def split: json.splits)

lemma probe_lists_audio: "fst (probe sp path) = Inr x \<Longrightarrow> lists_audio sp path"
proof -
  assume "fst (probe sp path) = Inr x"
  then obtain r where r: "sp (probe_command path) 60 = Exited r" "returncode r = 0" "read_probe (proc_stdout r) = Inr x"
    by (auto simp: probe_result run_command_def result_iff split: subprocess_result.splits if_splits)
  then obtain data streams ss where d: "json_loads (proc_stdout r) = Some data"
    "dict_get data ''streams'' (JArr []) = Inr streams" "iterate streams = Inr ss" "any_audio ss = Inr True"
    by (auto simp: read_probe_def result_iff split: option.splits if_splits)
  from any_audio_found [OF d(4)] obtain s ms where s: "s \<in> set ss" "s = JObj ms"
    "json_get s ''codec_type'' = Some (JStr ''audio'')" by blast
  have arr: "streams = JArr ss" using iterate_objects [OF d(3)] s(1,2) by simp
  have "json_get data ''streams'' = Some streams"
    using d(2) arr s(1) by (auto simp: dict_get_def split: json.splits option.splits)
  then show "lists_audio sp path" unfolding lists_audio_def using r d(1) arr s by blast
qed

lemma chunk_loop_error:
  assumes "chunk_loop env wav n cs merged lang = (Inl e, reports)"
  shows "(\<exists>p. snd (whisper env p) = Inl e) \<or> (\<exists>a b c i. slice_wav env a b c i = Inl e)"
  using assms
proof (induction cs arbitrary: merged lang reports)
  case (Cons c cs)
  obtain index start len where c: "c = (index, start, len)" by (cases c)
  show ?case
  proof (cases "chunk_path env wav n c")
    case (Inl e')
    then have "e' = e" using Cons.prems by (simp add: c)
    then show ?thesis using Inl by (auto simp: c chunk_path_def split: if_splits)
  next
    case (Inr p)
    obtain raw w where w: "whisper env p = (raw, w)" by fastforce
    show ?thesis
    proof (cases w)
      case (Inl e')
      then have "e' = e" using Cons.prems Inr w by (simp add: c transcribe_wav_def Let_def)
      then show ?thesis using Inl w by (metis snd_conv)
    next
      case (Inr l)
      obtain r later where rec: "chunk_loop env wav n cs (merged @ offset_segments raw start) (Some (py_or lang l)) = (r, later)"
        by fastforce
      then have "r = Inl e" using Cons.prems \<open>chunk_path env wav n c = _\<close> w Inr
        by (simp add: c transcribe_wav_def Let_def)
      then show ?thesis using Cons.IH rec by blast
    qed
  qed
qed simp

lemma transcribe_cases:
  assumes "transcribe env wav d = Some (result, reports)"
  obtains (no_model) e where "load_model env = Inl e" "result = Inl e"
  | (ran) chunks r where "chunk_loop env wav (length chunks) (enumerate 0 chunks) [] None = (r, reports)"
      "result = map_sum id (\<lambda>(merged, lang). build_transcript (shape_segments merged) (py_or lang ''unknown'') d) r"
proof (cases "load_model env")
  case (Inl e)
  then show ?thesis using assms no_model by (simp add: transcribe_def)
next
  case (Inr u)
  let ?plan = "if d > of_int (chunk_threshold_sec env) then plan_chunks d (chunk_sec env) else Some [(0, d)]"
  from assms Inr obtain chunks where chunks: "?plan = Some chunks"
    by (cases ?plan) (simp_all add: transcribe_def)
  obtain r rs where loop: "chunk_loop env wav (length chunks) (enumerate 0 chunks) [] None = (r, rs)" by fastforce
  from assms have "rs = reports"
    "result = map_sum id (\<lambda>(merged, lang). build_transcript (shape_segments merged) (py_or lang ''unknown'') d) r"
    unfolding transcribe_def Inr sum.case chunks bind.bind_lunit loop by simp_all
  with loop show ?thesis using ran by simp
qed

lemma transcribe_error:
  assumes "transcribe env wav d = Some (Inl e, reports)"
  shows "load_model env = Inl e \<or> (\<exists>p. snd (whisper env p) = Inl e) \<or> (\<exists>a b c i. slice_wav env a b c i = Inl e)"
  using assms
proof (cases rule: transcribe_cases)
  case (ran chunks r)
  then have "r = Inl e" by (cases r) auto
  with chunk_loop_error ran(1) show ?thesis by blast
qed simp

lemma transcribe_duration:
  assumes "transcribe env wav d = Some (Inr tr, reports)"
  shows "transcript_duration tr = py_round2 d"
  using assms
proof (cases rule: transcribe_cases)
  case (ran chunks r)
  then show ?thesis by (cases r) (auto simp: build_transcript_def)
qed simp

lemma transcribe_file_Ended:
  "transcribe_file env wav x = Ended r reports \<longleftrightarrow> (\<exists>d. x = Finite d \<and> transcribe env wav d = Some (r, reports))"
  by (auto simp: transcribe_file_def split: py_float.splits option.splits)

text \<open>The stages of a run, with the log at its end.\<close>

lemma pipeline_cases:
  assumes "run_pipeline sp show_float env tmp file = (res, cmds)"
  obtains (rejected) e where "fst (probe sp file) = Inl e" "res = Ended (Inl e) []" "cmds = [(probe_command file, 60)]"
  | (no_dir) x e where "fst (probe sp file) = Inr x" "tmp = Inl e" "res = Ended (Inl e) []"
      "cmds = [(probe_command file, 60)]"
  | (not_converted) x dir e where "fst (probe sp file) = Inr x" "tmp = Inr dir" "fst (normalize sp file dir) = Inl e"
      "res = Ended (Inl e) []"
      "cmds = [(probe_command file, 60), (normalize_command file (join_path dir ''normalized.wav''), 600)]"
  | (converted) x dir wav where "fst (probe sp file) = Inr x" "tmp = Inr dir" "wav = join_path dir ''normalized.wav''"
      "fst (normalize sp file dir) = Inr wav"
      "res = (case fst (probe sp wav) of Inl e \<Rightarrow> Ended (Inl e) []
         | Inr d \<Rightarrow> transcribe_file (pipeline_env sp show_float env) wav d)"
      "cmds = [(probe_command file, 60), (normalize_command file wav, 600), (probe_command wav, 60)]"
proof (cases "fst (probe sp file)")
  case (Inl e)
  note run = assms [unfolded run_pipeline_def probe_pair [OF Inl] prod.case sum.case]
  show thesis by (rule rejected [OF Inl]) (use run in simp_all)
next
  case (Inr x)
  note first = Inr
  note run = assms [unfolded run_pipeline_def probe_pair [OF Inr] prod.case sum.case]
  show thesis
  proof (cases tmp)
    case (Inl e)
    note run = run [unfolded Inl sum.case]
    show thesis by (rule no_dir [OF first Inl]) (use run in simp_all)
  next
    case dir: (Inr dir)
    note run = run [unfolded dir sum.case]
    let ?wav = "join_path dir ''normalized.wav''"
    show thesis
    proof (cases "fst (normalize sp file dir)")
      case (Inl e)
      note run = run [unfolded normalize_pair [OF Inl] prod.case sum.case append.simps]
      show thesis by (rule not_converted [OF first dir Inl]) (use run in simp_all)
    next
      case norm: (Inr p)
      have p: "p = ?wav" using norm by (auto simp: normalize_result result_iff split: if_splits)
      obtain r where r: "fst (probe sp ?wav) = r" by simp
      note run = run [unfolded normalize_pair [OF norm] p prod.case sum.case probe_pair [OF r] append.simps]
      show thesis
        by (rule converted [OF first dir refl norm [unfolded p]], unfold r) (use run in \<open>simp_all split: sum.splits\<close>)
    qed
  qed
qed

lemma pipeline_failure:
  assumes "run_pipeline sp show_float env tmp file = (Ended (Inl e) reports, cmds)"
  shows "tmp = Inl e \<or> load_model env = Inl e \<or> (\<exists>p. snd (whisper env p) = Inl e) \<or> known_error sp e"
  using assms
proof (cases rule: pipeline_cases)
  case (converted x dir wav)
  let ?env = "pipeline_env sp show_float env"
  from converted(5) consider "fst (probe sp wav) = Inl e" | d where "transcribe ?env wav d = Some (Inl e, reports)"
    by (auto simp: transcribe_file_Ended dest!: sym [of "Ended _ _"] split: sum.splits)
  then show ?thesis
  proof cases
    case 2
    from transcribe_error [OF this] show ?thesis using cut_wav_known by (auto simp: pipeline_env_def)
  qed (use probe_known in blast)
qed (auto dest: probe_known normalize_known)

lemma pipeline_commands:
  assumes run: "run_pipeline sp show_float env tmp file = (res, cmds)"
  shows "\<exists>wav. cmds \<noteq> [] \<and> prefix cmds [(probe_command file, 60), (normalize_command file wav, 600), (probe_command wav, 60)] \<and>
      (1 < length cmds \<longrightarrow> lists_audio sp file) \<and>
      (\<forall>tr reports. res = Ended (Inr tr) reports \<longrightarrow> length cmds = 3 \<and> lists_audio sp wav \<and>
         (\<exists>d. fst (probe sp wav) = Inr (Finite d) \<and> transcript_duration tr = py_round2 d \<and>
            transcribe (pipeline_env sp show_float env) wav d = Some (Inr tr, reports)))"
  using run
proof (cases rule: pipeline_cases)
  case (not_converted x dir e)
  then show ?thesis using probe_lists_audio by (intro exI [of _ "join_path dir ''normalized.wav''"]) auto
next
  case (converted x dir wav)
  let ?env = "pipeline_env sp show_float env"
  have ok: "lists_audio sp wav \<and> (\<exists>d. fst (probe sp wav) = Inr (Finite d) \<and> transcript_duration tr = py_round2 d \<and>
      transcribe ?env wav d = Some (Inr tr, reports))" if "res = Ended (Inr tr) reports" for tr reports
  proof -
    from that converted(5) obtain y where y: "fst (probe sp wav) = Inr y" "transcribe_file ?env wav y = Ended (Inr tr) reports"
      by (auto split: sum.splits)
    from y(2) [unfolded transcribe_file_Ended] y(1) transcribe_duration probe_lists_audio [OF y(1)] show ?thesis by auto
  qed
  show ?thesis using converted(6) probe_lists_audio [OF converted(1)] ok by (intro conjI exI [of _ wav]) auto
qed auto

text \<open>
  C17. Only audio is transcribed, and no subprocess is waited for without end. A run of the
  pipeline starts at most three commands before the transcription, in the order probe, normalize,
  probe, and calls them with limits of 60, 600 and 60 seconds; every slice is one more command, with
  a limit of 600. ffmpeg is only given a file in which ffprobe has listed an audio stream. A
  transcript is only returned after all three commands, and it is what \<open>transcribe\<close> makes of the
  normalized file and the duration ffprobe read from it. When the pipeline fails, the error is that
  of the temporary directory, of the model, or of a command that could not be run, or an
  \<open>AudioProcessingError\<close> of at most 430 characters, however much ffmpeg has printed, or one of the
  four exceptions that reading ffprobe's answer can raise.
\<close>

theorem only_audio_transcribed:
  assumes run: "run_pipeline sp show_float env tmp file = (res, cmds)"
  shows "(\<exists>wav. cmds \<noteq> [] \<and> prefix cmds [(probe_command file, 60), (normalize_command file wav, 600), (probe_command wav, 60)] \<and>
      (1 < length cmds \<longrightarrow> lists_audio sp file) \<and>
      (\<forall>tr reports. res = Ended (Inr tr) reports \<longrightarrow> length cmds = 3 \<and> lists_audio sp wav \<and>
         (\<exists>d. fst (probe sp wav) = Inr (Finite d) \<and> transcript_duration tr = py_round2 d \<and>
            transcribe (pipeline_env sp show_float env) wav d = Some (Inr tr, reports)))) \<and>
    (\<forall>src start len index. \<exists>cmd. snd (cut_wav sp show_float src start len index) = [(cmd, 600)]) \<and>
    (\<forall>e reports. res = Ended (Inl e) reports \<longrightarrow>
       tmp = Inl e \<or> load_model env = Inl e \<or> (\<exists>p. snd (whisper env p) = Inl e) \<or>
       (\<exists>cmd t. sp cmd t = Not_run e) \<or> (\<exists>m. e = Raised m \<and> length m \<le> 430) \<or>
       e \<in> {ValueError, TypeError, AttributeError, OverflowError})"
proof -
  have "tmp = Inl e \<or> load_model env = Inl e \<or> (\<exists>p. snd (whisper env p) = Inl e) \<or> known_error sp e"
    if "res = Ended (Inl e) reports" for e reports using pipeline_failure run that by blast
  moreover have "\<exists>cmd. snd (cut_wav sp show_float src start len index) = [(cmd, 600)]" for src start len index
    unfolding cut_wav_result(2) by blast
  ultimately show ?thesis using pipeline_commands [OF run] unfolding known_error_def by blast
qed

definition tiny_subprocess :: subprocess where
  \<comment> \<open>ffprobe lists a video and an audio stream in every file, and ffmpeg exits with 0\<close>
  "tiny_subprocess cmd t = Exited \<lparr>returncode = 0,
     proc_stdout = (if hd cmd = ''ffprobe'' then sample_probe_output else []), proc_stderr = []\<rparr>"

lemma tiny_probe: "fst (probe tiny_subprocess path) = Inr (Finite 2)"
proof -
  have out: "json_loads sample_probe_output = Some (JObj [(''streams'', JArr [JObj [(''codec_type'', JStr ''video'')],
      JObj [(''codec_type'', JStr ''audio'')]]), (''format'', JObj [(''duration'', JStr ''2.000000'')])])"
    by code_simp
  have "py_float_of_string ''2.000000'' = Some (to_py_float 2)"
    using float_of_decimal [of "''2''" "''000000''"] by (simp add: decimal_text_def is_digit_def decimal_value_def)
  moreover have "to_py_float 2 = Finite 2"
    using fl_of_int [of 2] by (simp add: to_py_float_def FLOAT_LIMIT_def)
  ultimately show ?thesis
    by (simp add: probe_result run_command_def tiny_subprocess_def probe_command_def read_probe_def out dict_get_def
        json_get_def iterate_def py_float_of_def)
qed

lemma tiny_transcribe:
  "\<exists>tr reports. transcribe (pipeline_env sp show_float tiny_env) wav 2 = Some (Inr tr, reports)"
  by (simp add: transcribe_def pipeline_env_def tiny_env_def enumerate_eq_zip chunk_path_def transcribe_wav_def)

theorem only_audio_transcribed_witness:
  "\<exists>tr reports. fst (run_pipeline tiny_subprocess (\<lambda>_. []) tiny_env (Inr ''/tmp/scribeflow-1'') ''/data/a.mp3'') =
      Ended (Inr tr) reports \<and> lists_audio tiny_subprocess ''/data/a.mp3'' \<and> transcript_duration tr = py_round2 2"
proof -
  let ?run = "run_pipeline tiny_subprocess (\<lambda>_. []) tiny_env (Inr ''/tmp/scribeflow-1'') ''/data/a.mp3''"
  obtain tr reports where tr: "transcribe (pipeline_env tiny_subprocess (\<lambda>_. []) tiny_env)
      (join_path ''/tmp/scribeflow-1'' ''normalized.wav'') 2 = Some (Inr tr, reports)"
    using tiny_transcribe by blast
  have norm: "fst (normalize tiny_subprocess ''/data/a.mp3'' ''/tmp/scribeflow-1'') = Inr (join_path ''/tmp/scribeflow-1'' ''normalized.wav'')"
    by (simp add: normalize_result run_command_def tiny_subprocess_def normalize_command_def Let_def)
  have run: "fst ?run = Ended (Inr tr) reports"
    unfolding run_pipeline_def probe_pair [OF tiny_probe] normalize_pair [OF norm] prod.case sum.case
      transcribe_file_def py_float.case tr option.case fst_conv ..
  have pair: "?run = (Ended (Inr tr) reports, snd ?run)" by (simp add: prod_eq_iff run)
  from only_audio_transcribed [OF pair] obtain wav where
    gate: "1 < length (snd ?run) \<longrightarrow> lists_audio tiny_subprocess ''/data/a.mp3''"
    and made: "\<forall>tr' reports'. Ended (Inr tr) reports = Ended (Inr tr') reports' \<longrightarrow> length (snd ?run) = 3 \<and>
      lists_audio tiny_subprocess wav \<and> (\<exists>d. fst (probe tiny_subprocess wav) = Inr (Finite d) \<and>
        transcript_duration tr' = py_round2 d \<and>
        transcribe (pipeline_env tiny_subprocess (\<lambda>_. []) tiny_env) wav d = Some (Inr tr', reports'))"
    by (elim exE conjE)
  from made have "length (snd ?run) = 3" "\<exists>d. fst (probe tiny_subprocess wav) = Inr (Finite d) \<and> transcript_duration tr = py_round2 d"
    by blast+
  with gate tiny_probe have "lists_audio tiny_subprocess ''/data/a.mp3''" "transcript_duration tr = py_round2 2" by auto
  with run show ?thesis by blast
qed

end
