(* ===== verification/Worker_Outcomes.thy ===== *)
theory Worker_Outcomes
  imports Worker
begin

text \<open>
  What the handling of one message comes to: its result on the three paths when every call returns
  (\<open>worker/main.py\<close>), and what an acknowledgement means whatever the calls do.
\<close>

subsection \<open>Acknowledgements\<close>

definition copied :: "incoming \<Rightarrow> broker_op list \<Rightarrow> bool" where
  \<comment> \<open>a message of the same body has been published\<close>
  "copied m ops \<longleftrightarrow> (\<exists>e k m' ttl. Publish e k m' ttl \<in> set ops \<and> in_body m' = in_body m)"

definition recorded :: "incoming \<Rightarrow> string \<Rightarrow> table \<Rightarrow> broker_op list \<Rightarrow> bool" where
  "recorded m i t ops \<longleftrightarrow> get_status i t = Some Completed \<or> copied m ops"

text \<open>What holds while the handler of \<open>m\<close> has done \<open>ops\<close> and is suspended.\<close>

fun handler_inv :: "incoming \<Rightarrow> string \<Rightarrow> handler \<Rightarrow> table \<Rightarrow> broker_op list \<Rightarrow> bool" where
  "handler_inv m i Idle t ops = (Ack \<in> set ops \<longrightarrow> recorded m i t ops)"
| "handler_inv m i (Nacking_dead m') t ops = (Ack \<notin> set ops)"
| "handler_inv m i (Reading_status m' i' p) t ops = (Ack \<notin> set ops \<and> m' = m \<and> i' = i)"
| "handler_inv m i (Requeueing m') t ops = (Ack \<in> set ops \<longrightarrow> recorded m i t ops)"
| "handler_inv m i (Acking_skip m') t ops = recorded m i t ops"
| "handler_inv m i (Marking m' i' p) t ops = (Ack \<notin> set ops \<and> m' = m \<and> i' = i \<and> get_status i t \<noteq> None)"
| "handler_inv m i (Running m' i' p) t ops = (Ack \<notin> set ops \<and> m' = m \<and> i' = i \<and> get_status i t \<noteq> None)"
| "handler_inv m i (Completing m' i' tr) t ops = (Ack \<notin> set ops \<and> m' = m \<and> i' = i \<and> get_status i t \<noteq> None)"
| "handler_inv m i (Acking_done m' i') t ops = (m' = m \<and> i' = i \<and> recorded m i t ops)"
| "handler_inv m i (Publishing_retry m' i' e n ttl) t ops =
     ((Ack \<in> set ops \<longrightarrow> recorded m i t ops) \<and> m' = m \<and> i' = i)"
| "handler_inv m i (Recording_retry m' i' e) t ops = (copied m ops \<and> m' = m \<and> i' = i)"
| "handler_inv m i (Publishing_dead m' i' e) t ops =
     ((Ack \<in> set ops \<longrightarrow> recorded m i t ops) \<and> m' = m \<and> i' = i)"
| "handler_inv m i (Recording_fail m' i' e) t ops = (copied m ops \<and> m' = m \<and> i' = i)"
| "handler_inv m i (Acking_failure m' i') t ops = (copied m ops \<and> m' = m \<and> i' = i)"

lemma recorded_mono: "recorded m i t ops \<Longrightarrow> recorded m i t (ops @ ops')"
  by (auto simp: recorded_def copied_def)

lemma copied_simps [simp]:
  "copied m (ops @ [Ack]) = copied m ops" "copied m (ops @ [Nack b]) = copied m ops"
  "copied m (ops @ [Publish e k m' ttl]) = (copied m ops \<or> in_body m' = in_body m)"
  by (auto simp: copied_def)

lemma copied_recorded: "copied m ops \<Longrightarrow> recorded m i t ops"
  by (simp add: recorded_def)

lemma failure_inv: "Ack \<in> set ops \<longrightarrow> recorded m i t ops \<Longrightarrow> handler_inv m i (start_failure m i e) t ops"
  using start_failure_cases [of m i e] by auto

lemma status_kept [simp]:
  "get_status i (mark_processing now i t) \<noteq> None \<longleftrightarrow> get_status i t \<noteq> None"
  "get_status i (complete now i tr t) = Some Completed \<longleftrightarrow> get_status i t \<noteq> None"
  by (auto simp: statement_status)

lemma worker_step_handler_inv:
  assumes "handler_inv m i h t ops" and "worker_step now a h t = (h', t', ops')"
  shows "handler_inv m i h' t' (ops @ ops')"
proof (cases h)
  case (Reading_status m' i' p)
  then show ?thesis using assms by (cases a) (auto simp: recorded_def split: option.splits if_splits)
next
  case (Acking_skip m')
  then show ?thesis using assms by (cases a) (auto simp: recorded_def)
next
  case (Marking m' i' p)
  then show ?thesis using assms by (cases a) (auto simp: statement_status intro!: failure_inv)
next
  case (Running m' i' p)
  then show ?thesis using assms by (cases a) (auto intro!: failure_inv)
next
  case (Completing m' i' tr)
  then show ?thesis using assms by (cases a) (auto simp: recorded_def intro!: failure_inv)
next
  case (Acking_done m' i')
  then have "recorded m i t ops" "recorded m i t (ops @ [Ack])" using assms(1) recorded_mono by auto
  then show ?thesis using Acking_done assms by (cases a) (auto intro!: failure_inv)
next
  case (Publishing_retry m' i' e n ttl)
  then show ?thesis using assms by (cases a) (auto simp: recorded_def retry_message_def)
next
  case (Recording_retry m' i' e)
  then show ?thesis using assms by (cases a) (auto simp: recorded_def)
next
  case (Publishing_dead m' i' e)
  then show ?thesis using assms by (cases a) (auto simp: recorded_def)
next
  case (Recording_fail m' i' e)
  then show ?thesis using assms by (cases a) (auto simp: recorded_def)
next
  case (Acking_failure m' i')
  then show ?thesis using assms by (cases a) (auto simp: recorded_def)
qed (use assms in \<open>cases a; auto simp: recorded_def\<close>)+

lemma run_handler_inv:
  assumes "handler_inv m i h t ops" and "run_handler now as h t = (h', t', ops')"
  shows "handler_inv m i h' t' (ops @ ops')"
  using assms
proof (induction as arbitrary: h t ops ops')
  case (Cons a as)
  obtain h1 t1 ops1 where s: "worker_step now a h t = (h1, t1, ops1)" by (metis prod_cases3)
  obtain ops2 where r: "run_handler now as h1 t1 = (h', t', ops2)" and ops: "ops' = ops1 @ ops2"
    using Cons.prems(2) s by (auto split: prod.splits)
  have "handler_inv m i h' t' ((ops @ ops1) @ ops2)"
    by (rule Cons.IH [OF worker_step_handler_inv [OF Cons.prems(1) s] r])
  then show ?case using ops by simp
qed simp

lemma handler_inv_ack: "handler_inv m i h t ops \<Longrightarrow> Ack \<in> set ops \<Longrightarrow> recorded m i t ops"
  by (cases h) (auto simp: recorded_def)

text \<open>
  C9. An acknowledgement is never premature. Whatever the calls of a handler do (return, raise, or
  raise after having had their effect, in any combination and for as long as it runs), when it
  has acked its message then the job is stored as completed, or a message with the same body has
  been published to the retry or the dead-letter exchange before: the message is not the last
  trace of an unfinished job.
\<close>

theorem ack_means_recorded:
  assumes "parse_message repr (in_body m) = Some (i, p)"
    and "run_handler now as (start_handler repr m) t = (h, t', ops)" and "Ack \<in> set ops"
  shows "get_status i t' = Some Completed \<or>
    (\<exists>e k m' ttl. Publish e k m' ttl \<in> set ops \<and> parse_message repr (in_body m') = Some (i, p))"
proof -
  have "handler_inv m i (start_handler repr m) t []" using assms(1) by (simp add: start_handler_def)
  then have "handler_inv m i h t' ([] @ ops)" using assms(2) by (rule run_handler_inv)
  then have "recorded m i t' ops" using handler_inv_ack assms(3) by simp
  then show ?thesis using assms(1) unfolding recorded_def copied_def by metis
qed

subsection \<open>The outcomes\<close>

definition sample_message :: incoming where
  "sample_message = \<lparr>in_body = utf8 (stringify_message \<lparr>m_jobId = ''550e8400-e29b-41d4-a716-446655440000'',
     m_filePath = ''/data/a.mp3'', m_attempt = int 0\<rparr>), in_headers = []\<rparr>"

definition sample_row :: job where
  "sample_row = insert_row \<lparr>n_id = ''550e8400-e29b-41d4-a716-446655440000'', n_status = Queued,
     n_originalName = ''a.mp3'', n_filePath = ''/data/a.mp3'', n_contentHash = None\<rparr> 1"

lemma sample_message_parse:
  "parse_message repr (in_body sample_message) = Some (''550e8400-e29b-41d4-a716-446655440000'', ''/data/a.mp3'')"
proof -
  have "py_uuid_ok ''550e8400-e29b-41d4-a716-446655440000''" by code_simp
  then show ?thesis unfolding sample_message_def incoming.select_convs parse_api_message by simp
qed

lemma sample_row_status: "get_status ''550e8400-e29b-41d4-a716-446655440000'' [sample_row] = Some Queued"
  by (simp add: get_status_def table_rows_def sample_row_def insert_row_def)

lemma start_parsed: "parse_message repr (in_body m) = Some (i, p) \<Longrightarrow> start_handler repr m = Reading_status m i p"
  by (simp add: start_handler_def)

lemma failure_started:
  assumes "retry_count_of (in_headers m) = Inr n" and "0 \<le> n"
  shows "start_failure m i err = (if n < 3 then Publishing_retry m i err n
    (if n = 0 then 10000 else if n = 1 then 30000 else 90000) else Publishing_dead m i err)"
proof (cases "n < 3")
  case True
  then have "n = 0 \<or> n = 1 \<or> n = 2" using assms(2) by auto
  then show ?thesis using assms(1) by (auto simp: start_failure_def decide_simps)
qed (use assms(1) in \<open>simp add: start_failure_def decide_simps\<close>)

text \<open>
  The outcome of a message as a specification, written over the whole handling and not step by step:
  from what each call answers, the answers that are used up, the table and what is sent to the
  broker. Every call may raise, before or after its effect.
\<close>

record call_answers =
  a_reject :: answer              \<comment> \<open>\<open>nack(requeue=False)\<close>\<close>
  a_read :: answer                \<comment> \<open>\<open>get_status\<close>\<close>
  a_requeue :: answer             \<comment> \<open>\<open>nack(requeue=True)\<close>\<close>
  a_mark :: answer                \<comment> \<open>\<open>mark_processing\<close>\<close>
  a_pipeline :: "string + transcript"
  a_complete :: answer            \<comment> \<open>\<open>complete\<close>\<close>
  a_ack :: answer                 \<comment> \<open>\<open>ack\<close> of a completed job\<close>
  a_publish :: answer             \<comment> \<open>the copy to the retry or the dead-letter exchange\<close>
  a_record :: answer              \<comment> \<open>\<open>record_retry\<close> or \<open>fail\<close>\<close>
  a_ack_copied :: answer          \<comment> \<open>\<open>ack\<close> after the copy was recorded\<close>

type_synonym handling = "answer list \<times> table \<times> broker_op list"

definition failure_outcome :: "date \<Rightarrow> incoming \<Rightarrow> int \<Rightarrow> string \<Rightarrow> call_answers \<Rightarrow> string \<Rightarrow> table \<Rightarrow> handling" where
  "failure_outcome now m n i c e t =
    (let copy = if n < 3 then Publish EXCHANGE ROUTING_KEY_RETRY (retry_message m n)
             (Some (if n = 0 then 10000 else if n = 1 then 30000 else 90000))
           else Publish DLX_EXCHANGE ROUTING_KEY_DEAD m None;
         noted = if n < 3 then record_retry now i e t else fail now i e t;
         requeued = effect_if (a_requeue c) [Nack True] []
     in if error_of (a_publish c) \<noteq> None
        then ([a_publish c, a_requeue c], t, effect_if (a_publish c) [copy] [] @ requeued)
        else if error_of (a_record c) \<noteq> None
        then ([a_publish c, a_record c, a_requeue c], effect_if (a_record c) noted t, copy # requeued)
        else if error_of (a_ack_copied c) \<noteq> None
        then ([a_publish c, a_record c, a_ack_copied c, a_requeue c], noted,
          copy # effect_if (a_ack_copied c) [Ack] [] @ requeued)
        else ([a_publish c, a_record c, a_ack_copied c], noted, [copy, Ack]))"

definition before :: "answer list \<Rightarrow> broker_op list \<Rightarrow> handling \<Rightarrow> handling" where
  "before as ops r = (case r of (as', t, ops') \<Rightarrow> (as @ as', t, ops @ ops'))"

definition handling_outcome :: "(json \<Rightarrow> string) \<Rightarrow> date \<Rightarrow> incoming \<Rightarrow> int \<Rightarrow> call_answers \<Rightarrow> table \<Rightarrow> handling" where
  "handling_outcome repr now m n c t = (case parse_message repr (in_body m) of
     None \<Rightarrow> ([a_reject c], t, effect_if (a_reject c) [Nack False] [])
   | Some (i, p) \<Rightarrow>
     if error_of (a_read c) \<noteq> None
     then ([a_read c, a_requeue c], t, effect_if (a_requeue c) [Nack True] [])
     else if get_status i t = None
     then ([a_read c, a_reject c], t, effect_if (a_reject c) [Nack False] [])
     else if get_status i t = Some Completed
     then ([a_read c, a_ack c], t, effect_if (a_ack c) [Ack] [])
     else (case error_of (a_mark c) of
       Some e \<Rightarrow> before [a_read c, a_mark c] []
         (failure_outcome now m n i c e (effect_if (a_mark c) (mark_processing now i t) t))
     | None \<Rightarrow> let t1 = mark_processing now i t in (case a_pipeline c of
         Inl e \<Rightarrow> before [a_read c, a_mark c, Raised_error e] [] (failure_outcome now m n i c e t1)
       | Inr tr \<Rightarrow> let used = [a_read c, a_mark c, Transcribed tr, a_complete c] in
           (case error_of (a_complete c) of
             Some e \<Rightarrow> before used []
               (failure_outcome now m n i c e (effect_if (a_complete c) (complete now i tr t1) t1))
           | None \<Rightarrow> (case error_of (a_ack c) of
               Some e \<Rightarrow> before (used @ [a_ack c]) (effect_if (a_ack c) [Ack] [])
                 (failure_outcome now m n i c e (complete now i tr t1))
             | None \<Rightarrow> (used @ [a_ack c], complete now i tr t1, [Ack]))))))"

lemma run_handler_append:
  "run_handler now (as @ bs) h t = (case run_handler now as h t of (h', t', ops) \<Rightarrow>
     (case run_handler now bs h' t' of (h'', t'', ops') \<Rightarrow> (h'', t'', ops @ ops')))"
  by (induction as arbitrary: h t) (auto split: prod.splits)

lemma error_answers: "error_of a = None \<Longrightarrow> had_effect a"
  "error_of a = None \<Longrightarrow> after_await a x f = x" "error_of a = Some e \<Longrightarrow> after_await a x f = f e"
  by (cases a; simp add: after_await_def)+

lemma no_error_effect: "error_of a = None \<Longrightarrow> effect_if a x y = x"
  by (simp add: effect_if_def error_answers)

text \<open>\<open>handle_failure\<close>, from its first call.\<close>

lemma failure_run:
  assumes "retry_count_of (in_headers m) = Inr n" and "0 \<le> n"
    and "failure_outcome now m n i c e t = (as, t', ops)"
  shows "run_handler now as (start_failure m i e) t = (Idle, t', ops)"
  using assms(3) unfolding failure_started [OF assms(1,2)]
  by (cases "error_of (a_publish c)"; cases "error_of (a_record c)"; cases "error_of (a_ack_copied c)")
    (auto simp: failure_outcome_def error_answers no_error_effect Let_def split: if_splits)

lemma failed_run:
  assumes "retry_count_of (in_headers m) = Inr n" and "0 \<le> n"
    and "run_handler now as h t = (start_failure m i e, t1, ops)"
  shows "case before as ops (failure_outcome now m n i c e t1) of (as', t', ops') \<Rightarrow>
    run_handler now as' h t = (Idle, t', ops')"
  using failure_run [OF assms(1,2), of now i c e t1] assms(3)
  by (auto simp: before_def run_handler_append split: prod.split)

text \<open>The end of the try block, once there is a transcript.\<close>

lemma completing_run:
  assumes "retry_count_of (in_headers m) = Inr n" and "0 \<le> n"
    and "run_handler now as h t = (Completing m i tr, t1, [])"
  shows "case (case error_of (a_complete c) of
      Some e \<Rightarrow> before (as @ [a_complete c]) []
        (failure_outcome now m n i c e (effect_if (a_complete c) (complete now i tr t1) t1))
    | None \<Rightarrow> (case error_of (a_ack c) of
        Some e \<Rightarrow> before ((as @ [a_complete c]) @ [a_ack c]) (effect_if (a_ack c) [Ack] [])
          (failure_outcome now m n i c e (complete now i tr t1))
      | None \<Rightarrow> ((as @ [a_complete c]) @ [a_ack c], complete now i tr t1, [Ack]))) of
    (as', t', ops) \<Rightarrow> run_handler now as' h t = (Idle, t', ops)"
proof (cases "error_of (a_complete c)")
  case (Some e)
  have "run_handler now (as @ [a_complete c]) h t =
      (start_failure m i e, effect_if (a_complete c) (complete now i tr t1) t1, [])"
    using assms(3) Some by (simp add: run_handler_append error_answers)
  from failed_run [OF assms(1,2) this, of c] show ?thesis using Some by simp
next
  case None
  then have done': "run_handler now (as @ [a_complete c]) h t = (Acking_done m i, complete now i tr t1, [])"
    using assms(3) by (simp add: run_handler_append error_answers no_error_effect)
  show ?thesis
  proof (cases "error_of (a_ack c)")
    case (Some e)
    have "run_handler now ((as @ [a_complete c]) @ [a_ack c]) h t =
        (start_failure m i e, complete now i tr t1, effect_if (a_ack c) [Ack] [])"
      unfolding run_handler_append [of now "as @ [a_complete c]"] done' using Some by (simp add: error_answers)
    from failed_run [OF assms(1,2) this, of c] show ?thesis using None Some by simp
  next
    case none: None
    then have "run_handler now ((as @ [a_complete c]) @ [a_ack c]) h t = (Idle, complete now i tr t1, [Ack])"
      unfolding run_handler_append [of now "as @ [a_complete c]"] done' by (simp add: error_answers no_error_effect)
    then show ?thesis using None none by simp
  qed
qed

text \<open>The try block, from \<open>mark_processing\<close> on.\<close>

lemma marking_run:
  assumes retry: "retry_count_of (in_headers m) = Inr n" "0 \<le> n"
    and start: "run_handler now [r] h t = (Marking m i p, t, [])"
  shows "case (case error_of (a_mark c) of
       Some e \<Rightarrow> before [r, a_mark c] []
         (failure_outcome now m n i c e (effect_if (a_mark c) (mark_processing now i t) t))
     | None \<Rightarrow> (case a_pipeline c of
         Inl e \<Rightarrow> before [r, a_mark c, Raised_error e] [] (failure_outcome now m n i c e (mark_processing now i t))
       | Inr tr \<Rightarrow> let used = [r, a_mark c, Transcribed tr, a_complete c]; t1 = mark_processing now i t in
           (case error_of (a_complete c) of
             Some e \<Rightarrow> before used []
               (failure_outcome now m n i c e (effect_if (a_complete c) (complete now i tr t1) t1))
           | None \<Rightarrow> (case error_of (a_ack c) of
               Some e \<Rightarrow> before (used @ [a_ack c]) (effect_if (a_ack c) [Ack] [])
                 (failure_outcome now m n i c e (complete now i tr t1))
             | None \<Rightarrow> (used @ [a_ack c], complete now i tr t1, [Ack]))))) of
    (as', t', ops) \<Rightarrow> run_handler now as' h t = (Idle, t', ops)"
proof (cases "error_of (a_mark c)")
  let ?t1 = "mark_processing now i t"
  case (Some e)
  have "run_handler now ([r] @ [a_mark c]) h t = (start_failure m i e, effect_if (a_mark c) ?t1 t, [])"
    unfolding run_handler_append using start Some by (simp add: error_answers)
  from failed_run [OF retry this, of c] show ?thesis using Some by simp
next
  let ?t1 = "mark_processing now i t"
  case None
  then have "run_handler now ([r] @ [a_mark c]) h t = (Running m i p, ?t1, [])"
    unfolding run_handler_append using start by (simp add: error_answers no_error_effect)
  then have run: "run_handler now [r, a_mark c, a] h t = worker_step now a (Running m i p) ?t1" for a
    using run_handler_append [of now "[r] @ [a_mark c]" "[a]" h t] by (simp split: prod.splits)
  show ?thesis
  proof (cases "a_pipeline c")
    case (Inl e)
    have "run_handler now [r, a_mark c, Raised_error e] h t = (start_failure m i e, ?t1, [])"
      unfolding run by simp
    from failed_run [OF retry this, of c] show ?thesis using None Inl by simp
  next
    case (Inr tr)
    have "run_handler now [r, a_mark c, Transcribed tr] h t = (Completing m i tr, ?t1, [])"
      unfolding run by simp
    from completing_run [OF retry this, of c, unfolded append.simps] show ?thesis
      unfolding Let_def append.simps None Inr option.case sum.case .
  qed
qed

text \<open>
  C13. What handling a message comes to, on every path and with every call free to raise, before or
  after its effect: the handler ends, and with the table and the broker operations of the
  specification above. In words: a message that cannot be read, or whose job has no row, is rejected
  without requeue; a failed status read requeues it; a completed job's message is acked and nothing
  else happens. Otherwise the row is marked, the pipeline run, the transcript stored and the message
  acked; if any of the four raises, a copy goes to the retry queue (count one higher, 10, 30 or 90
  seconds) or, from the third failure on, to the dead queue, then the failure is recorded in the row,
  then the message is acked; and if one of these three raises in turn, the message is requeued.
\<close>

theorem handler_outcomes:
  assumes "retry_count_of (in_headers m) = Inr n" and "0 \<le> n"
  shows "case handling_outcome repr now m n c t of (as, t', ops) \<Rightarrow>
    run_handler now as (start_handler repr m) t = (Idle, t', ops)"
proof (cases "parse_message repr (in_body m)")
  case None
  then show ?thesis by (simp add: handling_outcome_def start_handler_def)
next
  case (Some ip)
  then obtain i p where parsed: "parse_message repr (in_body m) = Some (i, p)" by (cases ip) simp
  show ?thesis
  proof (cases "error_of (a_read c) \<noteq> None \<or> get_status i t = None \<or> get_status i t = Some Completed")
    case True
    then show ?thesis
      by (auto simp: handling_outcome_def start_parsed [OF parsed] parsed error_answers)
  next
    case False
    then have read: "error_of (a_read c) = None" and st: "get_status i t \<noteq> None" "get_status i t \<noteq> Some Completed"
      by simp_all
    then have "run_handler now [a_read c] (start_handler repr m) t = (Marking m i p, t, [])"
      by (auto simp: start_parsed [OF parsed] error_answers)
    from marking_run [OF assms this, of c] show ?thesis
      unfolding handling_outcome_def parsed Let_def
      by (simp only: read st option.case prod.case if_False simp_thms)
  qed
qed

theorem handler_outcomes_witness:
  "\<forall>repr. run_handler 5 [Returned, Returned, Raised_error ''boom'', Returned, Raised_late ''gone'', Returned]
     (start_handler repr sample_message) [sample_row] =
   (Idle, record_retry 5 ''550e8400-e29b-41d4-a716-446655440000'' ''boom''
      (mark_processing 5 ''550e8400-e29b-41d4-a716-446655440000'' [sample_row]),
    [Publish EXCHANGE ROUTING_KEY_RETRY (retry_message sample_message 0) (Some 10000), Nack True])"
proof
  fix repr
  let ?c = "\<lparr>a_reject = Returned, a_read = Returned, a_requeue = Returned, a_mark = Returned,
    a_pipeline = Inl ''boom'', a_complete = Returned, a_ack = Returned, a_publish = Returned,
    a_record = Raised_late ''gone'', a_ack_copied = Returned\<rparr>"
  have "retry_count_of (in_headers sample_message) = Inr 0"
    by (simp add: sample_message_def retry_count_of_def py_int_def)
  from handler_outcomes [OF this order_refl, where t = "[sample_row]" and now = 5 and c = ?c and repr = repr]
  show "run_handler 5 [Returned, Returned, Raised_error ''boom'', Returned, Raised_late ''gone'', Returned]
     (start_handler repr sample_message) [sample_row] =
   (Idle, record_retry 5 ''550e8400-e29b-41d4-a716-446655440000'' ''boom''
      (mark_processing 5 ''550e8400-e29b-41d4-a716-446655440000'' [sample_row]),
    [Publish EXCHANGE ROUTING_KEY_RETRY (retry_message sample_message 0) (Some 10000), Nack True])"
    by (simp add: handling_outcome_def sample_message_parse sample_row_status failure_outcome_def before_def
        del: run_handler.simps)
qed

theorem ack_means_recorded_witness:
  "\<forall>tr. get_status ''550e8400-e29b-41d4-a716-446655440000'' (complete 5 ''550e8400-e29b-41d4-a716-446655440000'' tr
     (mark_processing 5 ''550e8400-e29b-41d4-a716-446655440000'' [sample_row])) = Some Completed"
proof
  fix tr
  have "run_handler 5 [Returned, Returned, Transcribed tr, Returned, Returned]
     (start_handler repr sample_message) [sample_row] =
    (Idle, complete 5 ''550e8400-e29b-41d4-a716-446655440000'' tr
       (mark_processing 5 ''550e8400-e29b-41d4-a716-446655440000'' [sample_row]), [Ack])" for repr
    by (simp add: start_parsed [OF sample_message_parse] sample_row_status)
  from ack_means_recorded [OF sample_message_parse this] show "get_status ''550e8400-e29b-41d4-a716-446655440000''
    (complete 5 ''550e8400-e29b-41d4-a716-446655440000'' tr
      (mark_processing 5 ''550e8400-e29b-41d4-a716-446655440000'' [sample_row])) = Some Completed" by simp
qed

end
