(* ===== verification/Delivery.thy ===== *)
theory Delivery
  imports Full_Stack Pipeline Worker_Outcomes
begin

text \<open>
  One delivery from the message to the page: \<open>handle_message\<close> with \<open>run_pipeline\<close> as its call, the
  progress writes of \<open>make_progress_reporter\<close> on the side, and what a page that watches the job
  shows at its next poll. What Python prints for an exception is a parameter; for one that is
  raised with a text it is that text.
\<close>

definition pipeline_answer :: "(py_exception \<Rightarrow> string) \<Rightarrow> (py_exception, transcript) result \<Rightarrow> answer" where
  "pipeline_answer str_exc r = (case r of Inl e \<Rightarrow> Raised_error (str_exc e) | Inr tr \<Rightarrow> Transcribed tr)"

definition write_progress :: "date \<Rightarrow> string \<Rightarrow> f64 list \<Rightarrow> table \<Rightarrow> table" where
  "write_progress now i xs t = fold (update_progress now i) xs t"

definition handle_delivery :: "(json \<Rightarrow> string) \<Rightarrow> (py_exception \<Rightarrow> string) \<Rightarrow> date \<Rightarrow>
    (string \<Rightarrow> pipeline_end \<times> (command \<times> int) list) \<Rightarrow> nat \<Rightarrow> incoming \<Rightarrow> table \<Rightarrow>
    (handler \<times> table \<times> broker_op list) option" where
  \<comment> \<open>the database and the broker answer every call; \<open>n\<close> progress writes are through when the
    pipeline ends, the others come last; \<open>None\<close>: the pipeline does not end, or is not followed\<close>
  "handle_delivery repr str_exc now pipeline n m t =
    (case run_handler now [Returned, Returned] (start_handler repr m) t of
       (Running m' i p, t1, ops) \<Rightarrow> (case fst (pipeline p) of
          Ended r reports \<Rightarrow> (let writes = report_writes 0 reports in
            case run_handler now [pipeline_answer str_exc r, Returned, Returned, Returned] (Running m' i p)
              (write_progress now i (take n writes) t1) of
            (h, t2, ops') \<Rightarrow> Some (h, write_progress now i (drop n writes) t2, ops @ ops'))
        | _ \<Rightarrow> None)
     | done_early \<Rightarrow> Some done_early)"

lemma write_progress_rows:
  "table_inv (write_progress now i xs t) = table_inv t"
  "k \<noteq> i \<Longrightarrow> table_rows (write_progress now i xs t) k = table_rows t k"
  "table_rows t i = Some j \<Longrightarrow> status j \<noteq> Processing \<Longrightarrow> table_rows (write_progress now i xs t) i = Some j"
  by (induction xs arbitrary: t) (simp_all add: write_progress_def statement_rows)

lemma write_progress_processing:
  assumes "table_rows t i = Some j" and "status j = Processing"
  shows "\<exists>j'. table_rows (write_progress now i xs t) i = Some j' \<and> status j' = Processing"
  using assms
proof (induction xs arbitrary: t j)
  case (Cons x xs)
  have "table_rows (update_progress now i x t) i = Some (j\<lparr>progress := x, updatedAt := now\<rparr>)"
    using Cons.prems by (simp add: statement_rows)
  then show ?case using Cons.IH Cons.prems(2) by (fastforce simp: write_progress_def)
qed (simp add: write_progress_def)

text \<open>The row when the handler ends, and what goes to the broker.\<close>

definition ended_row :: "(py_exception \<Rightarrow> string) \<Rightarrow> int \<Rightarrow> (py_exception, transcript) result \<Rightarrow> job \<Rightarrow> bool" where
  "ended_row str_exc n r j = (case r of
     Inr tr \<Rightarrow> status j = Completed \<and> job_transcript j = Some tr \<and> job_error j = None
   | Inl e \<Rightarrow> status j = (if n < 3 then Queued else Failed) \<and> job_error j = Some (str_exc e))"

definition ended_ops :: "incoming \<Rightarrow> int \<Rightarrow> (py_exception, transcript) result \<Rightarrow> broker_op list" where
  "ended_ops m n r = (case r of Inr _ \<Rightarrow> [Ack]
   | Inl _ \<Rightarrow> [if n < 3 then Publish EXCHANGE ROUTING_KEY_RETRY (retry_message m n)
         (Some (if n = 0 then 10000 else if n = 1 then 30000 else 90000))
       else Publish DLX_EXCHANGE ROUTING_KEY_DEAD m None, Ack])"

lemma running_to_end:
  assumes "retry_count_of (in_headers m) = Inr n" and "0 \<le> n" and row: "table_rows t i = Some j"
  obtains t' j' where "run_handler now [pipeline_answer str_exc r, Returned, Returned, Returned] (Running m i p) t =
      (Idle, t', ended_ops m n r)"
    and "table_rows t' i = Some j'" and "ended_row str_exc n r j'" and "table_inv t' = table_inv t"
    and "\<And>k. k \<noteq> i \<Longrightarrow> table_rows t' k = table_rows t k"
proof (cases r)
  case (Inr tr)
  have "\<exists>j'. table_rows (complete now i tr t) i = Some j' \<and> ended_row str_exc n r j'"
    by (simp add: Inr ended_row_def statement_rows row)
  then show thesis
    using that [of "complete now i tr t"] by (auto simp: Inr pipeline_answer_def ended_ops_def statement_rows)
next
  case (Inl e)
  let ?t' = "if n < 3 then record_retry now i (str_exc e) t else fail now i (str_exc e) t"
  have "\<exists>j'. table_rows ?t' i = Some j' \<and> ended_row str_exc n r j'"
    by (simp add: Inl ended_row_def statement_rows row)
  then show thesis
    using that [of ?t'] by (auto simp: Inl pipeline_answer_def ended_ops_def statement_rows failure_started [OF assms(1,2)])
qed

lemma delivery_ends:
  assumes parse: "parse_message repr (in_body m) = Some (i, p)"
    and count: "retry_count_of (in_headers m) = Inr n" "0 \<le> n"
    and row: "table_rows t i = Some j" "status j \<noteq> Completed" and ok: "table_inv t"
    and ended: "pipeline p = (Ended r reports, cmds)"
  obtains t' j' where "handle_delivery repr str_exc now pipeline w m t = Some (Idle, t', ended_ops m n r)"
    and "table_rows t' i = Some j'" and "ended_row str_exc n r j'" and "table_inv t'"
    and "\<And>k. k \<noteq> i \<Longrightarrow> table_rows t' k = table_rows t k"
proof -
  let ?ws = "report_writes 0 reports"
  let ?t1 = "mark_processing now i t"
  let ?t2 = "write_progress now i (take w ?ws) ?t1"
  have first: "run_handler now [Returned, Returned] (start_handler repr m) t = (Running m i p, ?t1, [])"
    using row by (cases "status j") (simp_all add: start_parsed [OF parse] get_status_def)
  obtain j1 where "table_rows ?t1 i = Some j1" "status j1 = Processing" by (simp add: statement_rows row(1))
  from write_progress_processing [OF this] obtain j2 where j2: "table_rows ?t2 i = Some j2" by blast
  from running_to_end [OF count j2] obtain t3 j3 where
    t3: "run_handler now [pipeline_answer str_exc r, Returned, Returned, Returned] (Running m i p) ?t2 =
      (Idle, t3, ended_ops m n r)" "table_rows t3 i = Some j3" "ended_row str_exc n r j3" "table_inv t3 = table_inv ?t2"
    "\<And>k. k \<noteq> i \<Longrightarrow> table_rows t3 k = table_rows ?t2 k" by metis
  have "status j3 \<noteq> Processing" using t3(3) by (auto simp: ended_row_def split: sum.splits if_splits)
  then show thesis
    using t3 ok by (intro that [of "write_progress now i (drop w ?ws) t3" j3])
      (simp_all add: handle_delivery_def first ended Let_def write_progress_rows statement_rows del: run_handler.simps)
qed

text \<open>What a poll answered after that shows.\<close>

definition shows_outcome :: "page \<Rightarrow> (py_exception \<Rightarrow> string) \<Rightarrow> string \<Rightarrow> int \<Rightarrow> (py_exception, transcript) result \<Rightarrow> bool" where
  \<comment> \<open>the transcript; or the job as queued again, still polled, without the error; or the error\<close>
  "shows_outcome pg str_exc i n r = (case r of
     Inr tr \<Rightarrow> shows_transcript pg tr \<and> timer pg = None
   | Inl e \<Rightarrow> (\<exists>v. job_part (render pg) = Some v \<and> transcript_part v = None \<and>
       (if n < 3 then chip v = Some Queued \<and> failure_part v = None \<and> timer pg = Some (Some i)
        else chip v = Some Failed \<and> failure_part v = Some (str_exc e) \<and> timer pg = None)))"

lemma outcome_shown:
  assumes "ended_row str_exc n r j" and "current_job pg = Some (from_detail (to_job_detail j))"
    and "timer pg = (if status j \<in> {Queued, Processing} then Some (Some i) else None)"
  shows "shows_outcome pg str_exc i n r"
proof (cases r)
  case (Inr tr)
  then have "status j = Completed" "job_transcript j = Some tr" using assms(1) by (simp_all add: ended_row_def)
  from completed_view [OF this] show ?thesis
    using assms(2,3) Inr \<open>status j = Completed\<close> by (auto simp: shows_outcome_def shows_transcript_def render_def)
next
  case (Inl e)
  then show ?thesis using assms by (simp add: shows_outcome_def ended_row_def render_def view_job_def from_detail_simps)
qed

text \<open>
  C8. One delivery, from the message to the page. Take a message of a job that is not completed,
  with \<open>n\<close> failures recorded, and calls to database and broker that are answered. However the
  pipeline ends, and however many of its progress writes come late, the handler ends with exactly
  the publishes and the acknowledgement of that outcome, and no other row changes; and the next
  poll of any page that watches the job shows it: the transcript, or, while there are retries
  left, the job as queued again without its error, still polled, or at the end the text of the
  exception. That exception comes from the temporary directory or the model, or is a known one of the
  audio commands (an \<open>AudioProcessingError\<close> of at most 430 characters, say).
\<close>

theorem delivery_shown_on_page:
  assumes "parse_message repr (in_body m) = Some (i, p)"
    and "retry_count_of (in_headers m) = Inr n" and "0 \<le> n"
    and "table_rows t i = Some j" and "status j \<noteq> Completed" and "table_inv t"
    and run: "run_pipeline sp show_float env tmp p = (Ended r reports, cmds)"
  shows "\<exists>t' j'. handle_delivery repr str_exc now (run_pipeline sp show_float env tmp) w m t = Some (Idle, t', ended_ops m n r) \<and>
    table_rows t' i = Some j' \<and> (\<forall>k. k \<noteq> i \<longrightarrow> table_rows t' k = table_rows t k) \<and>
    (\<forall>e. r = Inl e \<longrightarrow> tmp = Inl e \<or> load_model env = Inl e \<or> (\<exists>q. snd (whisper env q) = Inl e) \<or> known_error sp e) \<and>
    (\<forall>(srv :: table api_server) api st key env_url read_json pg q. reaches_table key srv api i \<and> db st = t' \<and>
       answers_in_json srv read_json (to_job_detail j') \<and> watching pg q i \<longrightarrow>
       (\<exists>rsp pg'. proxied_poll env_url key srv api st i = Inr rsp \<and>
          page_step (Poll_answer q (Inr (reply_of read_json rsp))) pg = Some pg' \<and> shows_outcome pg' str_exc i n r))"
proof -
  from delivery_ends [OF assms(1-6), of "run_pipeline sp show_float env tmp", OF run] obtain t' j' where
    t': "handle_delivery repr str_exc now (run_pipeline sp show_float env tmp) w m t = Some (Idle, t', ended_ops m n r)"
      "table_rows t' i = Some j'" "ended_row str_exc n r j'" "table_inv t'" "\<And>k. k \<noteq> i \<Longrightarrow> table_rows t' k = table_rows t k"
    by metis
  have id: "py_uuid_ok i"
    using assms(1) by (auto simp: parse_message_def Let_def bind_eq_Some_conv split: if_splits)
  have page: "\<exists>rsp pg'. proxied_poll env_url key srv api st i = Inr rsp \<and>
      page_step (Poll_answer q (Inr (reply_of read_json rsp))) pg = Some pg' \<and> shows_outcome pg' str_exc i n r"
    if "reaches_table key srv api i \<and> db st = t' \<and> answers_in_json srv read_json (to_job_detail j') \<and> watching pg q i"
    for srv :: "table api_server" and api st key env_url read_json pg q
    using page_reads_row [OF t'(4,2) id, of key srv api st read_json pg q env_url] that outcome_shown [OF t'(3)] by blast
  have err: "tmp = Inl e \<or> load_model env = Inl e \<or> (\<exists>q. snd (whisper env q) = Inl e) \<or> known_error sp e" if "r = Inl e" for e
    using pipeline_failure [OF run [unfolded that]] .
  from t' page err show ?thesis by blast
qed

text \<open>An ffprobe that rejects every file, on the message of a job that has failed three times.\<close>

definition rejecting_subprocess :: subprocess where
  "rejecting_subprocess cmd t = Exited \<lparr>returncode = 1, proc_stdout = [], proc_stderr = '' bad ''\<rparr>"

definition raised_text :: "py_exception \<Rightarrow> string" where
  "raised_text e = (case e of Raised s \<Rightarrow> s | _ \<Rightarrow> ''error'')"

lemma rejected_run: "run_pipeline rejecting_subprocess show_float env tmp p =
    (Ended (Inl (Raised ''ffprobe rejected the file: bad'')) [], [(probe_command p, 60)])"
proof -
  have "tail '' bad '' = ''bad''" by code_simp
  then show ?thesis
    by (simp add: run_pipeline_def Let_def probe_def and_then_pure run_command_def rejecting_subprocess_def PROBE_TIMEOUT_SEC_def)
qed

theorem delivery_shown_on_page_witness:
  "\<forall>repr. \<exists>t' j' r pg'. handle_delivery repr raised_text 5
      (run_pipeline rejecting_subprocess (\<lambda>_. []) tiny_env (Inr ''/tmp/scribeflow-1'')) 0 (retry_message job_msg 2) [queued_row] =
      Some (Idle, t', [Publish DLX_EXCHANGE ROUTING_KEY_DEAD (retry_message job_msg 2) None, Ack]) \<and>
    table_rows t' sample_uuid = Some j' \<and>
    proxied_poll None ''k'' ok_server sample_api (sample_state t') sample_uuid = Inr r \<and>
    page_step (Poll_answer 0 (Inr (reply_of (\<lambda>_. Inr (from_detail (to_job_detail j'))) r)))
      (watching_page sample_uuid) = Some pg' \<and>
    (\<exists>v. job_part (render pg') = Some v \<and> failure_part v = Some ''ffprobe rejected the file: bad'')"
proof
  fix repr
  let ?m = "retry_message job_msg 2" and ?e = "Raised ''ffprobe rejected the file: bad''"
  have m: "parse_message repr (in_body ?m) = Some (sample_uuid, ''/data/a.mp3'')"
    "retry_count_of (in_headers ?m) = Inr 3" "(0::int) \<le> 3"
    by (simp_all add: retry_message_def job_msg_parse retry_count_of_def py_int_def update_conv)
  have row: "status queued_row \<noteq> Completed" "table_inv [queued_row]"
    by (simp_all add: queued_row_def insert_row_def table_inv_def)
  from delivery_shown_on_page [OF m queued_row_rows row rejected_run, of raised_text 5 "\<lambda>_. []" tiny_env "Inr ''/tmp/scribeflow-1''" 0]
  obtain t' j' where t': "handle_delivery repr raised_text 5
      (run_pipeline rejecting_subprocess (\<lambda>_. []) tiny_env (Inr ''/tmp/scribeflow-1'')) 0 ?m [queued_row] =
      Some (Idle, t', ended_ops ?m 3 (Inl ?e))" "table_rows t' sample_uuid = Some j'"
    and page: "\<And>(srv :: table api_server) api st key env_url read_json pg q.
      reaches_table key srv api sample_uuid \<and> db st = t' \<and> answers_in_json srv read_json (to_job_detail j') \<and>
      watching pg q sample_uuid \<Longrightarrow>
      \<exists>rsp pg'. proxied_poll env_url key srv api st sample_uuid = Inr rsp \<and>
        page_step (Poll_answer q (Inr (reply_of read_json rsp))) pg = Some pg' \<and>
        shows_outcome pg' raised_text sample_uuid 3 (Inl ?e)"
    by (elim exE conjE) (rule that, assumption+, blast)
  have "reaches_table ''k'' (ok_server :: table api_server) sample_api sample_uuid" "db (sample_state t') = t'"
    using ok_server_laws(1) by (auto simp: reaches_table_def sample_api_def sample_env_def sample_state_def)
  with page [of "''k''" ok_server sample_api "sample_state t'" "\<lambda>_. Inr (from_detail (to_job_detail j'))"
      "watching_page sample_uuid" 0 None] ok_server_laws(2) watching_page_ok
  obtain r pg' where "proxied_poll None ''k'' ok_server sample_api (sample_state t') sample_uuid = Inr r"
    "page_step (Poll_answer 0 (Inr (reply_of (\<lambda>_. Inr (from_detail (to_job_detail j'))) r))) (watching_page sample_uuid) = Some pg'"
    "shows_outcome pg' raised_text sample_uuid 3 (Inl ?e)"
    by blast
  moreover from this(3) have "\<exists>v. job_part (render pg') = Some v \<and> failure_part v = Some ''ffprobe rejected the file: bad''"
    by (auto simp: shows_outcome_def raised_text_def)
  moreover have "ended_ops ?m 3 (Inl ?e) = [Publish DLX_EXCHANGE ROUTING_KEY_DEAD ?m None, Ack]" by (simp add: ended_ops_def)
  ultimately show "\<exists>t' j' r pg'. handle_delivery repr raised_text 5
      (run_pipeline rejecting_subprocess (\<lambda>_. []) tiny_env (Inr ''/tmp/scribeflow-1'')) 0 ?m [queued_row] =
      Some (Idle, t', [Publish DLX_EXCHANGE ROUTING_KEY_DEAD ?m None, Ack]) \<and>
    table_rows t' sample_uuid = Some j' \<and>
    proxied_poll None ''k'' ok_server sample_api (sample_state t') sample_uuid = Inr r \<and>
    page_step (Poll_answer 0 (Inr (reply_of (\<lambda>_. Inr (from_detail (to_job_detail j'))) r)))
      (watching_page sample_uuid) = Some pg' \<and>
    (\<exists>v. job_part (render pg') = Some v \<and> failure_part v = Some ''ffprobe rejected the file: bad'')"
    using t' by metis
qed

end
