(* ===== verification/System_Bounds.thy ===== *)
theory System_Bounds
  imports System_Properties
begin

text \<open>
  Bounds on the whole system, without any assumption on the timing: what the retry header of a
  message can be, by induction over the steps.
\<close>

definition counted :: "incoming \<Rightarrow> bool" where
  "counted m \<longleftrightarrow> (\<exists>n. 0 \<le> n \<and> n \<le> 3 \<and> retry_count_of (in_headers m) = Inr n)"

definition handler_counted :: "handler \<Rightarrow> bool" where
  "handler_counted h \<longleftrightarrow> (case h of
     Publishing_retry m i e n ttl \<Rightarrow> counted m \<and> 0 \<le> n \<and> n < 3 \<and> ttl \<in> {10000, 30000, 90000}
   | _ \<Rightarrow> \<forall>m. msg_of h = Some m \<longrightarrow> counted m)"

lemma handler_counted_simps [simp]:
  "handler_counted Idle"
  "handler_counted (Nacking_dead m) = counted m" "handler_counted (Reading_status m i p) = counted m"
  "handler_counted (Requeueing m) = counted m" "handler_counted (Acking_skip m) = counted m"
  "handler_counted (Marking m i p) = counted m" "handler_counted (Running m i p) = counted m"
  "handler_counted (Completing m i tr) = counted m" "handler_counted (Acking_done m i) = counted m"
  "handler_counted (Publishing_retry m i e n ttl) = (counted m \<and> 0 \<le> n \<and> n < 3 \<and> ttl \<in> {10000, 30000, 90000})"
  "handler_counted (Recording_retry m i e) = counted m" "handler_counted (Publishing_dead m i e) = counted m"
  "handler_counted (Recording_fail m i e) = counted m" "handler_counted (Acking_failure m i) = counted m"
  by (simp_all add: handler_counted_def)

lemma handler_counted_msg: "handler_counted h \<Longrightarrow> msg_of h = Some m \<Longrightarrow> counted m"
  by (cases h) auto

definition queues_counted :: "sys \<Rightarrow> bool" where
  "queues_counted s \<longleftrightarrow> (\<forall>m \<in> set (ready s) \<union> set (retryq s) \<union> set (deadq s). counted m)"

definition workers_counted :: "sys \<Rightarrow> bool" where
  "workers_counted s \<longleftrightarrow> (\<forall>w. handler_counted (handler_of s w) \<and> (\<forall>m. unsettled s w = Some m \<longrightarrow> counted m))"

lemma counted_fresh [simp]: "counted (from_api out)"
  by (simp add: counted_def from_api_def retry_count_of_def py_int_def)

lemma counted_retry: "0 \<le> n \<Longrightarrow> n < 3 \<Longrightarrow> counted (retry_message m n)"
  by (simp add: counted_def retry_message_def retry_count_of_def py_int_def update_conv' RETRY_COUNT_HEADER_def)

lemma failure_counted:
  assumes "counted m"
  shows "handler_counted (start_failure m i e)" and "start_failure m i e \<noteq> Idle"
proof -
  from assms obtain n where n: "0 \<le> n" "n \<le> 3" "retry_count_of (in_headers m) = Inr n"
    by (auto simp: counted_def)
  then consider "n = 0" | "n = 1" | "n = 2" | "n = 3" by linarith
  then have "handler_counted (start_failure m i e) \<and> start_failure m i e \<noteq> Idle"
    by cases (use assms n(3) in \<open>simp_all add: start_failure_def decide_simps\<close>)
  then show "handler_counted (start_failure m i e)" and "start_failure m i e \<noteq> Idle" by simp_all
qed

definition op_counted :: "broker_op \<Rightarrow> bool" where
  "op_counted op \<longleftrightarrow> (case op of
     Publish e k m ttl \<Rightarrow> counted m \<and>
       ((e, k) = (EXCHANGE, ROUTING_KEY_RETRY) \<or> (e, k) = (DLX_EXCHANGE, ROUTING_KEY_DEAD))
   | _ \<Rightarrow> True)"

lemma op_counted_simps [simp]:
  "op_counted Ack" "op_counted (Nack b)"
  "op_counted (Publish EXCHANGE ROUTING_KEY_RETRY m ttl) = counted m"
  "op_counted (Publish DLX_EXCHANGE ROUTING_KEY_DEAD m ttl) = counted m"
  by (simp_all add: op_counted_def)

lemma worker_step_counted:
  assumes "handler_counted h" and "worker_step now a h t = (h', t', ops)"
  shows "handler_counted h' \<and> list_all op_counted ops"
proof (cases h)
  case (Reading_status m i p)
  then show ?thesis using assms by (cases a) (auto split: option.splits if_splits)
qed (use assms in \<open>cases a; auto simp: failure_counted counted_retry\<close>)+

lemma set_worker_counted:
  assumes "workers_counted s" and "handler_counted h" and "\<And>m. u = Some m \<Longrightarrow> counted m"
  shows "workers_counted (set_worker w h u s)"
  using assms by (auto simp: workers_counted_def)

lemma queues_set_worker [simp]: "queues_counted (set_worker w h u s) = queues_counted s"
  by (simp add: queues_counted_def)

lemma counted_updates [simp]:
  "workers_counted (s\<lparr>ready := x\<rparr>) = workers_counted s" "workers_counted (s\<lparr>retryq := x\<rparr>) = workers_counted s"
  "workers_counted (s\<lparr>deadq := x\<rparr>) = workers_counted s" "workers_counted (s\<lparr>jobs := t\<rparr>) = workers_counted s"
  "workers_counted (s\<lparr>uploads := us\<rparr>) = workers_counted s" "workers_counted (s\<lparr>drawn := ds\<rparr>) = workers_counted s"
  "workers_counted (s\<lparr>given_up := ds\<rparr>) = workers_counted s"
  "queues_counted (s\<lparr>jobs := t\<rparr>) = queues_counted s" "queues_counted (s\<lparr>uploads := us\<rparr>) = queues_counted s"
  "queues_counted (s\<lparr>drawn := ds\<rparr>) = queues_counted s" "queues_counted (s\<lparr>given_up := ds\<rparr>) = queues_counted s"
  by (simp_all add: workers_counted_def queues_counted_def)

lemma queues_added [simp]:
  "queues_counted (s\<lparr>ready := m # ready s\<rparr>) = (queues_counted s \<and> counted m)"
  "queues_counted (s\<lparr>ready := ready s @ [m]\<rparr>) = (queues_counted s \<and> counted m)"
  "queues_counted (s\<lparr>retryq := retryq s @ [m]\<rparr>) = (queues_counted s \<and> counted m)"
  "queues_counted (s\<lparr>deadq := deadq s @ [m]\<rparr>) = (queues_counted s \<and> counted m)"
  by (simp_all add: queues_counted_def ball_Un conj_ac)

lemma added_after [simp]: "ready s = ready s' \<Longrightarrow> queues_counted (s'\<lparr>ready := m # ready s\<rparr>) = (queues_counted s' \<and> counted m)"
  "deadq s = deadq s' \<Longrightarrow> queues_counted (s'\<lparr>deadq := deadq s @ [m]\<rparr>) = (queues_counted s' \<and> counted m)"
  by simp_all

lemma requeue_counted:
  assumes "workers_counted s" and "queues_counted s" and "handler_counted h"
  shows "workers_counted (requeue w h s) \<and> queues_counted (requeue w h s)"
proof -
  have "workers_counted (set_worker w h None s)" using assms by (intro set_worker_counted) simp_all
  moreover have "\<And>m. unsettled s w = Some m \<Longrightarrow> counted m" using assms(1) by (simp add: workers_counted_def)
  ultimately show ?thesis using assms(2) by (cases "unsettled s w") (simp_all add: requeue_def)
qed

lemma broker_step_counted:
  assumes "workers_counted s" and "queues_counted s"
    and "op_counted op"
  shows "workers_counted (broker_step w op s) \<and> queues_counted (broker_step w op s)"
proof (cases op)
  case Ack
  have "workers_counted (set_worker w (handler_of s w) None s)"
    using assms(1) by (intro set_worker_counted) (simp_all add: workers_counted_def)
  then show ?thesis using Ack assms(2) by simp
next
  case (Nack again)
  have h: "handler_counted (handler_of s w)" and u: "\<And>m. unsettled s w = Some m \<Longrightarrow> counted m"
    using assms(1) by (auto simp: workers_counted_def)
  show ?thesis
  proof (cases "again \<or> unsettled s w = None")
    case True
    then show ?thesis using Nack requeue_counted [OF assms(1,2) h] assms(1,2) by auto
  next
    case False
    then obtain m where m: "unsettled s w = Some m" by auto
    have "workers_counted (set_worker w (handler_of s w) None s)"
      using assms(1) h by (intro set_worker_counted) simp_all
    then show ?thesis using Nack False m u [OF m] assms(2) by simp
  qed
next
  case (Publish e k m ttl)
  then have "counted m" "(e, k) = (EXCHANGE, ROUTING_KEY_RETRY) \<or> (e, k) = (DLX_EXCHANGE, ROUTING_KEY_DEAD)"
    using assms(3) by (simp_all add: op_counted_def)
  then show ?thesis using Publish assms(1,2) by auto
qed

lemma broker_steps_counted:
  assumes "workers_counted s" and "queues_counted s"
    and "list_all op_counted ops"
  shows "workers_counted (fold (broker_step w) ops s) \<and> queues_counted (fold (broker_step w) ops s)"
  using assms
proof (induction ops arbitrary: s)
  case (Cons op ops)
  have "workers_counted (broker_step w op s) \<and> queues_counted (broker_step w op s)"
    using Cons.prems(3) by (intro broker_step_counted Cons.prems(1,2)) simp
  then show ?case using Cons.IH Cons.prems(3) by simp
qed simp

lemma start_counted: "counted m \<Longrightarrow> handler_counted (start_handler repr m)"
  by (simp add: start_handler_def split: option.split)

lemma drop_counted: "\<forall>m \<in> set xs. counted m \<Longrightarrow> \<forall>m \<in> set (drop_nth n xs). counted m"
  using in_drop_nth by fastforce

lemma fold_publish_counted:
  assumes "workers_counted s" and "queues_counted s"
    and "list_all (\<lambda>out. out_exchange out = EXCHANGE \<and> out_routing_key out = ROUTING_KEY_JOB) outs"
  shows "workers_counted (fold (\<lambda>out. publish_to (out_exchange out) (out_routing_key out) (from_api out)) outs s) \<and>
    queues_counted (fold (\<lambda>out. publish_to (out_exchange out) (out_routing_key out) (from_api out)) outs s)"
  using assms
proof (induction outs arbitrary: s)
  case (Cons out outs)
  have names: "out_exchange out = EXCHANGE" "out_routing_key out = ROUTING_KEY_JOB"
    and rest: "list_all (\<lambda>out. out_exchange out = EXCHANGE \<and> out_routing_key out = ROUTING_KEY_JOB) outs"
    using Cons.prems(3) by simp_all
  have "workers_counted (s\<lparr>ready := ready s @ [from_api out]\<rparr>)" "queues_counted (s\<lparr>ready := ready s @ [from_api out]\<rparr>)"
    using Cons.prems(1,2) by simp_all
  from Cons.IH [OF this rest] show ?case unfolding fold_simps names publish_simps .
qed simp

lemma sys_step_counted:
  assumes "workers_counted s" and "queues_counted s" and "sys_step repr e s = Some s'"
  shows "workers_counted s' \<and> queues_counted s'"
proof (cases e)
  case (Upload i p name h now)
  then show ?thesis using assms by (auto split: if_splits prod.splits sum.splits)
next
  case (Upload_publish n ch oc)
  then obtain i p where u: "n < length (uploads s)" "uploads s ! n = Publishing i p"
    using assms(3) by (auto split: if_splits upload_task.splits)
  obtain r outs where pub: "publish_job (\<lambda>_. oc) \<lparr>connection = ch, channel = ch, shuttingDown = False\<rparr>
      \<lparr>m_jobId = i, m_filePath = p, m_attempt = 0\<rparr> [] = (r, outs)" by fastforce
  then have "list_all (\<lambda>out. out_exchange out = EXCHANGE \<and> out_routing_key out = ROUTING_KEY_JOB) outs"
    by (auto simp: publish_job_eq job_out_def split: option.splits publish_outcome.splits)
  from fold_publish_counted [OF _ _ this] show ?thesis
    using assms u pub Upload_publish by auto
next
  case (Upload_undo n a)
  then show ?thesis using assms by (auto split: if_splits upload_task.splits)
next
  case (Upload_dies n)
  then show ?thesis using assms by (auto split: if_splits)
next
  case (Deliver w n)
  then have s': "s' = (set_worker w (start_handler repr (ready s ! n)) (Some (ready s ! n)) s)\<lparr>ready := drop_nth n (ready s)\<rparr>"
    and "n < length (ready s)" using assms(3) by (auto split: if_splits)
  then have m: "counted (ready s ! n)" using assms(2) by (simp add: queues_counted_def)
  have "workers_counted (set_worker w (start_handler repr (ready s ! n)) (Some (ready s ! n)) s)"
    using m by (intro set_worker_counted assms(1) start_counted) simp_all
  then show ?thesis using s' assms(2) drop_counted [of "ready s" n] by (simp add: queues_counted_def ball_Un)
next
  case (Await w now a)
  with assms(3) obtain h t ops where w: "worker_step now a (handler_of s w) (jobs s) = (h, t, ops)"
    and s': "s' = fold (broker_step w) ops (set_worker w h (unsettled s w) (s\<lparr>jobs := t\<rparr>))"
    using await_cases by metis
  have old: "handler_counted (handler_of s w)" "\<And>m. unsettled s w = Some m \<Longrightarrow> counted m"
    using assms(1) by (simp_all add: workers_counted_def)
  note ok = worker_step_counted [OF old(1) w]
  have "workers_counted (set_worker w h (unsettled s w) (s\<lparr>jobs := t\<rparr>))"
    using ok old assms(1) by (intro set_worker_counted) simp_all
  moreover have "queues_counted (set_worker w h (unsettled s w) (s\<lparr>jobs := t\<rparr>))" using assms(2) by simp
  ultimately show ?thesis unfolding s' using ok by (intro broker_steps_counted) simp_all
next
  case (Progress now i x)
  then show ?thesis using assms by auto
next
  case (Expire n)
  then have n: "n < length (retryq s)"
    and s': "s' = dead_letter RETRY_QUEUE (retryq s ! n) (s\<lparr>retryq := drop_nth n (retryq s)\<rparr>)"
    using assms(3) by (auto split: if_splits)
  then have "counted (retryq s ! n)" using assms(2) by (simp add: queues_counted_def)
  then show ?thesis using s' assms(1,2) drop_counted [of "retryq s" n]
    by (simp add: queues_counted_def ball_Un)
next
  case (Connection_lost w)
  have "handler_counted (handler_of s w)" using assms(1) by (simp add: workers_counted_def)
  with requeue_counted [OF assms(1,2) this, of w] Connection_lost assms(3) show ?thesis by auto
next
  case (Crash w)
  with requeue_counted [OF assms(1,2), of Idle w] assms(3) show ?thesis by auto
qed

lemma sys_reach_counted: "sys_reach repr s \<Longrightarrow> workers_counted s \<and> queues_counted s"
proof (induction rule: sys_reach.induct)
  case init
  show ?case by (simp add: sys_init_def workers_counted_def queues_counted_def)
qed (use sys_step_counted in blast)

lemma messages_counted: "sys_reach repr s \<Longrightarrow> m \<in> messages s \<Longrightarrow> counted m"
  using sys_reach_counted [of repr s] handler_counted_msg
  by (auto simp: messages_def workers_counted_def queues_counted_def)

text \<open>
  C14. The retry count stays in its bounds. In every state the system can reach, whatever fails and
  in whatever order, every message anywhere (in a queue, unsettled, or in a handler) carries a
  readable count between 0 and 3; so the decision after a failure never raises, no job is retried
  a fourth time, and a waiting retry copy was published with a delay of 10, 30 or 90 seconds.
\<close>

theorem retry_counts_bounded:
  assumes "sys_reach repr s"
  shows "(\<forall>m \<in> messages s. \<exists>n. retry_count_of (in_headers m) = Inr n \<and> 0 \<le> n \<and> n \<le> 3 \<and>
      start_failure m i err = (if n < 3
        then Publishing_retry m i err n (if n = 0 then 10000 else if n = 1 then 30000 else 90000)
        else Publishing_dead m i err)) \<and>
    (\<forall>w m i e n ttl. handler_of s w = Publishing_retry m i e n ttl \<longrightarrow> n < 3 \<and> ttl \<in> {10000, 30000, 90000})"
proof -
  have one: "start_failure m i err = (if n < 3
        then Publishing_retry m i err n (if n = 0 then 10000 else if n = 1 then 30000 else 90000)
        else Publishing_dead m i err)"
    if c: "retry_count_of (in_headers m) = Inr n" and r: "0 \<le> n" "n \<le> 3" for m n
  proof -
    consider "n = 0" | "n = 1" | "n = 2" | "n = 3" using r by linarith
    then show ?thesis by cases (use c in \<open>simp_all add: start_failure_def decide_simps\<close>)
  qed
  have "\<exists>n. retry_count_of (in_headers m) = Inr n \<and> 0 \<le> n \<and> n \<le> 3 \<and> start_failure m i err = (if n < 3
        then Publishing_retry m i err n (if n = 0 then 10000 else if n = 1 then 30000 else 90000)
        else Publishing_dead m i err)" if m: "m \<in> messages s" for m
  proof -
    obtain n where n: "0 \<le> n" "n \<le> 3" "retry_count_of (in_headers m) = Inr n"
      using messages_counted [OF assms m] by (auto simp: counted_def)
    show ?thesis using n one [OF n(3,1,2)] by blast
  qed
  moreover have "n < 3 \<and> ttl \<in> {10000, 30000, 90000}" if "handler_of s w = Publishing_retry m i e n ttl" for w m i e n ttl
  proof -
    have "handler_counted (handler_of s w)" using sys_reach_counted [OF assms] by (simp add: workers_counted_def)
    then show ?thesis unfolding that by simp
  qed
  ultimately show ?thesis by blast
qed

lemma sys_reach_run: "sys_run repr es s = Some s' \<Longrightarrow> sys_reach repr s \<Longrightarrow> sys_reach repr s'"
  by (induction es arbitrary: s) (auto simp: bind_eq_Some_conv intro: sys_reach.step)

theorem retry_counts_bounded_witness:
  "job_msg \<in> messages taken_state \<and> start_failure job_msg sample_uuid ''boom'' = Publishing_retry job_msg sample_uuid ''boom'' 0 10000"
proof -
  have m: "job_msg \<in> messages taken_state" by (auto simp: messages_def taken_state_def)
  have "retry_count_of (in_headers job_msg) = Inr 0"
    by (simp add: job_msg_def from_api_def retry_count_of_def py_int_def)
  moreover have "sys_reach repr taken_state" for repr by (rule sys_reach_run [OF take_run sys_reach.init])
  ultimately show ?thesis using retry_counts_bounded [of _ taken_state sample_uuid "''boom''"] m by fastforce
qed

end
