(* ===== verification/System_Refinement.thy ===== *)
theory System_Refinement
  imports System_Bounds
begin

text \<open>
  The upload events of \<open>System\<close> against \<open>TranscriptionsService.create\<close>: every run of the method is
  a short run of events with the same effect on the table and the queue, so that what is proved
  of the whole system holds of the uploads the code makes.
\<close>

definition table_or_throw :: "date \<Rightarrow> table repository \<Rightarrow> bool" where
  \<comment> \<open>the repository of a table whose writes may also throw, without or after their effect\<close>
  "table_or_throw now r \<longleftrightarrow>
     (\<forall>n t. repo_save r n t = repo_save (table_repository now) n t \<or>
       (\<exists>e. repo_save r n t = (Inl e, t) \<or> repo_save r n t = (Inl e, snd (repo_save (table_repository now) n t)))) \<and>
     (\<forall>i t. repo_delete r i t = repo_delete (table_repository now) i t \<or>
       (\<exists>e. repo_delete r i t = (Inl e, t) \<or> repo_delete r i t = (Inl e, snd (repo_delete (table_repository now) i t))))"

fun upload_event :: "event \<Rightarrow> bool" where
  "upload_event (Upload i p name h now) = True"
| "upload_event (Upload_publish n ch oc) = True"
| "upload_event (Upload_undo n a) = True"
| "upload_event (Upload_dies n) = True"
| "upload_event _ = False"

definition same_upload :: "table api_state \<Rightarrow> sys \<Rightarrow> table api_state \<Rightarrow> sys \<Rightarrow> bool" where
  \<comment> \<open>from the first pair to the second, the table and the work queue change alike, and nothing
     else in the system but the record of the ids\<close>
  "same_upload a s a' s' \<longleftrightarrow> jobs s' = db a' \<and>
     (\<exists>outs. taken a' = taken a @ outs \<and> ready s' = ready s @ map from_api outs) \<and>
     retryq s' = retryq s \<and> deadq s' = deadq s \<and> workers s' = workers s \<and> uploads s' = uploads s"

lemma drop_first [simp]: "drop_nth 0 (x # xs) = xs"
  by (simp add: drop_nth_def)

lemma idle_upload: "db a' = db a \<Longrightarrow> taken a' = taken a \<Longrightarrow> jobs s = db a \<Longrightarrow> same_upload a s a' s"
  by (simp add: same_upload_def)

definition uploading_state :: "string \<Rightarrow> path \<Rightarrow> table \<Rightarrow> sys \<Rightarrow> sys" where
  "uploading_state i p t s = s\<lparr>jobs := t, uploads := Publishing i p # uploads s, drawn := i # drawn s\<rparr>"

lemma upload_inserts:
  assumes "repo_save (table_repository now) n (jobs s) = (Inr j, t)" and "n_status n = Queued"
    and "py_uuid_ok (n_id n)" and "n_id n \<notin> set (drawn s)"
  shows "sys_step repr (Upload (n_id n) (n_filePath n) (n_originalName n) (n_contentHash n) now) s =
    Some (uploading_state (n_id n) (n_filePath n) t s)"
proof -
  have "n = \<lparr>n_id = n_id n, n_status = Queued, n_originalName = n_originalName n,
      n_filePath = n_filePath n, n_contentHash = n_contentHash n\<rparr>" using assms(2) by (cases n) simp
  then show ?thesis using assms(1,3,4) by (simp add: uploading_state_def)
qed

definition lost_outs :: "nat option \<Rightarrow> publish_outcome \<Rightarrow> string \<Rightarrow> path \<Rightarrow> outgoing list" where
  \<comment> \<open>what a publish that throws leaves in the broker\<close>
  "lost_outs ch oc i p = (case ch of None \<Rightarrow> [] | Some _ \<Rightarrow> (case oc of ConfirmLost _ \<Rightarrow> [job_out i p] | _ \<Rightarrow> []))"

lemma unconfirmed_lost: "unconfirmed env i p q =
    q @ lost_outs (channel (publisher_fields env)) (outcome env \<lparr>m_jobId = i, m_filePath = p, m_attempt = 0\<rparr>) i p"
  by (simp add: unconfirmed_def lost_outs_def split: option.split publish_outcome.split)

lemma upload_publishes:
  "sys_step repr (Upload_publish 0 (Some c) Confirmed) (uploading_state i p t s) =
    Some ((uploading_state i p t s)\<lparr>uploads := uploads s, ready := ready s @ [from_api (job_out i p)]\<rparr>)"
  by (simp add: uploading_state_def publish_job_eq job_out_def)

lemma upload_unpublished:
  assumes "ch = None \<or> oc \<noteq> Confirmed"
  shows "sys_step repr (Upload_publish 0 ch oc) (uploading_state i p t s) =
    Some ((uploading_state i p t s)\<lparr>uploads := Undoing i p # uploads s,
      ready := ready s @ map from_api (lost_outs ch oc i p)\<rparr>)"
  using assms by (cases ch; cases oc)
    (simp_all add: uploading_state_def publish_job_eq job_out_def lost_outs_def)

lemma upload_undone:
  "sys_step repr (Upload_undo 0 Returned) ((uploading_state i p t s)\<lparr>uploads := Undoing i p # us, ready := q\<rparr>) =
    Some ((uploading_state i p t s)\<lparr>uploads := us, ready := q, jobs := snd (repo_delete (table_repository 0) i t)\<rparr>)"
  "sys_step repr (Upload_undo 0 (Raised_error e)) ((uploading_state i p t s)\<lparr>uploads := Undoing i p # us, ready := q\<rparr>) =
    Some ((uploading_state i p t s)\<lparr>uploads := us, ready := q, given_up := i # given_up s\<rparr>)"
  "sys_step repr (Upload_undo 0 (Raised_late e)) ((uploading_state i p t s)\<lparr>uploads := Undoing i p # us, ready := q\<rparr>) =
    Some ((uploading_state i p t s)\<lparr>uploads := us, ready := q, given_up := i # given_up s,
      jobs := snd (repo_delete (table_repository 0) i t)\<rparr>)"
  "sys_step repr (Upload_dies 0) (uploading_state i p t s) =
    Some ((uploading_state i p t s)\<lparr>uploads := uploads s, given_up := i # given_up s\<rparr>)"
  by (simp_all add: uploading_state_def)

lemma delete_any: "repo_delete (table_repository now) i t = (Inr (), snd (repo_delete (table_repository 0) i t))"
  by (simp add: table_repository_def)

lemma save_any:
  "repo_save (table_repository now) n t = (case table_rows t (n_id n) of
     None \<Rightarrow> (Inr (insert_row n now), t @ [insert_row n now]) | Some _ \<Rightarrow> (Inl (Error ''duplicate key''), t))"
  by (simp add: table_repository_def split: option.split)

lemma table_or_throwD:
  assumes "table_or_throw now r"
  shows "repo_delete r i t = (Inl e, d) \<Longrightarrow> d = t \<or> d = snd (repo_delete (table_repository 0) i t)"
    and "repo_delete r i t = (Inr u, d) \<Longrightarrow> d = snd (repo_delete (table_repository 0) i t)"
    and "repo_save r n t = (Inl e, d) \<Longrightarrow> d = t \<or> (\<exists>j. repo_save (table_repository now) n t = (Inr j, d))"
    and "repo_save r n t = (Inr j, d) \<Longrightarrow> repo_save (table_repository now) n t = (Inr j, d)"
proof -
  note del = assms [unfolded table_or_throw_def, THEN conjunct2, rule_format, of i t]
  note save = assms [unfolded table_or_throw_def, THEN conjunct1, rule_format, of n t]
  show "repo_delete r i t = (Inl e, d) \<Longrightarrow> d = t \<or> d = snd (repo_delete (table_repository 0) i t)"
    "repo_delete r i t = (Inr u, d) \<Longrightarrow> d = snd (repo_delete (table_repository 0) i t)"
    using del unfolding delete_any [of now i t] by auto
  show "repo_save r n t = (Inl e, d) \<Longrightarrow> d = t \<or> (\<exists>j. repo_save (table_repository now) n t = (Inr j, d))"
    using save by (auto simp: save_any split: option.splits)
  show "repo_save r n t = (Inr j, d) \<Longrightarrow> repo_save (table_repository now) n t = (Inr j, d)"
    using save by auto
qed

lemma enqueue_confirmed:
  assumes "channel (publisher_fields env) = Some c"
    and "outcome env \<lparr>m_jobId = i, m_filePath = p, m_attempt = 0\<rparr> = Confirmed"
  shows "fst (enqueue env i p a) = Inr ()"
  using assms by (simp add: enqueue_def io_catch_def do_publish_def publish_job_eq)

text \<open>The try block of \<open>create\<close>, from the state after the insert.\<close>

lemma enqueue_refined:
  assumes "table_or_throw now (repo env)" and "enqueue env i p a = (r, a')"
  obtains es s' where "list_all upload_event es" and "sys_run repr es (uploading_state i p (db a) s) = Some s'"
    and "same_upload a s a' s'"
    and "r = Inr () \<Longrightarrow> ready s' = ready s @ [from_api (job_out i p)] \<and> given_up s' = given_up s"
    and "given_up s' = given_up s \<or> given_up s' = i # given_up s"
proof -
  let ?ch = "channel (publisher_fields env)"
  let ?oc = "outcome env \<lparr>m_jobId = i, m_filePath = p, m_attempt = 0\<rparr>"
  let ?u = "uploading_state i p (db a) s"
  let ?q = "ready s @ map from_api (lost_outs ?ch ?oc i p)"
  have failed: "?ch = None \<or> ?oc \<noteq> Confirmed" if "r = Inl e" for e
    using enqueue_confirmed [of env _ i p a] assms(2) that by fastforce
  have publish: "sys_step repr (Upload_publish 0 ?ch ?oc) ?u =
      Some (?u\<lparr>uploads := Undoing i p # uploads s, ready := ?q\<rparr>)" if "r = Inl e" for e
    by (rule upload_unpublished) (rule failed [OF that])
  from assms(2) show thesis
  proof (cases rule: enqueue_cases)
    case published
    then obtain c where c: "?ch = Some c" by auto
    let ?s = "?u\<lparr>uploads := uploads s, ready := ready s @ [from_api (job_out i p)]\<rparr>"
    show thesis
    proof (rule that [of "[Upload_publish 0 (Some c) Confirmed]" ?s])
      show "sys_run repr [Upload_publish 0 (Some c) Confirmed] ?u = Some ?s"
        unfolding sys_run.simps upload_publishes by simp
    qed (use published in \<open>simp_all add: same_upload_def uploading_state_def\<close>)
  next
    case (stuck q e d)
    let ?s = "\<lambda>d. ?u\<lparr>uploads := uploads s, ready := ?q, given_up := i # given_up s, jobs := d\<rparr>"
    let ?es = "\<lambda>a. [Upload_publish 0 ?ch ?oc, Upload_undo 0 a]"
    have "sys_run repr (?es (Raised_error [])) ?u = Some (?s (db a))"
      "sys_run repr (?es (Raised_late [])) ?u = Some (?s (snd (repo_delete (table_repository 0) i (db a))))"
      unfolding sys_run.simps publish [OF stuck(2)] bind.bind_lunit upload_undone
      by (simp_all add: uploading_state_def)
    moreover have "d = db a \<or> d = snd (repo_delete (table_repository 0) i (db a))"
      by (rule table_or_throwD(1) [OF assms(1) stuck(1)])
    ultimately obtain ans where "sys_run repr (?es ans) ?u = Some (?s d)" by blast
    then show thesis using stuck
      by (intro that [of "?es ans" "?s d"]) (simp_all add: same_upload_def uploading_state_def unconfirmed_lost)
  next
    case (undone q v d)
    let ?s = "?u\<lparr>uploads := uploads s, ready := ?q, jobs := d\<rparr>"
    let ?es = "[Upload_publish 0 ?ch ?oc, Upload_undo 0 Returned]"
    have d: "d = snd (repo_delete (table_repository 0) i (db a))"
      by (rule table_or_throwD(2) [OF assms(1) undone(1)])
    have "sys_run repr ?es ?u = Some ?s"
      unfolding sys_run.simps publish [OF undone(2)] bind.bind_lunit upload_undone d by simp
    then show thesis using undone
      by (intro that [of ?es ?s]) (simp_all add: same_upload_def uploading_state_def unconfirmed_lost)
  qed
qed

lemma create_simulated:
  assumes repo: "table_or_throw now (repo env)" and start: "jobs s = db a"
    and fresh: "py_uuid_ok (randomUUID env)" "randomUUID env \<notin> set (drawn s)"
    and run: "create env file a = (r, a')"
  shows "\<exists>es s'. list_all upload_event es \<and> sys_run repr es s = Some s' \<and> same_upload a s a' s' \<and>
    (case r of Inr res \<Rightarrow> if deduplicated res then es = [] else live repr s' (randomUUID env) \<and> given_up s' = given_up s
     | Inl _ \<Rightarrow> set (given_up s') \<subseteq> insert (randomUUID env) (set (given_up s)))"
  using run
proof (cases rule: create_cases)
  case (saved hash j d q)
  let ?i = "randomUUID env" and ?p = "job_file env file"
  let ?a = "(promoted env file a)\<lparr>db := d, effects := effects (promoted env file a) @ [Inserted ?i]\<rparr>"
  have "repo_save (table_repository now) (new_row env file hash) (jobs s) = (Inr j, d)"
    unfolding start by (rule table_or_throwD(4) [OF repo saved(2)])
  from upload_inserts [OF this, unfolded new_row_simps, OF refl fresh] have insert:
    "sys_step repr (Upload ?i ?p (originalname file) (Some hash) now) s = Some (uploading_state ?i ?p d s)" .
  obtain es s' where es: "list_all upload_event es" "sys_run repr es (uploading_state ?i ?p (db ?a) s) = Some s'"
    and same: "same_upload ?a s a' s'"
    and ok: "q = Inr () \<Longrightarrow> ready s' = ready s @ [from_api (job_out ?i ?p)] \<and> given_up s' = given_up s"
    and up: "given_up s' = given_up s \<or> given_up s' = ?i # given_up s"
    using enqueue_refined [OF repo saved(3)] by blast
  have "sys_run repr (Upload ?i ?p (originalname file) (Some hash) now # es) s = Some s'"
    unfolding sys_run.simps insert using es(2) by simp
  moreover have "same_upload a s a' s'" using same by (simp add: same_upload_def promoted_simps)
  moreover have "live repr s' ?i" if "q = Inr ()"
    using ok [OF that] about_from_api [OF fresh(1)] by (simp add: live_def)
  ultimately show ?thesis using es(1) ok up saved(4)
    by (intro exI [of _ "Upload ?i ?p (originalname file) (Some hash) now # es"] exI [of _ s'])
      (auto split: sum.splits)
next
  case (save_threw hash e d)
  consider "d = db a" | j where "repo_save (table_repository now) (new_row env file hash) (jobs s) = (Inr j, d)"
    using table_or_throwD(3) [OF repo save_threw(2)] start by auto
  then show ?thesis
  proof cases
    case 1
    then show ?thesis using save_threw start
      by (intro exI [of _ "[]"] exI [of _ s]) (auto simp: promoted_simps intro!: idle_upload)
  next
    case (2 j)
    let ?i = "randomUUID env" and ?p = "job_file env file"
    let ?es = "[Upload ?i ?p (originalname file) (Some hash) now, Upload_dies 0]"
    let ?s = "(uploading_state ?i ?p d s)\<lparr>uploads := uploads s, given_up := ?i # given_up s\<rparr>"
    note insert = upload_inserts [OF 2, unfolded new_row_simps, OF refl fresh]
    have "sys_run repr ?es s = Some ?s" unfolding sys_run.simps insert bind.bind_lunit upload_undone by simp
    then show ?thesis using save_threw
      by (intro exI [of _ ?es] exI [of _ ?s])
        (auto simp: same_upload_def uploading_state_def promoted_simps)
  qed
qed (use start in \<open>intro exI [of _ "[]"] exI [of _ s]; auto simp: do_remove_def intro!: idle_upload\<close>)+

text \<open>
  C4. The upload events of the system model are what the code does. Every run of \<open>create\<close>, with
  whatever file, digest, lookup result, broker answer and repository whose writes may throw before
  or after their effect, is matched by a run of at most three upload events from a system state with the same table: they end with the
  table the method leaves and with the messages it has put in the queue, and nothing else of the
  system has changed. An upload that is accepted leaves the system in a state where its job is
  live, one that ends without an insert needs no event at all.
\<close>

theorem create_refined:
  assumes repo: "table_or_throw now (repo env)" and start: "jobs s = db a"
    and fresh: "py_uuid_ok (randomUUID env)" "randomUUID env \<notin> set (drawn s)"
    and run: "create env file a = (r, a')"
  shows "\<exists>es s'. list_all upload_event es \<and> sys_run repr es s = Some s' \<and> same_upload a s a' s' \<and>
    (case r of Inr res \<Rightarrow> if deduplicated res then es = [] else live repr s' (randomUUID env) \<and> given_up s' = given_up s
     | Inl _ \<Rightarrow> set (given_up s') \<subseteq> insert (randomUUID env) (set (given_up s)))"
  by (rule create_simulated [OF assms])

definition valid_env :: "table service_env" where
  "valid_env = (sample_env (Some 0) Confirmed)\<lparr>randomUUID := sample_uuid\<rparr>"

theorem create_refined_witness:
  "\<forall>repr. \<exists>es s'. list_all upload_event es \<and> sys_run repr es sys_init = Some s' \<and> live repr s' sample_uuid"
proof
  fix repr
  obtain r a' where run: "create valid_env sample_file (sample_state []) = (r, a')" by fastforce
  have "case fst (create valid_env sample_file (sample_state [])) of Inr res \<Rightarrow> \<not> deduplicated res | _ \<Rightarrow> False"
    by code_simp
  then obtain res where r: "r = Inr res" "\<not> deduplicated res" using run by (auto split: sum.splits)
  have id: "randomUUID valid_env = sample_uuid" and repo: "repo valid_env = table_repository 7"
    by (simp_all add: valid_env_def sample_env_def)
  have "table_or_throw 7 (repo valid_env)" by (simp add: repo table_or_throw_def)
  moreover have "jobs sys_init = db (sample_state [])" by (simp add: sys_init_def sample_state_def)
  moreover have "py_uuid_ok (randomUUID valid_env)" unfolding id by (rule sample_uuid_ok)
  moreover have "randomUUID valid_env \<notin> set (drawn sys_init)" by (simp add: sys_init_def)
  ultimately show "\<exists>es s'. list_all upload_event es \<and> sys_run repr es sys_init = Some s' \<and> live repr s' sample_uuid"
    using create_refined [OF _ _ _ _ run, of 7 sys_init repr] r id by fastforce
qed

end
