(* ===== verification/Lifecycle.thy ===== *)
theory Lifecycle
  imports Full_Stack System_Refinement
begin

text \<open>
  The life of one upload, from the page to the page: the POST through the proxy, the routes and
  the guard, \<open>create\<close>, the answer on the page; then the workers, the poll and the transcript.
\<close>

definition proxied_post :: "string option \<Rightarrow> string \<Rightarrow> 'db api_server \<Rightarrow> 'db app_env \<Rightarrow> 'db api_state \<Rightarrow>
    http_request \<Rightarrow> (exn, http_response) result" where
  \<comment> \<open>the proxy's POST when its \<open>fetch\<close> reaches the API in this state\<close>
  "proxied_post env_url key srv env s request = post_transcription env_url (Some key)
     (\<lambda>rq. Inr (fst (api_serve srv env (API_URL env_url) rq s))) request"

definition created_in_json :: "'db api_server \<Rightarrow> (byte list \<Rightarrow> string + page_job) \<Rightarrow> nat \<Rightarrow> created_job_dto \<Rightarrow> bool" where
  \<comment> \<open>the answer to an upload has the status set on it, and its body reads back as its two fields\<close>
  "created_in_json srv read_json code dto \<longleftrightarrow> (let r = render_answer srv (Inr (CreatedResponse code dto)) in
     http_status r = code \<and> (\<exists>body. read_json (resp_body r) = Inr body \<and>
       pj_id body = Some (dto_id dto) \<and> pj_status body = Some (dto_status dto)))"

definition request_body :: "http_request \<Rightarrow> string" where
  "request_body request = map char_of (case req_body request of None \<Rightarrow> [] | Some b \<Rightarrow> b)"

lemma proxied_post_eq:
  assumes "key \<noteq> []" and "follows_routes (find_route srv)"
  shows "proxied_post env_url key srv env s request =
    Inr (passthrough (fst (answer_with_key srv env key (PostTranscription (request_body request)) s)))"
proof -
  let ?t = "case map_of (req_headers request) ''content-type'' of None \<Rightarrow> [] | Some v \<Rightarrow> v"
  let ?post = "\<lparr>http_method = ''POST'', url = API_URL env_url @ ''/v1/transcriptions'',
    req_headers = [(''x-api-key'', key), (''content-type'', ?t)], req_body = req_body request\<rparr>"
  have "api_serve srv env (API_URL env_url) ?post s = answer_with_key srv env key (PostTranscription (request_body request)) s"
    by (intro api_serve_routed [where query = "[]" and path = "''/v1/transcriptions''" and e = Create and args = "[]"])
      (simp_all add: assms(1) follows_routesD(1) [OF assms(2)] request_body_def)
  then show ?thesis using assms(1) by (simp add: proxied_post_def post_transcription_def api_headers_def)
qed

subsection \<open>The upload in the system\<close>

lemma upload_run_leads: "list_all upload_event es \<Longrightarrow> sys_run repr es s = Some s' \<Longrightarrow> leads_to repr s s'"
proof (induction es arbitrary: s)
  case (Cons e es)
  then obtain r where r: "sys_step repr e s = Some r" "sys_run repr es r = Some s'"
    by (auto simp: bind_eq_Some_conv)
  have "calm repr e s" using Cons.prems(1) by (cases e) simp_all
  then have "leads_to repr s r" using r(1) by (rule leads_toI)
  then show ?case using Cons.IH [OF _ r(2)] Cons.prems(1) by simp
qed simp

lemma accepted_in_system:
  assumes reach: "calm_reach repr s" and table: "jobs s = db a" and repo: "repo env = table_repository now"
    and fresh: "py_uuid_ok (randomUUID env)" "randomUUID env \<notin> set (drawn s)"
    and run: "create env file a = (Inr res, a')" and new: "\<not> deduplicated res"
  shows "\<exists>s1. leads_to repr s s1 \<and> jobs s1 = db a' \<and> randomUUID env \<in> open_jobs s1"
    and "jid (result_job res) = randomUUID env \<and> status (result_job res) = Queued"
proof -
  let ?i = "randomUUID env"
  have inv: "sys_inv repr s" by (rule calm_reach_inv [OF reach])
  have laws: "service env table_rows table_inv"
    using jobs_table.job_repository_axioms [of now] by (simp add: service_def repo)
  have ok: "table_inv (db a)" using inv by (simp add: sys_inv_def flip: table)
  have "ids_drawn repr s" using inv by (simp add: sys_inv_def)
  then have "get_status ?i (jobs s) = None" and no_task: "\<And>p. Undoing ?i p \<notin> set (uploads s)"
    using fresh(2) unfolding ids_drawn_def by blast+
  then have free: "table_rows (db a) ?i = None" by (simp add: get_status_def table)
  obtain now' h where row: "result_job res = insert_row (new_row env file h) now'"
    "table_rows (db a') = (table_rows (db a))(?i \<mapsto> result_job res)"
    using service.accepted [OF laws ok free run new] by metis
  then show mine: "jid (result_job res) = ?i \<and> status (result_job res) = Queued"
    by (simp add: insert_row_def new_row_simps)
  have "table_or_throw now (repo env)" by (simp add: repo table_or_throw_def)
  from create_simulated [where repr = repr, OF this table fresh run] new
  obtain es s1 where s1: "list_all upload_event es" "sys_run repr es s = Some s1" "same_upload a s a' s1"
    "given_up s1 = given_up s" by auto
  have "get_status ?i (jobs s1) = Some Queued"
    using s1(3) row(2) mine by (simp add: same_upload_def get_status_def)
  moreover have "\<not> abandoned s1 ?i"
    using s1(3,4) no_task reach_given_up [OF reach] fresh(2) by (auto simp: abandoned_def same_upload_def)
  ultimately show "\<exists>s1. leads_to repr s s1 \<and> jobs s1 = db a' \<and> ?i \<in> open_jobs s1"
    using upload_run_leads [OF s1(1,2)] s1(3) by (auto simp: open_jobs_def same_upload_def)
qed

lemma posted_created:
  assumes "key \<noteq> []" "API_KEY env = key" "follows_routes (find_route srv)"
    and served: "dispatch env (PostTranscription (request_body request)) st = (Inr (CreatedResponse 202 dto), st')"
    and json: "created_in_json srv read_json 202 dto" and pg: "in_flight pg = [Posting name]"
    and queued: "dto_status dto = Queued"
  shows "\<exists>r pg1 v. proxied_post env_url key srv env st request = Inr r \<and>
    page_step (Upload_answer 0 (Inr (reply_of read_json r))) pg = Some pg1 \<and> polls pg1 = polls pg \<and>
    timer pg1 = Some (Some (dto_id dto)) \<and> job_part (render pg1) = Some v \<and> job_title v = Some name \<and>
    job_id_line v = Some (dto_id dto) \<and> chip v = Some Queued \<and>
    (\<exists>c. current_job pg1 = Some c \<and> pj_id c = Some (dto_id dto))"
proof -
  let ?w = "render_answer srv (Inr (CreatedResponse 202 dto))"
  obtain body where body: "http_status ?w = 202" "read_json (resp_body ?w) = Inr body"
    "pj_id body = Some (dto_id dto)" "pj_status body = Some Queued"
    using json queued by (auto simp: created_in_json_def Let_def)
  have "proxied_post env_url key srv env st request = Inr (passthrough ?w)"
    unfolding proxied_post_eq [OF assms(1,3)] using served assms(2) by (simp add: answer_with_key_def)
  moreover have "reply_of read_json (passthrough ?w) = \<lparr>reply_status = 202, reply_json = Inr body\<rparr>"
    using body by (simp add: reply_of_def passthrough_def)
  moreover have "page_step (Upload_answer 0 (Inr \<lparr>reply_status = 202, reply_json = Inr body\<rparr>)) pg =
      Some ((set_job (Some (fresh_job body name)) (drop_task 0 pg))\<lparr>uploading := False\<rparr>)"
    using pg body by (simp add: posted_def reply_ok_def)
  ultimately show ?thesis
    using body by (simp add: set_job_def drop_task_def fresh_job_def poll_effect_def unfinished_def render_def view_job_def
        del: page_step.simps)
qed

lemma tick_then_answer:
  assumes "timer pg = Some (Some i)" and "current_job pg = Some c" and "pj_id c = Some i"
  shows "\<exists>pg'. page_step Tick pg = Some pg' \<and> watching pg' (length (polls pg)) i"
  using assms by (simp add: watching_def)

lemma dispatch_created:
  assumes "dispatch env (PostTranscription b) st = (Inr (CreatedResponse 202 dto), st')"
  obtains f fs res where "create (svc env) f (st\<lparr>files_of := fs\<rparr>) = (Inr res, st')" and "\<not> deduplicated res"
    and "dto = \<lparr>dto_id = jid (result_job res), dto_status = status (result_job res)\<rparr>"
proof -
  obtain f fs where f: "create_handler (svc env) f (st\<lparr>files_of := fs\<rparr>) = (Inr (202, dto), st')"
    using assms by (auto split: prod.splits sum.splits)
  then obtain u where u: "f = Some u" by (cases f) (auto simp: create_handler_def io_throw_def)
  obtain r t where c: "create (svc env) u (st\<lparr>files_of := fs\<rparr>) = (r, t)" by fastforce
  then obtain res where "r = Inr res" using f u by (cases r) (auto simp: create_handler_def io_defs)
  then show thesis using that [of u fs res] f c u
    by (auto simp: create_handler_def io_defs split: if_splits)
qed

text \<open>
  C5. The life of an upload. Take any state the system can reach and any API over its table, with
  the proxy's key and a fresh id. When the page's upload is answered 202, the page shows the file's
  name and the new id as queued and polls that id; the system is in a state it can reach, with the
  row and the message; from there the workers can go on so that the row is completed with whatever
  transcript the model makes; and then the next tick of the page and the answer to its poll, from
  an API over that table, show the job as completed, with one line per segment of that transcript.
\<close>

theorem upload_to_transcript:
  fixes tr :: transcript and srv :: "table api_server"
  assumes reach: "calm_reach repr s" and table: "jobs s = db st"
    and api: "reaches_table key srv env (randomUUID (svc env))"
    and fresh: "py_uuid_ok (randomUUID (svc env))" "randomUUID (svc env) \<notin> set (drawn s)"
    and served: "dispatch env (PostTranscription (request_body request)) st = (Inr (CreatedResponse 202 dto), st')"
    and json: "created_in_json srv read_json 202 dto" and pg: "in_flight pg = [Posting name]"
  shows "\<exists>r pg1 v s1 s2 j. proxied_post env_url key srv env st request = Inr r \<and>
    page_step (Upload_answer 0 (Inr (reply_of read_json r))) pg = Some pg1 \<and>
    job_part (render pg1) = Some v \<and> job_title v = Some name \<and> chip v = Some Queued \<and>
    leads_to repr s s1 \<and> jobs s1 = db st' \<and> leads_to repr s1 s2 \<and>
    table_rows (jobs s2) (randomUUID (svc env)) = Some j \<and>
    (\<forall>(srv2 :: table api_server) read2 st2. follows_routes (find_route srv2) \<and> db st2 = jobs s2 \<and>
       answers_in_json srv2 read2 (to_job_detail j) \<longrightarrow>
       (\<exists>r2 pg2. proxied_poll env_url key srv2 env st2 (randomUUID (svc env)) = Inr r2 \<and>
          page_run [Tick, Poll_answer (length (polls pg1)) (Inr (reply_of read2 r2))] pg1 = Some pg2 \<and>
          shows_transcript pg2 tr))"
proof -
  let ?i = "randomUUID (svc env)"
  obtain now where conf: "key \<noteq> []" "API_KEY env = key" "follows_routes (find_route srv)"
    "repo (svc env) = table_repository now" using api by (auto simp: reaches_table_def)
  obtain f fs res where run: "create (svc env) f (st\<lparr>files_of := fs\<rparr>) = (Inr res, st')" "\<not> deduplicated res"
    and dto: "dto = \<lparr>dto_id = jid (result_job res), dto_status = status (result_job res)\<rparr>"
    using dispatch_created [OF served] by blast
  have table': "jobs s = db (st\<lparr>files_of := fs\<rparr>)" by (simp add: table)
  note sys = accepted_in_system [OF reach table' conf(4) fresh run]
  obtain s1 where s1: "leads_to repr s s1" "jobs s1 = db st'" "?i \<in> open_jobs s1" using sys(1) by blast
  have dto_i: "dto_id dto = ?i" "dto_status dto = Queued" using sys(2) by (simp_all add: dto)
  obtain r pg1 v c where r: "proxied_post env_url key srv env st request = Inr r"
    "page_step (Upload_answer 0 (Inr (reply_of read_json r))) pg = Some pg1" "timer pg1 = Some (Some ?i)"
    "job_part (render pg1) = Some v" "job_title v = Some name" "chip v = Some Queued" "current_job pg1 = Some c" "pj_id c = Some ?i"
    using posted_created [OF conf(1-3) served json pg dto_i(2), of env_url] unfolding dto_i(1) by blast
  from transcript_shown [OF leads_to_reach [OF s1(1) reach] s1(3), of tr]
  obtain s2 j where s2: "leads_to repr s1 s2" "table_rows (jobs s2) ?i = Some j"
    and shown: "\<And>(srv2 :: table api_server) read2 st2 pg n. reaches_table key srv2 env ?i \<Longrightarrow> db st2 = jobs s2 \<Longrightarrow>
      answers_in_json srv2 read2 (to_job_detail j) \<Longrightarrow> watching pg n ?i \<Longrightarrow>
      \<exists>r2 pg2. proxied_poll env_url key srv2 env st2 ?i = Inr r2 \<and>
        page_step (Poll_answer n (Inr (reply_of read2 r2))) pg = Some pg2 \<and> timer pg2 = None \<and> shows_transcript pg2 tr"
    by metis
  obtain pgt where pgt: "page_step Tick pg1 = Some pgt" "watching pgt (length (polls pg1)) ?i"
    using tick_then_answer [OF r(3,7,8)] by blast
  have "\<exists>r2 pg2. proxied_poll env_url key srv2 env st2 ?i = Inr r2 \<and>
      page_run [Tick, Poll_answer (length (polls pg1)) (Inr (reply_of read2 r2))] pg1 = Some pg2 \<and> shows_transcript pg2 tr"
    if "follows_routes (find_route srv2) \<and> db st2 = jobs s2 \<and> answers_in_json srv2 read2 (to_job_detail j)"
    for st2 read2 and srv2 :: "table api_server"
  proof -
    have "reaches_table key srv2 env ?i" using that api by (simp add: reaches_table_def)
    then show ?thesis using shown [of srv2 st2 read2 pgt "length (polls pg1)"] that pgt by (auto simp del: page_step.simps)
  qed
  with r s1 s2 show ?thesis by blast
qed

text \<open>
  A page that has posted one file, multer's file of it, and a rendering with the statuses of the
  answers.
\<close>

definition upload_api :: "table app_env" where
  "upload_api = sample_api\<lparr>svc := valid_env, receive := (\<lambda>_ fs. (Inr (Some sample_file), fs))\<rparr>"

definition status_server :: "'db api_server" where
  "status_server = plain_server (\<lambda>r. \<lparr>http_status = (case r of Inl e \<Rightarrow> status_code e
     | Inr (CreatedResponse code dto) \<Rightarrow> code | Inr _ \<Rightarrow> 200), resp_headers = [], resp_body = []\<rparr>)"

definition created_body :: "http_request" where
  "created_body = \<lparr>http_method = ''POST'', url = [], req_headers = [], req_body = Some []\<rparr>"

definition queued_job :: page_job where
  "queued_job = \<lparr>pj_id = Some sample_uuid, pj_status = Some Queued, pj_originalName = None, pj_progress = 0,
     pj_durationSec = None, pj_language = None, pj_error = None, pj_transcript = None, pj_message = None\<rparr>"

definition posting_page :: page where
  "posting_page = start_upload ''a.mp3'' page_init"

lemma status_server_laws:
  "follows_routes (find_route status_server)" "answers_in_json status_server (\<lambda>_. Inr (from_detail d)) d"
  "created_in_json status_server (\<lambda>_. Inr queued_job) 202 \<lparr>dto_id = sample_uuid, dto_status = Queued\<rparr>"
  unfolding status_server_def answers_in_json_def created_in_json_def
  by (rule plain_server_laws, simp_all add: plain_server_def queued_job_def)

lemma upload_api_serves:
  "\<exists>st'. dispatch upload_api (PostTranscription (request_body created_body)) (sample_state []) =
    (Inr (CreatedResponse 202 \<lparr>dto_id = sample_uuid, dto_status = Queued\<rparr>), st')"
proof -
  have "fst (dispatch upload_api (PostTranscription (request_body created_body)) (sample_state [])) =
    Inr (CreatedResponse 202 \<lparr>dto_id = sample_uuid, dto_status = Queued\<rparr>)" by code_simp
  then show ?thesis by (metis prod.collapse)
qed

theorem upload_to_transcript_witness:
  "\<forall>repr (tr :: transcript). \<exists>r pg1 r2 pg2 s2.
     proxied_post None ''k'' status_server upload_api (sample_state []) created_body = Inr r \<and>
     page_step (Upload_answer 0 (Inr (reply_of (\<lambda>_. Inr queued_job) r))) posting_page = Some pg1 \<and>
     leads_to repr sys_init s2 \<and>
     page_run [Tick, Poll_answer (length (polls pg1)) (Inr r2)] pg1 = Some pg2 \<and> shows_transcript pg2 tr"
proof (intro allI)
  fix repr and tr :: transcript
  obtain st' where served: "dispatch upload_api (PostTranscription (request_body created_body)) (sample_state []) =
    (Inr (CreatedResponse 202 \<lparr>dto_id = sample_uuid, dto_status = Queued\<rparr>), st')" using upload_api_serves by blast
  have id: "randomUUID (svc upload_api) = sample_uuid" by (simp add: upload_api_def valid_env_def)
  have table: "jobs sys_init = db (sample_state [])" by (simp add: sys_init_def sample_state_def)
  have api: "reaches_table ''k'' (status_server :: table api_server) upload_api (randomUUID (svc upload_api))"
    using status_server_laws(1)
    by (auto simp: reaches_table_def upload_api_def sample_api_def valid_env_def sample_env_def)
  have fresh: "py_uuid_ok (randomUUID (svc upload_api))" "randomUUID (svc upload_api) \<notin> set (drawn sys_init)"
    unfolding id by (rule sample_uuid_ok, simp add: sys_init_def)
  have pg: "in_flight posting_page = [Posting ''a.mp3'']"
    by (simp add: posting_page_def start_upload_def page_init_def)
  from upload_to_transcript [where repr = repr and tr = tr,
      OF calm_reach.init table api fresh served status_server_laws(3) pg]
  obtain r pg1 s1 s2 j where r: "proxied_post None ''k'' status_server upload_api (sample_state []) created_body = Inr r"
    "page_step (Upload_answer 0 (Inr (reply_of (\<lambda>_. Inr queued_job) r))) posting_page = Some pg1"
    "leads_to repr sys_init s1" "leads_to repr s1 s2"
    and shown: "\<And>(srv2 :: table api_server) read2 st2. follows_routes (find_route srv2) \<and> db st2 = jobs s2 \<and>
       answers_in_json srv2 read2 (to_job_detail j) \<Longrightarrow>
       \<exists>r2 pg2. proxied_poll None ''k'' srv2 upload_api st2 (randomUUID (svc upload_api)) = Inr r2 \<and>
          page_run [Tick, Poll_answer (length (polls pg1)) (Inr (reply_of read2 r2))] pg1 = Some pg2 \<and>
          shows_transcript pg2 tr" by blast
  from shown [of status_server "sample_state (jobs s2)" "\<lambda>_. Inr (from_detail (to_job_detail j))"] status_server_laws(1,2)
  obtain r2 pg2 where "page_run [Tick, Poll_answer (length (polls pg1)) (Inr r2)] pg1 = Some pg2" "shows_transcript pg2 tr"
    by (auto simp: sample_state_def simp del: page_step.simps)
  with r rtranclp_trans [OF r(3,4)] show "\<exists>r pg1 r2 pg2 s2.
     proxied_post None ''k'' status_server upload_api (sample_state []) created_body = Inr r \<and>
     page_step (Upload_answer 0 (Inr (reply_of (\<lambda>_. Inr queued_job) r))) posting_page = Some pg1 \<and>
     leads_to repr sys_init s2 \<and>
     page_run [Tick, Poll_answer (length (polls pg1)) (Inr r2)] pg1 = Some pg2 \<and> shows_transcript pg2 tr"
    by blast
qed

end
