(* ===== verification/Model_Cache.thy ===== *)
theory Model_Cache
  imports Transcriber
begin

text \<open>
  The model of a worker process (\<open>get_model\<close> of \<open>worker/transcriber.py\<close>): a global that keeps the
  first model that could be loaded. \<open>WhisperModel(...)\<close> is a parameter: what it answers each time it
  is called; the model it returns is of any type.
\<close>

definition get_model :: "(py_exception, 'm) result \<Rightarrow> 'm option \<Rightarrow> (py_exception, 'm) result \<times> 'm option" where
  \<comment> \<open>the first argument is what loading would answer now\<close>
  "get_model load model = (case model of Some m \<Rightarrow> (Inr m, Some m)
   | None \<Rightarrow> (case load of Inl e \<Rightarrow> (Inl e, None) | Inr m \<Rightarrow> (Inr m, Some m)))"

record 'm transcription =
  loading :: "(py_exception, 'm) result"
  job_wav :: string
  job_duration :: f64

definition transcribe_job :: "('m \<Rightarrow> transcriber_env) \<Rightarrow> transcriber_env \<Rightarrow> 'm transcription \<Rightarrow> 'm option \<Rightarrow>
    ((py_exception, transcript) result \<times> f64 list) option \<times> 'm option" where
  \<comment> \<open>\<open>transcribe\<close> with the model the process has; the second argument when there is none\<close>
  "transcribe_job using_model without job model = (case get_model (loading job) model of
     (Inl e, model') \<Rightarrow> (transcribe (without\<lparr>load_model := Inl e\<rparr>) (job_wav job) (job_duration job), model')
   | (Inr m, model') \<Rightarrow> (transcribe ((using_model m)\<lparr>load_model := Inr ()\<rparr>) (job_wav job) (job_duration job), model'))"

fun process_jobs :: "('m \<Rightarrow> transcriber_env) \<Rightarrow> transcriber_env \<Rightarrow> 'm transcription list \<Rightarrow> 'm option \<Rightarrow>
    ((py_exception, transcript) result \<times> f64 list) option list \<times> 'm option" where
  "process_jobs using_model without [] model = ([], model)"
| "process_jobs using_model without (job # jobs) model = (case transcribe_job using_model without job model of
     (r, model') \<Rightarrow> (case process_jobs using_model without jobs model' of (rs, model'') \<Rightarrow> (r # rs, model'')))"

lemma process_with_model:
  "process_jobs using_model without jobs (Some m) =
    (map (\<lambda>job. transcribe ((using_model m)\<lparr>load_model := Inr ()\<rparr>) (job_wav job) (job_duration job)) jobs, Some m)"
  by (induction jobs) (simp_all add: transcribe_job_def get_model_def)

fun served_by_first :: "('m \<Rightarrow> transcriber_env) \<Rightarrow> 'm transcription list \<Rightarrow>
    ((py_exception, transcript) result \<times> f64 list) option list \<times> 'm option" where
  \<comment> \<open>all with the model the first of them loads\<close>
  "served_by_first using_model [] = ([], None)"
| "served_by_first using_model (first # jobs) = (let m = projr (loading first) in
     (map (\<lambda>job. transcribe ((using_model m)\<lparr>load_model := Inr ()\<rparr>) (job_wav job) (job_duration job)) (first # jobs), Some m))"

text \<open>
  A worker loads its model once. Over any sequence of transcriptions: the jobs before the first
  load that succeeds fail with the error of their own load, and each tries again; from that job on
  all use the model it has loaded, whatever loading would answer later.
\<close>

theorem model_loaded_once:
  fixes jobs :: "'m transcription list"
  defines "failed \<equiv> takeWhile (\<lambda>job. \<exists>e. loading job = Inl e) jobs"
    and "served \<equiv> dropWhile (\<lambda>job. \<exists>e. loading job = Inl e) jobs"
  shows "process_jobs using_model without jobs None =
    (map (\<lambda>job. Some (Inl (projl (loading job)), [])) failed @
     fst (served_by_first using_model served), snd (served_by_first using_model served))"
  unfolding failed_def served_def
proof (induction jobs)
  case (Cons job jobs)
  show ?case
  proof (cases "loading job")
    case (Inl e)
    then have "transcribe_job using_model without job None = (Some (Inl e, []), None)"
      by (simp add: transcribe_job_def get_model_def transcribe_def)
    then show ?thesis using Cons.IH Inl by simp
  next
    case (Inr m)
    then have "transcribe_job using_model without job None =
        (transcribe ((using_model m)\<lparr>load_model := Inr ()\<rparr>) (job_wav job) (job_duration job), Some m)"
      by (simp add: transcribe_job_def get_model_def)
    then show ?thesis using Inr by (simp add: process_with_model)
  qed
qed simp

end
