(* ===== verification/Worker_Startup.thy ===== *)
theory Worker_Startup
  imports Worker_Message
begin

text \<open>
  The life of a worker process: the connection loops (\<open>Database.connect\<close> of \<open>worker/db.py\<close>,
  \<open>connect_with_retry\<close> of \<open>worker/main.py\<close>), the pool, and \<open>run\<close> from the settings to the shutdown.
  What an attempt, the set-up of the consumer and the cancelling answer, and whether the job in
  flight ends within the grace period, are parameters; an exception is given by its text.
\<close>

subsection \<open>Connecting\<close>

fun attempts :: "string \<Rightarrow> (int \<Rightarrow> (string, 'c) result) \<Rightarrow> int list \<Rightarrow> string \<Rightarrow> (py_exception, 'c) result \<times> nat" where
  \<comment> \<open>the loop over the attempts left; the last error so far; the result and how often it slept\<close>
  "attempts service dial [] last_error = (Inl (Raised (''could not connect to '' @ service @ '': '' @ last_error)), 0)"
| "attempts service dial (attempt # rest) last_error = (case dial attempt of
     Inr c \<Rightarrow> (Inr c, 0)
   | Inl e \<Rightarrow> (case attempts service dial rest e of (r, sleeps) \<Rightarrow> (r, Suc sleeps)))"

definition connect_with_retry :: "int \<Rightarrow> (int \<Rightarrow> (string, 'c) result) \<Rightarrow> (py_exception, 'c) result \<times> nat" where
  "connect_with_retry startup_retry_max dial = attempts ''rabbitmq'' dial [1..startup_retry_max] ''None''"

record 'p database =
  retry_max :: int
  pool_of :: "'p option"

definition new_database :: "int \<Rightarrow> 'p database" where
  "new_database startup_retry_max = \<lparr>retry_max = startup_retry_max, pool_of = None\<rparr>"

definition db_connect :: "(int \<Rightarrow> (string, 'p) result) \<Rightarrow> 'p database \<Rightarrow> (py_exception, unit) result \<times> nat \<times> 'p database" where
  "db_connect dial d = (case attempts ''postgres'' dial [1..retry_max d] ''None'' of
     (Inl e, sleeps) \<Rightarrow> (Inl e, sleeps, d)
   | (Inr p, sleeps) \<Rightarrow> (Inr (), sleeps, d\<lparr>pool_of := Some p\<rparr>))"

definition pool :: "'p database \<Rightarrow> (py_exception, 'p) result" where
  "pool d = (case pool_of d of None \<Rightarrow> Inl (Raised ''database not connected'') | Some p \<Rightarrow> Inr p)"

definition db_close :: "(py_exception, unit) result \<Rightarrow> 'p database \<Rightarrow> (py_exception, unit) result" where
  \<comment> \<open>the first argument is what closing the pool answers\<close>
  "db_close answer d = (case pool_of d of None \<Rightarrow> Inr () | Some _ \<Rightarrow> answer)"

lemma attempts_spec:
  "case attempts service dial [k..n] err of
     (Inr c, sleeps) \<Rightarrow> k + int sleeps \<le> n \<and> dial (k + int sleeps) = Inr c \<and> (\<forall>j \<in> {k..<k + int sleeps}. \<exists>e. dial j = Inl e)
   | (Inl e, sleeps) \<Rightarrow> int sleeps = max 0 (n + 1 - k) \<and> (\<forall>j \<in> {k..n}. \<exists>e. dial j = Inl e) \<and>
       e = Raised (''could not connect to '' @ service @ '': '' @ (if n < k then err else projl (dial n)))"
proof (induction "nat (n + 1 - k)" arbitrary: k err)
  case 0
  then show ?case by simp
next
  case (Suc m)
  then have k: "k \<le> n" "[k..n] = k # [k + 1..n]" "m = nat (n + 1 - (k + 1))" by (simp_all add: upto_rec1)
  show ?case
  proof (cases "dial k")
    case (Inl e)
    note IH = Suc.hyps(1) [OF k(3), of e]
    obtain r sleeps where rec: "attempts service dial [k + 1..n] e = (r, sleeps)" by fastforce
    have head: "{k..n} = insert k {k + 1..n}" "{k..<k + (1 + int sleeps)} = insert k {k + 1..<k + (1 + int sleeps)}"
      using k(1) by auto
    show ?thesis
    proof (cases r)
      case Inl_r: (Inl x)
      have "(if n < k + 1 then e else projl (dial n)) = projl (dial n)" using Inl k(1) by auto
      then show ?thesis using IH k(1) Inl unfolding k(2) rec Inl_r head(1)
        by (simp add: rec Inl_r)
    next
      case Inr_r: (Inr c)
      then show ?thesis using IH Inl unfolding k(2)
        by (simp add: rec Inr_r add.assoc head(2))
    qed
  qed (simp add: k)
qed

text \<open>
  C29. The worker waits for its services, but not for ever. Each connection loop makes its attempts
  one by one until the first that succeeds, and sleeps after each that fails, the last included; it
  gives up after exactly \<open>startup_retry_max\<close> attempts with a \<open>RuntimeError\<close> that names the service
  and the last error, and with a setting of zero or less without any attempt. After \<open>connect\<close> the
  pool is that of the first attempt that succeeded, or still absent, so that its use raises.
\<close>

theorem startup_retries_bounded:
  "case connect_with_retry limit dial of
     (Inr c, sleeps) \<Rightarrow> int sleeps < limit \<and> dial (1 + int sleeps) = Inr c \<and>
       (\<forall>k. 1 \<le> k \<and> k \<le> int sleeps \<longrightarrow> (\<exists>e. dial k = Inl e)) \<and>
       db_connect dial (new_database limit) = (Inr (), sleeps, \<lparr>retry_max = limit, pool_of = Some c\<rparr>)
   | (Inl e, sleeps) \<Rightarrow> int sleeps = max 0 limit \<and> (\<forall>k. 1 \<le> k \<and> k \<le> limit \<longrightarrow> (\<exists>e. dial k = Inl e)) \<and>
       e = Raised (''could not connect to rabbitmq: '' @ (if limit < 1 then ''None'' else projl (dial limit))) \<and>
       (\<exists>m. db_connect dial (new_database limit) = (Inl (Raised m), sleeps, new_database limit)) \<and>
       pool (new_database limit) = Inl (Raised ''database not connected'')"
proof -
  obtain r sleeps where run: "attempts ''rabbitmq'' dial [1..limit] ''None'' = (r, sleeps)" by fastforce
  obtain r' sleeps' where run': "attempts ''postgres'' dial [1..limit] ''None'' = (r', sleeps')" by fastforce
  have "attempts s dial xs e = (case attempts s' dial xs e of
      (Inl _, n) \<Rightarrow> (Inl (Raised (''could not connect to '' @ s @ '': '' @ last (e # map (\<lambda>x. projl (dial x)) xs))), n)
    | (Inr c, n) \<Rightarrow> (Inr c, n))" for s s' xs e
    by (induction xs arbitrary: e) (auto split: sum.splits prod.splits)
  from this [of "''postgres''" "[1..limit]" "''None''" "''rabbitmq''"]
  have same: "sleeps' = sleeps" "\<And>c. r = Inr c \<Longrightarrow> r' = Inr c" "\<And>e. r = Inl e \<Longrightarrow> \<exists>m. r' = Inl (Raised m)"
    by (auto simp: run run' split: sum.splits)
  note spec = attempts_spec [where service = "''rabbitmq''" and dial = dial and k = 1 and n = limit and err = "''None''", unfolded run prod.case]
  show ?thesis
  proof (cases r)
    case (Inl e)
    then show ?thesis using spec same by (auto simp: connect_with_retry_def run run' db_connect_def new_database_def pool_def)
  next
    case (Inr c)
    then show ?thesis using spec same by (auto simp: connect_with_retry_def run run' db_connect_def new_database_def)
  qed
qed

theorem startup_retries_bounded_witness:
  "connect_with_retry 3 (\<lambda>k. if k = 2 then Inr ''c'' else Inl ''refused'') = (Inr ''c'', 1) \<and> int 1 < (3 :: int)"
proof -
  let ?dial = "\<lambda>k :: int. if k = 2 then Inr ''c'' else Inl ''refused'' :: (string, string) result"
  have "connect_with_retry 3 ?dial = (Inr ''c'', 1)" by (simp add: connect_with_retry_def upto_rec1)
  with startup_retries_bounded [of 3 ?dial] show ?thesis by simp
qed

subsection \<open>From start to shutdown\<close>

text \<open>
  \<open>run\<close> once a signal has set \<open>stop\<close>. The events are its effects in order; \<open>finally\<close> and the exit
  of \<open>async with\<close> close what was opened on every path, and an exception of the closing replaces
  the one before.
\<close>

datatype life_event =
    Pool_opened | Broker_connected | Consuming | Stop_requested | Consumer_cancelled
  | Job_ended | Grace_exceeded | Broker_closed | Pool_closed

record life_env =
  startup_limit :: int
  db_dial :: "int \<Rightarrow> (string, unit) result"
  broker_dial :: "int \<Rightarrow> (string, unit) result"
  set_up :: "(py_exception, unit) result"       \<comment> \<open>channel, prefetch, topology, handlers, consume\<close>
  cancel_consumer :: "(py_exception, unit) result"
  ends_in_time :: bool                          \<comment> \<open>the lock is free within \<open>shutdown_grace_sec\<close>\<close>
  close_broker :: "(py_exception, unit) result"
  close_pool :: "(py_exception, unit) result"

type_synonym life = "(py_exception, unit) result \<times> life_event list"

definition finally_close :: "life_event \<Rightarrow> (py_exception, unit) result \<Rightarrow> life \<Rightarrow> life" where
  "finally_close ev close body = (case body of (r, es) \<Rightarrow> (bind_result close (\<lambda>_. r), es @ [ev]))"

definition consume_until_stopped :: "life_env \<Rightarrow> life" where
  "consume_until_stopped env = (case set_up env of Inl e \<Rightarrow> (Inl e, [])
   | Inr _ \<Rightarrow> (case cancel_consumer env of Inl e \<Rightarrow> (Inl e, [Consuming, Stop_requested])
     | Inr _ \<Rightarrow> (Inr (), [Consuming, Stop_requested, Consumer_cancelled,
         if ends_in_time env then Job_ended else Grace_exceeded])))"

definition worker_run :: "life_env \<Rightarrow> life" where
  "worker_run env = (case db_connect (db_dial env) (new_database (startup_limit env)) of
     (Inl e, _, _) \<Rightarrow> (Inl e, [])
   | (Inr _, _, d) \<Rightarrow> (case finally_close Pool_closed (db_close (close_pool env) d)
        (case connect_with_retry (startup_limit env) (broker_dial env) of
           (Inl e, _) \<Rightarrow> (Inl e, [])
         | (Inr _, _) \<Rightarrow> (case finally_close Broker_closed (close_broker env) (consume_until_stopped env) of
             (r, es) \<Rightarrow> (r, Broker_connected # es)))
      of (r, es) \<Rightarrow> (r, Pool_opened # es)))"

lemma db_connect_pool:
  "db_connect dial (new_database n) = (Inr u, k, d) \<Longrightarrow> db_close answer d = answer"
  by (auto simp: db_connect_def new_database_def db_close_def split: prod.splits sum.splits)

text \<open>
  Whatever fails on the way, what was opened is closed, once and in the reverse order, the pool
  last; the wait for the job in flight only starts when no new message can come in; and the run
  only ends without an exception if every part of it did.
\<close>

theorem worker_run_closes:
  "\<exists>mid. snd (worker_run env) \<in> {[], [Pool_opened, Pool_closed],
      Pool_opened # Broker_connected # mid @ [Broker_closed, Pool_closed]} \<and>
    mid \<in> {[], [Consuming, Stop_requested], [Consuming, Stop_requested, Consumer_cancelled, Job_ended],
      [Consuming, Stop_requested, Consumer_cancelled, Grace_exceeded]} \<and>
    (fst (worker_run env) = Inr () \<longrightarrow> snd (worker_run env) =
      [Pool_opened, Broker_connected, Consuming, Stop_requested, Consumer_cancelled,
       if ends_in_time env then Job_ended else Grace_exceeded, Broker_closed, Pool_closed])"
proof -
  obtain r k d where db: "db_connect (db_dial env) (new_database (startup_limit env)) = (r, k, d)" by (cases rule: prod_cases3)
  obtain b l where broker: "connect_with_retry (startup_limit env) (broker_dial env) = (b, l)" by fastforce
  obtain c mid where mid: "consume_until_stopped env = (c, mid)" by fastforce
  then have cases: "mid \<in> {[], [Consuming, Stop_requested], [Consuming, Stop_requested, Consumer_cancelled, Job_ended],
      [Consuming, Stop_requested, Consumer_cancelled, Grace_exceeded]}"
    "c = Inr () \<longrightarrow> mid = [Consuming, Stop_requested, Consumer_cancelled, if ends_in_time env then Job_ended else Grace_exceeded]"
    by (auto simp: consume_until_stopped_def split: sum.splits if_splits)
  show ?thesis
  proof (cases r)
    case (Inl e)
    then show ?thesis by (intro exI [of _ "[]"]) (simp add: worker_run_def db)
  next
    case (Inr u)
    have pool_d: "db_close a d = a" for a using db_connect_pool db Inr by blast
    show ?thesis
    proof (cases b)
      case (Inl e)
      then show ?thesis using Inr pool_d
        by (intro exI [of _ "[]"]) (cases "close_pool env"; simp add: worker_run_def db broker finally_close_def)
    next
      case Inr_b: (Inr x)
      have "worker_run env = (bind_result (close_pool env) (\<lambda>_. bind_result (close_broker env) (\<lambda>_. c)),
          Pool_opened # Broker_connected # mid @ [Broker_closed, Pool_closed])"
        using Inr pool_d Inr_b by (simp add: worker_run_def db broker mid finally_close_def)
      then show ?thesis using cases by (intro exI [of _ mid]) (auto simp: result_iff)
    qed
  qed
qed

end
