(* ===== verification/Shutdown.thy ===== *)
theory Shutdown
  imports Worker_Startup "HOL-Library.Multiset"
begin

text \<open>
  The shutdown of \<open>run\<close> in \<open>worker/main.py\<close> among the handlers of messages: the event \<open>stop\<close> that the
  signals set, the lock \<open>in_flight\<close> that \<open>guarded_handler\<close> holds around each message, the cancelling of
  the consumer and the wait for the lock with its time limit. The event loop may run the tasks in
  any order, and a message may be delivered until the cancelling is answered. \<open>asyncio.Lock\<close> is
  modelled as it is: first come, first served, with a moment between a release and the next
  holder's waking up.
\<close>

subsection \<open>The lock\<close>

datatype party = Job nat | Runner     \<comment> \<open>the handler of the nth message, \<open>run\<close> itself\<close>

record lock =
  locked_by :: "party option"
  lock_waiters :: "party list"

definition lock_acquire :: "party \<Rightarrow> lock \<Rightarrow> lock" where
  "lock_acquire p l = (if locked_by l = None \<and> lock_waiters l = [] then l\<lparr>locked_by := Some p\<rparr>
     else l\<lparr>lock_waiters := lock_waiters l @ [p]\<rparr>)"

definition lock_release :: "lock \<Rightarrow> lock" where
  "lock_release l = l\<lparr>locked_by := None\<rparr>"

definition lock_wake :: "lock \<Rightarrow> lock option" where
  \<comment> \<open>the first waiter runs on with the lock, once it is free\<close>
  "lock_wake l = (case (locked_by l, lock_waiters l) of (None, p # ps) \<Rightarrow> Some \<lparr>locked_by = Some p, lock_waiters = ps\<rparr>
     | _ \<Rightarrow> None)"

definition lock_cancel :: "party \<Rightarrow> lock \<Rightarrow> lock" where
  \<comment> \<open>a waiter whose \<open>acquire\<close> is cancelled\<close>
  "lock_cancel p l = l\<lparr>lock_waiters := remove1 p (lock_waiters l)\<rparr>"

subsection \<open>run\<close>

datatype run_phase =
    Consuming_messages | Cancelling | Waiting_for_lock
  | Left_cleanly | Left_late | Left_failing

record run_state =
  phase :: run_phase
  stop_set :: bool
  in_flight :: lock
  delivered :: nat              \<comment> \<open>messages, numbered from 0\<close>
  not_started :: "nat list"     \<comment> \<open>their tasks have not run yet\<close>
  handled :: "nat list"         \<comment> \<open>\<open>handle_message\<close> has ended\<close>

datatype run_event =
    Arrive | Start nat | Wake | Handled nat
  | Signal | Stop_seen | Cancel_answered "(py_exception, unit) result" | Lock_acquired | Grace_over

definition run_init :: run_state where
  "run_init = \<lparr>phase = Consuming_messages, stop_set = False,
     in_flight = \<lparr>locked_by = None, lock_waiters = []\<rparr>, delivered = 0, not_started = [], handled = []\<rparr>"

text \<open>
  The tasks of the handlers go on, whatever the phase: also once \<open>run\<close> has left the wait, while its
  connection and its pool are being closed. When the consumer could not be cancelled, messages may
  arrive until the connection is closed. The process ends after any of these steps.
\<close>

fun run_step :: "run_event \<Rightarrow> run_state \<Rightarrow> run_state option" where
  "run_step Arrive s = (if phase s \<in> {Consuming_messages, Cancelling, Left_failing}
     then Some (s\<lparr>delivered := delivered s + 1, not_started := not_started s @ [delivered s]\<rparr>) else None)"
| "run_step (Start n) s = (if n \<in> set (not_started s)
     then Some (s\<lparr>not_started := remove1 n (not_started s), in_flight := lock_acquire (Job n) (in_flight s)\<rparr>) else None)"
| "run_step Wake s = map_option (\<lambda>l. s\<lparr>in_flight := l\<rparr>) (lock_wake (in_flight s))"
| "run_step (Handled n) s = (if locked_by (in_flight s) = Some (Job n)
     then Some (s\<lparr>in_flight := lock_release (in_flight s), handled := handled s @ [n]\<rparr>) else None)"
| "run_step Signal s = Some (s\<lparr>stop_set := True\<rparr>)"
| "run_step Stop_seen s = (if phase s = Consuming_messages \<and> stop_set s then Some (s\<lparr>phase := Cancelling\<rparr>) else None)"
| "run_step (Cancel_answered r) s = (if phase s = Cancelling then Some (case r of
       Inl e \<Rightarrow> s\<lparr>phase := Left_failing\<rparr>
     | Inr _ \<Rightarrow> s\<lparr>phase := Waiting_for_lock, in_flight := lock_acquire Runner (in_flight s)\<rparr>) else None)"
| "run_step Lock_acquired s = (if phase s = Waiting_for_lock \<and> locked_by (in_flight s) = Some Runner
     then Some (s\<lparr>phase := Left_cleanly\<rparr>) else None)"
| "run_step Grace_over s = (if phase s = Waiting_for_lock \<and> locked_by (in_flight s) \<noteq> Some Runner
     then Some (s\<lparr>phase := Left_late, in_flight := lock_cancel Runner (in_flight s)\<rparr>) else None)"

fun run_events :: "run_event list \<Rightarrow> run_state \<Rightarrow> run_state option" where
  "run_events [] s = Some s"
| "run_events (e # es) s = Option.bind (run_step e s) (run_events es)"

inductive run_reach :: "run_state \<Rightarrow> bool" where
  init: "run_reach run_init"
| step: "run_reach s \<Longrightarrow> run_step e s = Some s' \<Longrightarrow> run_reach s'"

lemma run_reach_events: "run_events es s = Some s' \<Longrightarrow> run_reach s \<Longrightarrow> run_reach s'"
  by (induction es arbitrary: s) (auto simp: bind_eq_Some_conv intro: run_reach.step)

subsection \<open>Where every message is\<close>

definition jobs_in :: "party list \<Rightarrow> nat multiset" where
  "jobs_in ps = mset (concat (map (\<lambda>p. case p of Job n \<Rightarrow> [n] | Runner \<Rightarrow> []) ps))"

definition half_handled :: "run_state \<Rightarrow> nat list" where
  \<comment> \<open>the messages whose handler is between its first and its last step\<close>
  "half_handled s = (case locked_by (in_flight s) of Some (Job n) \<Rightarrow> [n] | _ \<Rightarrow> [])"

definition queued_up :: "run_state \<Rightarrow> nat multiset" where
  \<comment> \<open>the messages no step of \<open>handle_message\<close> has been made for\<close>
  "queued_up s = mset (not_started s) + jobs_in (lock_waiters (in_flight s))"

lemma jobs_in_simps [simp]:
  "jobs_in [] = {#}" "jobs_in (Job n # ps) = add_mset n (jobs_in ps)" "jobs_in (Runner # ps) = jobs_in ps"
  "jobs_in (ps @ qs) = jobs_in ps + jobs_in qs" "jobs_in (remove1 Runner ps) = jobs_in ps"
proof -
  show "jobs_in (remove1 Runner ps) = jobs_in ps"
    by (induction ps) (auto simp: jobs_in_def split: party.splits)
qed (simp_all add: jobs_in_def)

definition all_accounted :: "run_state \<Rightarrow> bool" where
  "all_accounted s \<longleftrightarrow> mset [0..<delivered s] = queued_up s + mset (half_handled s) + mset (handled s)"

definition runner_in_place :: "run_state \<Rightarrow> bool" where
  \<comment> \<open>\<open>run\<close> is at the lock only after the consumer is cancelled, and once\<close>
  "runner_in_place s \<longleftrightarrow> (case phase s of
       Waiting_for_lock \<Rightarrow> (if locked_by (in_flight s) = Some Runner then Runner \<notin> set (lock_waiters (in_flight s))
         else count (mset (lock_waiters (in_flight s))) Runner = 1)
     | Left_cleanly \<Rightarrow> locked_by (in_flight s) = Some Runner \<and> Runner \<notin> set (lock_waiters (in_flight s))
     | _ \<Rightarrow> locked_by (in_flight s) \<noteq> Some Runner \<and> Runner \<notin> set (lock_waiters (in_flight s)))"

lemmas lock_defs = lock_acquire_def lock_release_def lock_cancel_def lock_wake_def

lemma wake_cases:
  assumes "lock_wake l = Some l'"
  obtains p ps where "locked_by l = None" "lock_waiters l = p # ps" "l' = \<lparr>locked_by = Some p, lock_waiters = ps\<rparr>"
  using assms by (auto simp: lock_wake_def split: option.splits list.splits)

lemma all_accounted_step:
  assumes "run_step e s = Some s'" and ok: "all_accounted s"
  shows "all_accounted s'"
proof (cases e)
  case Arrive
  have "mset [0..<Suc k] = add_mset k (mset [0..<k])" for k by (simp del: mset_upt)
  then show ?thesis using assms Arrive
    by (auto simp: all_accounted_def queued_up_def half_handled_def simp del: mset_upt split: if_splits)
next
  case (Start n)
  then have n: "n \<in> set (not_started s)" "s' = s\<lparr>not_started := remove1 n (not_started s), in_flight := lock_acquire (Job n) (in_flight s)\<rparr>"
    using assms(1) by (simp_all split: if_splits)
  then have "add_mset n (mset (not_started s) - {#n#}) = mset (not_started s)" by simp
  then show ?thesis using ok n by (auto simp: all_accounted_def queued_up_def half_handled_def lock_acquire_def)
next
  case Wake
  then obtain l where "lock_wake (in_flight s) = Some l" "s' = s\<lparr>in_flight := l\<rparr>" using assms(1) by (auto split: if_splits)
  then show ?thesis using ok
    by (elim wake_cases) (auto simp: all_accounted_def queued_up_def half_handled_def split: party.split)
next
  case (Cancel_answered r)
  then show ?thesis using assms
    by (cases r) (auto simp: all_accounted_def queued_up_def half_handled_def lock_acquire_def split: if_splits)
qed (use assms in \<open>auto simp: all_accounted_def queued_up_def half_handled_def lock_release_def lock_cancel_def split: if_splits\<close>)

lemma runner_in_place_step:
  assumes "run_step e s = Some s'" and ok: "runner_in_place s"
  shows "runner_in_place s'"
proof (cases e)
  case (Start n)
  then have "s' = s\<lparr>not_started := remove1 n (not_started s), in_flight := lock_acquire (Job n) (in_flight s)\<rparr>"
    using assms(1) by (simp split: if_splits)
  then show ?thesis using ok by (cases "phase s") (auto simp: runner_in_place_def lock_acquire_def)
next
  case Wake
  then obtain l where "lock_wake (in_flight s) = Some l" "s' = s\<lparr>in_flight := l\<rparr>" using assms(1) by (auto split: if_splits)
  then show ?thesis using ok
    by (elim wake_cases) (cases "phase s"; auto simp: runner_in_place_def not_in_iff split: if_splits)
next
  case (Handled n)
  then show ?thesis using assms by (cases "phase s") (auto simp: runner_in_place_def lock_release_def split: if_splits)
next
  case (Cancel_answered r)
  then show ?thesis using assms
    by (cases r) (auto simp: runner_in_place_def lock_acquire_def not_in_iff split: if_splits)
next
  case Grace_over
  have "count (mset (remove1 Runner ws)) Runner = 0" if "count (mset ws) Runner = 1" for ws using that by simp
  then have "Runner \<notin> set (remove1 Runner ws)" if "count (mset ws) Runner = 1" for ws
    using that by (metis count_eq_zero_iff set_mset_mset)
  then show ?thesis using assms Grace_over by (auto simp: runner_in_place_def lock_cancel_def simp del: count_mset split: if_splits)
qed (use assms in \<open>auto simp: runner_in_place_def split: if_splits run_phase.splits\<close>)

lemma run_reach_inv: "run_reach s \<Longrightarrow> all_accounted s \<and> runner_in_place s"
proof (induction rule: run_reach.induct)
  case init
  show ?case by (simp add: run_init_def all_accounted_def queued_up_def half_handled_def runner_in_place_def)
qed (blast intro: all_accounted_step runner_in_place_step)

subsection \<open>Leaving\<close>

definition own_event :: "run_event \<Rightarrow> bool" where
  \<comment> \<open>a handler's end, or a step of the worker's own event loop\<close>
  "own_event e \<longleftrightarrow> e \<in> {Wake, Lock_acquired} \<union> range Handled"

definition steps_ahead :: "run_state \<Rightarrow> nat" where
  "steps_ahead s = 2 * length (lock_waiters (in_flight s)) + (if locked_by (in_flight s) = None then 0 else 1)"

lemma next_in_line:
  assumes "phase s = Waiting_for_lock" and "runner_in_place s" and "locked_by (in_flight s) \<noteq> Some Runner"
  obtains e t where "run_step e s = Some t" "own_event e" "phase t = Waiting_for_lock" "delivered t = delivered s"
    "steps_ahead s = Suc (steps_ahead t)"
proof (cases "locked_by (in_flight s)")
  case None
  have "lock_waiters (in_flight s) \<noteq> []" using assms by (auto simp: runner_in_place_def)
  then obtain p ps where "lock_waiters (in_flight s) = p # ps" by (cases "lock_waiters (in_flight s)") simp_all
  with None assms(1) show ?thesis
    by (intro that [of Wake "s\<lparr>in_flight := \<lparr>locked_by = Some p, lock_waiters = ps\<rparr>\<rparr>"])
      (simp_all add: lock_wake_def own_event_def steps_ahead_def)
next
  case (Some p)
  with assms(3) obtain n where "p = Job n" by (cases p) simp_all
  with Some assms(1) show ?thesis
    by (intro that [of "Handled n" "s\<lparr>in_flight := lock_release (in_flight s), handled := handled s @ [n]\<rparr>"])
      (simp_all add: lock_release_def own_event_def steps_ahead_def)
qed

lemma can_leave:
  assumes "phase s = Waiting_for_lock" and "runner_in_place s"
  shows "\<exists>es s'. run_events es s = Some s' \<and> phase s' = Left_cleanly \<and> list_all own_event es \<and>
    delivered s' = delivered s \<and> length es \<le> steps_ahead s + 1"
  using assms
proof (induction "steps_ahead s" arbitrary: s rule: less_induct)
  case less
  show ?case
  proof (cases "locked_by (in_flight s) = Some Runner")
    case True
    then show ?thesis using less.prems(1)
      by (intro exI [of _ "[Lock_acquired]"] exI [of _ "s\<lparr>phase := Left_cleanly\<rparr>"]) (simp add: own_event_def)
  next
    case False
    from next_in_line [OF less.prems False] obtain e t where t: "run_step e s = Some t" "own_event e"
      "phase t = Waiting_for_lock" "delivered t = delivered s" "steps_ahead s = Suc (steps_ahead t)" by blast
    from less.hyps [OF _ t(3) runner_in_place_step [OF t(1) less.prems(2)]] t(5)
    obtain es s' where "run_events es t = Some s'" "phase s' = Left_cleanly" "list_all own_event es"
      "delivered s' = delivered t" "length es \<le> steps_ahead t + 1" by auto
    then show ?thesis using t by (intro exI [of _ "e # es"] exI [of _ s']) simp
  qed
qed

text \<open>
  C30. A shutdown cuts off no job it did not have to. In every order of deliveries, task starts,
  signals and answers: every delivered message has been handled once, or is in the middle of it,
  or no step of its handler has been made, and never two are in the middle. When \<open>run\<close> leaves
  because it got the lock, none is in the middle: what was begun is finished, and the rest is
  unsettled, for the broker to redeliver; and so it stays while the connection is being closed. Once the consumer is cancelled no message comes in any
  more, and \<open>run\<close> can always leave like this: it takes the ends of the handlers in line and the
  steps of its own event loop, at most two for each waiting task and two more.
\<close>

theorem shutdown_cuts_no_job:
  assumes reach: "run_reach s"
  shows "mset [0..<delivered s] = queued_up s + mset (half_handled s) + mset (handled s) \<and> length (half_handled s) \<le> 1 \<and>
    (phase s = Left_cleanly \<longrightarrow> half_handled s = [] \<and> distinct (handled s)) \<and>
    (phase s = Waiting_for_lock \<longrightarrow> run_step Arrive s = None \<and>
      (\<exists>es s'. run_events es s = Some s' \<and> phase s' = Left_cleanly \<and> list_all own_event es \<and>
        delivered s' = delivered s \<and> length es \<le> 2 * length (lock_waiters (in_flight s)) + 2))"
proof (intro conjI impI)
  have inv: "all_accounted s" "runner_in_place s" using run_reach_inv [OF reach] by simp_all
  show mset: "mset [0..<delivered s] = queued_up s + mset (half_handled s) + mset (handled s)"
    using inv(1) by (simp only: all_accounted_def)
  show "length (half_handled s) \<le> 1" by (simp add: half_handled_def split: option.split party.split)
  have "count (mset [0..<delivered s]) a \<le> 1" for a
    using distinct_count_atmost_1 [THEN iffD1, OF distinct_upt [of 0 "delivered s"]] by simp
  then have "count (mset (handled s)) a \<le> 1" for a unfolding mset count_union by (meson add_leE)
  then have "count (mset (handled s)) a = (if a \<in> set (handled s) then 1 else 0)" for a
    by (metis One_nat_def count_eq_zero_iff le_Suc_eq le_zero_eq set_mset_mset)
  then show "distinct (handled s)" by (simp add: distinct_count_atmost_1)
  show "half_handled s = []" if "phase s = Left_cleanly" using inv(2) that by (simp add: runner_in_place_def half_handled_def)
  show "run_step Arrive s = None" if "phase s = Waiting_for_lock" using that by simp
  show "\<exists>es s'. run_events es s = Some s' \<and> phase s' = Left_cleanly \<and> list_all own_event es \<and>
      delivered s' = delivered s \<and> length es \<le> 2 * length (lock_waiters (in_flight s)) + 2"
    if "phase s = Waiting_for_lock"
    using can_leave [OF that inv(2)] by (fastforce simp: steps_ahead_def split: if_splits)
qed

theorem shutdown_cuts_no_job_witness:
  "\<exists>s. run_events [Arrive, Start 0, Signal, Stop_seen, Arrive, Cancel_answered (Inr ()), Start 1, Handled 0, Wake, Lock_acquired]
      run_init = Some s \<and> handled s = [0] \<and> half_handled s = [] \<and> queued_up s = {#1#}"
proof -
  let ?es = "[Arrive, Start 0, Signal, Stop_seen, Arrive, Cancel_answered (Inr ()), Start 1, Handled 0, Wake, Lock_acquired]"
  let ?s = "\<lparr>phase = Left_cleanly, stop_set = True, in_flight = \<lparr>locked_by = Some Runner, lock_waiters = [Job 1]\<rparr>,
    delivered = 2, not_started = [], handled = [0]\<rparr>"
  have run: "run_events ?es run_init = Some ?s"
    by (simp add: run_init_def lock_acquire_def lock_release_def lock_wake_def)
  from shutdown_cuts_no_job [OF run_reach_events [OF run run_reach.init]]
  have "half_handled ?s = []" by simp
  then show ?thesis using run by (simp add: queued_up_def)
qed

end
