(* ===== verification/System_Stranded.thy ===== *)
theory System_Stranded
  imports System_Bounds System_Progress System_Refinement
begin

text \<open>
  What becomes of a job that nothing in the system has to do with any more: the counterpart of
  \<open>System_Progress\<close>, without any assumption on the timing.
\<close>

subsection \<open>What a stranded job is\<close>

definition concerns :: "(json \<Rightarrow> string) \<Rightarrow> string \<Rightarrow> handler \<Rightarrow> bool" where
  "concerns repr i h \<longleftrightarrow> job_of h = Some i \<or> (\<exists>m. msg_of h = Some m \<and> about repr m i)"

definition forgotten :: "(json \<Rightarrow> string) \<Rightarrow> sys \<Rightarrow> string \<Rightarrow> bool" where
  \<comment> \<open>no message in the work or the retry queue, no worker and no upload has to do with the job\<close>
  "forgotten repr s i \<longleftrightarrow> i \<in> set (drawn s) \<and>
     (\<forall>m \<in> set (ready s) \<union> set (retryq s). \<not> about repr m i) \<and>
     (\<forall>w. \<not> concerns repr i (handler_of s w) \<and> (\<forall>m. unsettled s w = Some m \<longrightarrow> \<not> about repr m i)) \<and>
     (\<forall>u \<in> set (uploads s). upload_id u \<noteq> i)"

definition outcome_fields :: "string \<Rightarrow> table \<Rightarrow> (job_status \<times> int \<times> string option \<times> transcript option) option" where
  "outcome_fields i t = map_option (\<lambda>j. (status j, attempts j, job_error j, job_transcript j)) (table_rows t i)"

lemma outcome_progress [simp]: "outcome_fields i (update_progress now k x t) = outcome_fields i t"
  by (auto simp: outcome_fields_def statement_rows option.map_comp comp_def intro!: option.map_cong0)

lemma concerns_simps [simp]:
  "\<not> concerns repr i Idle"
  "concerns repr i (start_failure m k e) \<Longrightarrow> k = i \<or> about repr m i"
  using start_failure_cases [of m k e] by (auto simp: concerns_def)

lemma about_start: "concerns repr i (start_handler repr m) \<Longrightarrow> about repr m i"
  by (auto simp: concerns_def start_handler_def about_def split: option.splits)

fun op_about :: "(json \<Rightarrow> string) \<Rightarrow> string \<Rightarrow> broker_op \<Rightarrow> bool" where
  "op_about repr i (Publish e k m ttl) = about repr m i"
| "op_about repr i _ = False"

text \<open>A handler that has nothing to do with the job leaves its row and its messages alone.\<close>

lemma worker_step_elsewhere:
  assumes "\<not> concerns repr i h" and "worker_step now a h t = (h', t', ops)"
  shows "\<not> concerns repr i h' \<and> table_rows t' i = table_rows t i \<and> (\<forall>op \<in> set ops. \<not> op_about repr i op)"
proof (cases h)
  case (Reading_status m k p)
  then show ?thesis using assms by (cases a) (auto simp: concerns_def split: option.splits if_splits)
qed (use assms concerns_simps(2) [of repr i] in \<open>cases a; fastforce simp: concerns_def statement_rows\<close>)+

lemma forgotten_updates:
  "forgotten repr (s\<lparr>jobs := t\<rparr>) i = forgotten repr s i"
  "forgotten repr (s\<lparr>deadq := q\<rparr>) i = forgotten repr s i"
  "forgotten repr (s\<lparr>given_up := g\<rparr>) i = forgotten repr s i"
  by (simp_all add: forgotten_def)

lemma forgotten_drop:
  assumes "forgotten repr s i"
  shows "forgotten repr (s\<lparr>uploads := drop_nth n (uploads s)\<rparr>) i"
    and "forgotten repr (s\<lparr>ready := drop_nth n (ready s)\<rparr>) i"
    and "forgotten repr (s\<lparr>retryq := drop_nth n (retryq s)\<rparr>) i"
  using assms in_drop_nth [of _ n "uploads s"] in_drop_nth [of _ n "ready s"] in_drop_nth [of _ n "retryq s"]
  by (simp_all add: forgotten_def) blast+

lemma forgotten_deliver:
  "\<not> about repr m i \<Longrightarrow> forgotten repr s i \<Longrightarrow> forgotten repr (fold (deliver_to m) qs s) i"
proof (induction qs arbitrary: s)
  case (Cons q qs)
  have "forgotten repr (deliver_to m q s) i" using Cons.prems by (auto simp: deliver_to_def forgotten_def)
  then show ?case using Cons by simp
qed simp

lemma forgotten_routed:
  assumes "\<not> about repr m i" and "forgotten repr s i"
  shows "forgotten repr (publish_to e k m s) i" and "forgotten repr (dead_letter q m s) i"
  unfolding publish_to_def dead_letter_def by (rule forgotten_deliver [OF assms])+

lemma forgotten_set_worker:
  assumes "forgotten repr s i" and "\<not> concerns repr i h" and "\<And>m. u = Some m \<Longrightarrow> \<not> about repr m i"
  shows "forgotten repr (set_worker w h u s) i"
  using assms by (auto simp: forgotten_def)

lemma forgotten_requeue:
  assumes "forgotten repr s i" and "\<not> concerns repr i h"
  shows "forgotten repr (requeue w h s) i"
proof -
  have u: "\<not> about repr m i" if "unsettled s w = Some m" for m using assms(1) that by (simp add: forgotten_def)
  have "forgotten repr (set_worker w h None s) i" using assms by (intro forgotten_set_worker) simp_all
  then show ?thesis using u by (auto simp: requeue_def forgotten_def split: option.split)
qed

lemma forgotten_broker_step:
  assumes "forgotten repr s i" and "\<not> op_about repr i op"
  shows "forgotten repr (broker_step w op s) i"
proof -
  have h: "\<not> concerns repr i (handler_of s w)" and u: "\<And>m. unsettled s w = Some m \<Longrightarrow> \<not> about repr m i"
    using assms(1) by (simp_all add: forgotten_def)
  note idle = forgotten_set_worker [OF assms(1) h, of None]
  show ?thesis
  proof (cases op)
    case (Nack again)
    then show ?thesis using idle u forgotten_requeue [OF assms(1) h] assms(1)
      by (auto simp: forgotten_updates split: option.split)
  qed (use assms idle forgotten_routed in auto)
qed

lemma forgotten_broker_steps:
  "forgotten repr s i \<Longrightarrow> \<forall>op \<in> set ops. \<not> op_about repr i op \<Longrightarrow> forgotten repr (fold (broker_step w) ops s) i"
  by (induction ops arbitrary: s) (simp_all add: forgotten_broker_step)

lemma deliver_fold_jobs [simp]: "jobs (fold (deliver_to m) qs s) = jobs s"
  by (induction qs arbitrary: s) (simp_all add: deliver_to_def)

lemma broker_steps_jobs [simp]: "jobs (fold (broker_step w) ops s) = jobs s"
proof (induction ops arbitrary: s)
  case (Cons op ops)
  have "jobs (broker_step w op s) = jobs s"
    by (cases op) (auto simp: requeue_def publish_to_def dead_letter_def split: option.splits)
  with Cons show ?case by simp
qed simp

lemma frame_fold_deliver [simp]: "uploads (fold (deliver_to m) qs s) = uploads s"
  by (induction qs arbitrary: s) (simp_all add: deliver_to_def)

lemma frame_routed [simp]:
  "uploads (publish_to e k m s) = uploads s" "uploads (dead_letter q m s) = uploads s"
  "jobs (publish_to e k m s) = jobs s" "jobs (dead_letter q m s) = jobs s"
  by (simp_all add: publish_to_def dead_letter_def)

lemma frame_publishes [simp]:
  "uploads (fold (\<lambda>out. publish_to (ex out) (rk out) (msg out)) outs s) = uploads s"
  "jobs (fold (\<lambda>out. publish_to (ex out) (rk out) (msg out)) outs s) = jobs s"
  by (induction outs arbitrary: s) simp_all

lemma broker_steps_uploads [simp]: "uploads (fold (broker_step w) ops s) = uploads s"
proof (induction ops arbitrary: s)
  case (Cons op ops)
  have "uploads (broker_step w op s) = uploads s"
    by (cases op) (auto simp: requeue_def split: option.splits)
  with Cons show ?case by simp
qed simp

text \<open>The uploads at work have drawn their ids, and these are uuids.\<close>

definition uploads_drawn :: "sys \<Rightarrow> bool" where
  "uploads_drawn s \<longleftrightarrow>   (\<forall>u \<in> set (uploads s). upload_id u \<in> set (drawn s) \<and> py_uuid_ok (upload_id u))"

lemma uploads_drawn_shrinks:
  "set (uploads s') \<subseteq> set (uploads s) \<Longrightarrow> drawn s' = drawn s \<Longrightarrow> uploads_drawn s \<Longrightarrow> uploads_drawn s'"
  by (auto simp: uploads_drawn_def)

lemma drop_nth_subset: "set (drop_nth n xs) \<subseteq> set xs"
  by (rule subsetI) (rule in_drop_nth)

text \<open>What a publish changes: the upload's task, and the messages of the work queue.\<close>

lemma upload_publish_shape:
  assumes "sys_step repr (Upload_publish n ch oc) s = Some s'"
  obtains i p us ms where "Publishing i p \<in> set (uploads s)"
    and "s' = s\<lparr>uploads := us, ready := ready s @ ms\<rparr>"
    and "set us \<subseteq> insert (Undoing i p) (set (uploads s))" and "set ms \<subseteq> {from_api (job_out i p)}"
proof -
  obtain i p where n: "n < length (uploads s)" and task: "uploads s ! n = Publishing i p"
    using assms by (auto split: if_splits upload_task.splits)
  have mem: "Publishing i p \<in> set (uploads s)" using n task nth_mem by metis
  let ?U = "(uploads s)[n := Undoing i p]" and ?m = "from_api (job_out i p)"
  consider "s' = s\<lparr>uploads := drop_nth n (uploads s), ready := ready s @ [?m]\<rparr>"
    | "s' = s\<lparr>uploads := ?U, ready := ready s @ []\<rparr>" | "s' = s\<lparr>uploads := ?U, ready := ready s @ [?m]\<rparr>"
    using assms n task by (cases ch; cases oc) (simp_all add: publish_job_eq job_out_def)
  then show thesis
  proof cases
    case 1
    then show thesis by (rule that [OF mem]) (auto dest: in_drop_nth)
  next
    case 2
    then show thesis by (rule that [OF mem]) (auto dest: set_update_subset_insert [THEN subsetD])
  next
    case 3
    then show thesis by (rule that [OF mem]) (auto dest: set_update_subset_insert [THEN subsetD])
  qed
qed

lemma step_uploads_drawn:
  assumes "sys_step repr e s = Some s'" and "uploads_drawn s"
  shows "uploads_drawn s'"
proof (cases e)
  case (Upload_publish n ch oc)
  obtain i p us ms where "Publishing i p \<in> set (uploads s)"
    and "s' = s\<lparr>uploads := us, ready := ready s @ ms\<rparr>"
    and "set us \<subseteq> insert (Undoing i p) (set (uploads s))"
    using upload_publish_shape [OF assms(1) [unfolded Upload_publish]] .
  then show ?thesis using assms(2) by (fastforce simp: uploads_drawn_def)
next
  case (Upload_undo n a)
  have "set (uploads s') \<subseteq> set (uploads s)" "drawn s' = drawn s"
    using assms(1) drop_nth_subset [of n "uploads s"] Upload_undo by (auto split: if_splits upload_task.splits)
  then show ?thesis using assms(2) by (rule uploads_drawn_shrinks)
next
  case (Upload_dies n)
  have "set (uploads s') \<subseteq> set (uploads s)" "drawn s' = drawn s"
    using assms(1) drop_nth_subset [of n "uploads s"] Upload_dies by (auto split: if_splits)
  then show ?thesis using assms(2) by (rule uploads_drawn_shrinks)
qed (use assms in \<open>auto simp: uploads_drawn_def requeue_def
      split: if_splits upload_task.splits prod.splits sum.splits option.splits\<close>)

lemma reach_uploads_drawn: "sys_reach repr s \<Longrightarrow> uploads_drawn s"
proof (induction rule: sys_reach.induct)
  case init
  show ?case by (simp add: uploads_drawn_def sys_init_def)
qed (rule step_uploads_drawn)

text \<open>One step, by the part of the system that makes it.\<close>

lemma forgotten_upload_step:
  assumes "forgotten repr s i" and "uploads_drawn s" and "upload_event e" and "sys_step repr e s = Some s'"
  shows "forgotten repr s' i \<and> outcome_fields i (jobs s') = outcome_fields i (jobs s)"
proof (cases e)
  case (Upload k p name h now)
  then have "k \<noteq> i" using assms(1,4) by (auto simp: forgotten_def split: if_splits)
  then show ?thesis using assms(1,4) Upload
    by (auto simp: forgotten_def outcome_fields_def table_repository_def table_rows_append insert_row_def
        split: if_splits option.splits)
next
  case (Upload_publish n ch oc)
  obtain k p us ms where mem: "Publishing k p \<in> set (uploads s)"
    and s': "s' = s\<lparr>uploads := us, ready := ready s @ ms\<rparr>"
    and new: "set us \<subseteq> insert (Undoing k p) (set (uploads s))" "set ms \<subseteq> {from_api (job_out k p)}"
    using upload_publish_shape [OF assms(4) [unfolded Upload_publish]] .
  have k: "k \<noteq> i" "py_uuid_ok k" using mem assms(1,2) by (auto simp: forgotten_def uploads_drawn_def)
  have "\<not> about repr m i" if "m \<in> set ms" for m using that new(2) k about_from_api [OF k(2)] by auto
  moreover have "upload_id u \<noteq> i" if "u \<in> set us" for u
    using that new(1) k(1) assms(1) by (auto simp: forgotten_def)
  ultimately show ?thesis using assms(1) by (auto simp: forgotten_def s')
next
  case (Upload_undo n a)
  then obtain k p where u: "n < length (uploads s)" "uploads s ! n = Undoing k p"
    using assms(4) by (auto split: if_splits upload_task.splits)
  have "k \<noteq> i" using u nth_mem [of n "uploads s"] assms(1) by (auto simp: forgotten_def)
  moreover have "forgotten repr (s\<lparr>uploads := drop_nth n (uploads s)\<rparr>) i"
    by (rule forgotten_drop(1) [OF assms(1)])
  ultimately show ?thesis using assms(4) u Upload_undo
    by (cases a) (auto simp: forgotten_def outcome_fields_def table_repository_def table_rows_filter)
next
  case (Upload_dies n)
  then show ?thesis using assms(4) forgotten_drop(1) [OF assms(1), of n]
    by (auto simp: forgotten_updates forgotten_def split: if_splits)
qed (use assms(3) in auto)

lemma forgotten_step:
  assumes "forgotten repr s i" and "uploads_drawn s" and "sys_step repr e s = Some s'"
  shows "forgotten repr s' i \<and> outcome_fields i (jobs s') = outcome_fields i (jobs s)"
proof (cases e)
  case (Deliver w n)
  then have n: "n < length (ready s)" and s': "s' = (set_worker w (start_handler repr (ready s ! n))
      (Some (ready s ! n)) s)\<lparr>ready := drop_nth n (ready s)\<rparr>"
    using assms(3) by (auto split: if_splits)
  have m: "\<not> about repr (ready s ! n) i" using n assms(1) by (simp add: forgotten_def)
  have "forgotten repr (set_worker w (start_handler repr (ready s ! n)) (Some (ready s ! n)) s) i"
    using m about_start by (intro forgotten_set_worker assms(1)) auto
  from forgotten_drop(2) [OF this, of n] show ?thesis using s' by simp
next
  case (Await w now a)
  with assms(3) obtain h t ops where w: "worker_step now a (handler_of s w) (jobs s) = (h, t, ops)"
    and s': "s' = fold (broker_step w) ops (set_worker w h (unsettled s w) (s\<lparr>jobs := t\<rparr>))"
    using await_cases by metis
  have "\<not> concerns repr i (handler_of s w)" and u: "\<And>m. unsettled s w = Some m \<Longrightarrow> \<not> about repr m i"
    using assms(1) by (simp_all add: forgotten_def)
  note elsewhere = worker_step_elsewhere [OF this(1) w]
  have "forgotten repr (set_worker w h (unsettled s w) (s\<lparr>jobs := t\<rparr>)) i"
    using elsewhere u assms(1) by (intro forgotten_set_worker) (simp_all add: forgotten_updates)
  then show ?thesis unfolding s' using elsewhere by (simp add: forgotten_broker_steps outcome_fields_def)
next
  case (Progress now k x)
  then show ?thesis using assms(1,3) by (auto simp: forgotten_updates)
next
  case (Expire n)
  then have n: "n < length (retryq s)"
    and s': "s' = dead_letter RETRY_QUEUE (retryq s ! n) (s\<lparr>retryq := drop_nth n (retryq s)\<rparr>)"
    using assms(3) by (auto split: if_splits)
  have "\<not> about repr (retryq s ! n) i" using n assms(1) by (simp add: forgotten_def)
  moreover have "forgotten repr (s\<lparr>retryq := drop_nth n (retryq s)\<rparr>) i"
    by (rule forgotten_drop(3) [OF assms(1)])
  ultimately have "forgotten repr s' i" unfolding s' by (rule forgotten_routed(2))
  then show ?thesis by (simp add: s')
next
  case (Connection_lost w)
  then show ?thesis using assms(1,3) forgotten_requeue [OF assms(1), of "handler_of s w" w]
    by (auto simp: forgotten_def requeue_def split: option.splits)
next
  case (Crash w)
  then show ?thesis using assms(1,3) forgotten_requeue [OF assms(1), of Idle w]
    by (auto simp: requeue_def split: option.splits)
qed (rule forgotten_upload_step [OF assms(1,2) _ assms(3)]; simp)+

lemma forgotten_run:
  assumes "sys_run repr es s = Some s'" and "sys_reach repr s" and "forgotten repr s i"
  shows "forgotten repr s' i \<and> outcome_fields i (jobs s') = outcome_fields i (jobs s)"
  using assms
proof (induction es arbitrary: s)
  case (Cons e es)
  from Cons.prems(1) obtain s1 where s1: "sys_step repr e s = Some s1" "sys_run repr es s1 = Some s'"
    by (auto simp: bind_eq_Some_conv)
  note one = forgotten_step [OF Cons.prems(3) reach_uploads_drawn [OF Cons.prems(2)] s1(1)]
  have "sys_reach repr s1" by (rule sys_reach.step [OF Cons.prems(2) s1(1)])
  from Cons.IH [OF s1(2) this] one show ?case by simp
qed simp

text \<open>
  C12. A forgotten job stays as it is for ever. If a job has no message in the work or the retry
  queue, and no worker and no upload has anything to do with it, then in every run of the system
  from there, with whatever uploads, deliveries, retries, crashes and failures, it is never picked
  up again: its status, attempts, error and transcript never change. So the queue is the only thing
  that moves a job, nothing recovers one from the table, and no handler touches a row that is not
  its message's. A queued or processing job can get into this state in three ways, which the
  witness gives: a retry recorded after its copy was handled, a worker that outlives its
  connection, and an API process that dies before it publishes.
\<close>

theorem stranded_forever:
  assumes "sys_reach repr s" and "forgotten repr s i" and "sys_run repr es s = Some s'"
  shows "forgotten repr s' i \<and>
    map_option (\<lambda>j. (status j, attempts j, job_error j, job_transcript j)) (table_rows (jobs s') i) =
    map_option (\<lambda>j. (status j, attempts j, job_error j, job_transcript j)) (table_rows (jobs s) i)"
  using forgotten_run [OF assms(3,1,2)] by (simp add: outcome_fields_def)

lemma run_drawn: "sys_run repr es s = Some s' \<Longrightarrow> set (drawn s) \<subseteq> set (drawn s')"
proof (induction es arbitrary: s)
  case (Cons e es)
  from Cons.prems obtain s1 where s1: "sys_step repr e s = Some s1" "sys_run repr es s1 = Some s'"
    by (auto simp: bind_eq_Some_conv)
  show ?case using step_given_up(2) [OF s1(1)] Cons.IH [OF s1(2)] by blast
qed simp

lemma quiet_forgotten: "quiet s \<Longrightarrow> i \<in> set (drawn s) \<Longrightarrow> forgotten repr s i"
  by (simp add: quiet_def forgotten_def)

lemma first_upload_drawn:
  assumes "sys_run repr (Upload i p name h now # es) s = Some s'"
  shows "i \<in> set (drawn s')"
proof -
  obtain s1 where "sys_step repr (Upload i p name h now) s = Some s1" "sys_run repr es s1 = Some s'"
    using assms by (auto simp: bind_eq_Some_conv simp del: sys_step.simps)
  then show ?thesis using run_drawn [of repr es s1 s'] by (auto split: if_splits sum.splits prod.splits)
qed

definition ends_stranded :: "(json \<Rightarrow> string) \<Rightarrow> event list \<Rightarrow> job_status \<Rightarrow> event list \<Rightarrow> bool" where
  \<comment> \<open>the first events leave the sample job with the status, and the later ones keep it\<close>
  "ends_stranded repr es st later \<longleftrightarrow> (case sys_run repr es sys_init of None \<Rightarrow> False | Some s \<Rightarrow>
     get_status sample_uuid (jobs s) = Some st \<and>
     (case sys_run repr later s of None \<Rightarrow> True | Some s' \<Rightarrow> get_status sample_uuid (jobs s') = Some st))"

theorem stranded_forever_witness:
  "\<forall>repr tr later. ends_stranded repr (take_events @ late_record_events tr) Queued later \<and>
    ends_stranded repr (take_events @ lost_connection_events tr) Processing later \<and>
    ends_stranded repr [Upload sample_uuid ''/data/a.mp3'' ''a.mp3'' None 1, Upload_dies 0] Queued later"
proof (intro allI)
  fix repr tr later
  have stay: "ends_stranded repr es st later"
    if run: "sys_run repr es sys_init = Some s" and q: "quiet s" "sample_uuid \<in> set (drawn s)"
      and st: "get_status sample_uuid (jobs s) = Some st" for es s st
  proof (cases "sys_run repr later s")
    case (Some s')
    have reach: "sys_reach repr s" by (rule sys_reach_run [OF run sys_reach.init])
    show ?thesis using stranded_forever [OF reach quiet_forgotten [OF q] Some] run st Some
      by (auto simp: ends_stranded_def get_status_def map_option_case split: option.splits)
  qed (use run st in \<open>simp add: ends_stranded_def\<close>)
  note drawn = first_upload_drawn [of repr sample_uuid "''/data/a.mp3''" "''a.mp3''" None 1]
  have take: "take_events @ es = Upload sample_uuid ''/data/a.mp3'' ''a.mp3'' None 1 # tl take_events @ es" for es
    by (simp add: take_events_def)
  obtain s where "sys_run repr (take_events @ late_record_events tr) sys_init = Some s" "quiet s"
    "get_status sample_uuid (jobs s) = Some Queued"
    using late_record_strands_job [of repr tr] by (auto simp: get_status_def)
  then have "ends_stranded repr (take_events @ late_record_events tr) Queued later"
    using stay drawn [of _ sys_init s] take by metis
  moreover obtain s where "sys_run repr (take_events @ lost_connection_events tr) sys_init = Some s" "quiet s"
    "get_status sample_uuid (jobs s) = Some Processing"
    using lost_connection_strands_job [of repr tr] by (auto simp: get_status_def)
  then have "ends_stranded repr (take_events @ lost_connection_events tr) Processing later"
    using stay drawn [of _ sys_init s] take by metis
  moreover have "ends_stranded repr [Upload sample_uuid ''/data/a.mp3'' ''a.mp3'' None 1, Upload_dies 0] Queued later"
    using dead_upload_strands_job [of repr] stay drawn [of "[Upload_dies 0]" sys_init] by blast
  ultimately show "ends_stranded repr (take_events @ late_record_events tr) Queued later \<and>
    ends_stranded repr (take_events @ lost_connection_events tr) Processing later \<and>
    ends_stranded repr [Upload sample_uuid ''/data/a.mp3'' ''a.mp3'' None 1, Upload_dies 0] Queued later" by blast
qed

end
