(* ===== verification/Temp_Files.thy ===== *)
theory Temp_Files
  imports Pipeline
begin

text \<open>
  The files \<open>run_pipeline\<close> leaves on disk on its way: the temporary directory of \<open>worker/main.py\<close>, the
  normalized file and the slices of \<open>worker/audio.py\<close>, read and deleted by the loop of
  \<open>worker/transcriber.py\<close>. A run is that of \<open>Pipeline\<close> with its file operations in order.

  ffmpeg writes to its output path only, and may leave something there even when it fails; deleting
  a slice may raise. The temporary directory is new and is removed, with what is in it, however the
  \<open>with\<close> block ends.
\<close>

subsection \<open>Operations on the disk\<close>

datatype file_op =
    Written string         \<comment> \<open>a command has had this output path\<close>
  | Listened string        \<comment> \<open>whisper reads the file\<close>
  | Deleted_file string
  | Removed_tree string    \<comment> \<open>the directory\<close>

type_synonym disk = "string set"

definition inside :: "string \<Rightarrow> string \<Rightarrow> bool" where
  "inside dir p \<longleftrightarrow> prefix (dir @ ''/'') p"

fun disk_step :: "file_op \<Rightarrow> disk \<Rightarrow> disk" where
  "disk_step (Written p) d = insert p d"
| "disk_step (Listened p) d = d"
| "disk_step (Deleted_file p) d = d - {p}"
| "disk_step (Removed_tree dir) d = {p \<in> d. \<not> inside dir p}"

definition disk_after :: "file_op list \<Rightarrow> disk \<Rightarrow> disk" where
  "disk_after = fold disk_step"

lemma disk_after_simps [simp]:
  "disk_after [] d = d" "disk_after (e # es) d = disk_after es (disk_step e d)"
  "disk_after (es @ es') d = disk_after es' (disk_after es d)"
  by (simp_all add: disk_after_def)

subsection \<open>The pipeline with its file operations\<close>

definition slice_path :: "string \<Rightarrow> nat \<Rightarrow> string" where
  "slice_path src index = join_path (parent_of src) (chunk_name index)"

fun chunk_loop_files :: "(string \<Rightarrow> (py_exception, unit) result) \<Rightarrow> transcriber_env \<Rightarrow> string \<Rightarrow> nat \<Rightarrow>
    (nat \<times> f64 \<times> f64) list \<Rightarrow> raw_segment list \<Rightarrow> string option \<Rightarrow>
    (py_exception, raw_segment list \<times> string option) result \<times> f64 list \<times> file_op list" where
  "chunk_loop_files unlink env wav n_chunks [] merged lang = (Inr (merged, lang), [], [])"
| "chunk_loop_files unlink env wav n_chunks ((index, start, len) # cs) merged lang =
    (let cut = (if n_chunks = 1 then [] else [Written (slice_path wav index)]) in
     case chunk_path env wav n_chunks (index, start, len) of Inl e \<Rightarrow> (Inl e, [], cut)
     | Inr path \<Rightarrow> (case transcribe_wav env path len of (r, fractions) \<Rightarrow>
         let reports = map (scaled_progress index n_chunks) fractions in
         (case r of Inl e \<Rightarrow> (Inl e, reports, cut @ [Listened path])
          | Inr (raw, chunk_language) \<Rightarrow>
              (case (if path \<noteq> wav then unlink path else Inr ()) of Inl e \<Rightarrow> (Inl e, reports, cut @ [Listened path])
               | Inr _ \<Rightarrow> (case chunk_loop_files unlink env wav n_chunks cs (merged @ offset_segments raw start)
                    (Some (py_or lang chunk_language)) of
                  (result, later, ops) \<Rightarrow> (result, reports @ later,
                    cut @ [Listened path] @ (if path \<noteq> wav then [Deleted_file path] else []) @ ops))))))"

definition transcribe_files :: "(string \<Rightarrow> (py_exception, unit) result) \<Rightarrow> transcriber_env \<Rightarrow> string \<Rightarrow> f64 \<Rightarrow>
    ((py_exception, transcript) result \<times> f64 list \<times> file_op list) option" where
  "transcribe_files unlink env wav dur = (case load_model env of Inl e \<Rightarrow> Some (Inl e, [], [])
   | Inr _ \<Rightarrow>
     Option.bind (if dur > of_int (chunk_threshold_sec env) then plan_chunks dur (chunk_sec env) else Some [(0, dur)])
       (\<lambda>chunks. case chunk_loop_files unlink env wav (length chunks) (enumerate 0 chunks) [] None of
          (r, reports, ops) \<Rightarrow>
          Some (map_sum id (\<lambda>(merged, lang). build_transcript (shape_segments merged) (py_or lang ''unknown'') dur) r,
            reports, ops)))"

definition run_pipeline_files :: "(string \<Rightarrow> (py_exception, unit) result) \<Rightarrow> subprocess \<Rightarrow> (f64 \<Rightarrow> string) \<Rightarrow>
    transcriber_env \<Rightarrow> (py_exception, string) result \<Rightarrow> string \<Rightarrow> pipeline_end \<times> file_op list" where
  \<comment> \<open>a run that does not end leaves its operations open; none are claimed\<close>
  "run_pipeline_files unlink sp show_float env tmp file_path =
    (case fst (probe sp file_path) of Inl e \<Rightarrow> (Ended (Inl e) [], [])
     | Inr _ \<Rightarrow> (case tmp of Inl e \<Rightarrow> (Ended (Inl e) [], [])
     | Inr tmp_dir \<Rightarrow> (let wav = join_path tmp_dir ''normalized.wav'' in
         case fst (normalize sp file_path tmp_dir) of Inl e \<Rightarrow> (Ended (Inl e) [], [Written wav, Removed_tree tmp_dir])
         | Inr wav_path \<Rightarrow> (case fst (probe sp wav_path) of
             Inl e \<Rightarrow> (Ended (Inl e) [], [Written wav, Removed_tree tmp_dir])
           | Inr (Finite d) \<Rightarrow> (case transcribe_files unlink (pipeline_env sp show_float env) wav_path d of
               None \<Rightarrow> (Endless, [Written wav])
             | Some (r, reports, ops) \<Rightarrow> (Ended r reports, Written wav # ops @ [Removed_tree tmp_dir]))
           | Inr _ \<Rightarrow> (Not_finite, [Written wav])))))"

subsection \<open>It is the pipeline\<close>

lemma chunk_loop_files_result:
  assumes "\<And>p. unlink p = Inr ()"
  shows "chunk_loop env wav n cs merged lang =
    (case chunk_loop_files unlink env wav n cs merged lang of (r, reports, _) \<Rightarrow> (r, reports))"
proof (induction cs arbitrary: merged lang)
  case (Cons c cs)
  obtain index start len where "c = (index, start, len)" by (cases c)
  then show ?case using Cons.IH assms by (auto simp: Let_def split: sum.split prod.split)
qed simp

lemma transcribe_files_result:
  assumes "\<And>p. unlink p = Inr ()"
  shows "transcribe env wav dur = map_option (\<lambda>(r, reports, _). (r, reports)) (transcribe_files unlink env wav dur)"
proof -
  let ?plan = "if dur > of_int (chunk_threshold_sec env) then plan_chunks dur (chunk_sec env) else Some [(0, dur)]"
  show ?thesis
  proof (cases "load_model env")
    case (Inr u)
    show ?thesis
    proof (cases ?plan)
      case (Some chunks)
      obtain r reports ops where run:
        "chunk_loop_files unlink env wav (length chunks) (enumerate 0 chunks) [] None = (r, reports, ops)"
        by (cases rule: prod_cases3)
      then have "chunk_loop env wav (length chunks) (enumerate 0 chunks) [] None = (r, reports)"
        using chunk_loop_files_result [where unlink = unlink, OF assms, of env wav] by simp
      then show ?thesis
        unfolding transcribe_def transcribe_files_def Inr sum.case Some bind.bind_lunit run by simp
    qed (simp add: transcribe_def transcribe_files_def Inr)
  qed (simp add: transcribe_def transcribe_files_def)
qed

lemma run_pipeline_files_result:
  assumes "\<And>p. unlink p = Inr ()"
  shows "fst (run_pipeline_files unlink sp show_float env tmp file) = fst (run_pipeline sp show_float env tmp file)"
proof -
  have "transcribe_file env wav x = (case x of Finite d \<Rightarrow> (case transcribe_files unlink env wav d of
      None \<Rightarrow> Endless | Some (r, reports, ops) \<Rightarrow> Ended r reports) | _ \<Rightarrow> Not_finite)" for env wav x
    by (auto simp: transcribe_file_def transcribe_files_result [where unlink = unlink, OF assms] split: py_float.split option.split)
  then show ?thesis
    by (auto simp: run_pipeline_files_def run_pipeline_result Let_def split: sum.split option.split py_float.split)
qed

subsection \<open>What is on the disk\<close>

fun moments :: "(disk \<Rightarrow> file_op \<Rightarrow> bool) \<Rightarrow> disk \<Rightarrow> file_op list \<Rightarrow> bool" where
  \<comment> \<open>before every operation of a run\<close>
  "moments Q d [] = True"
| "moments Q d (e # es) = (Q d e \<and> moments Q (disk_step e d) es)"

definition tidy :: "string \<Rightarrow> disk \<Rightarrow> disk \<Rightarrow> file_op \<Rightarrow> bool" where
  \<comment> \<open>beside the files that were there, at most two in the directory; what is read exists\<close>
  "tidy dir D d e \<longleftrightarrow> D \<subseteq> d \<and> finite (d - D) \<and> card (d - D) \<le> 2 \<and> (\<forall>p \<in> d - D. inside dir p) \<and>
     (\<forall>p. e = Listened p \<longrightarrow> p \<in> d)"

lemma moments_append [simp]: "moments Q d (es @ es') \<longleftrightarrow> moments Q d es \<and> moments Q (disk_after es d) es'"
  by (induction es arbitrary: d) auto

lemma moments_around:
  "moments Q d xs \<Longrightarrow> moments Q (disk_after xs d) ys \<Longrightarrow> disk_after ys (disk_after xs d) = d \<Longrightarrow>
    moments Q d (xs @ ys @ zs) = moments Q d zs \<and> disk_after (xs @ ys @ zs) d = disk_after zs d"
  by simp

definition temp_dir :: "string \<Rightarrow> bool" where
  \<comment> \<open>a path as \<open>mkdtemp\<close> makes them\<close>
  "temp_dir dir \<longleftrightarrow> dir \<noteq> [] \<and> last dir \<noteq> CHR ''/''"

lemma temp_paths:
  assumes "temp_dir dir"
  shows "join_path dir ''normalized.wav'' = dir @ ''/normalized.wav''"
    and "slice_path (dir @ ''/normalized.wav'') i = dir @ ''/'' @ chunk_name i"
    and "slice_path (dir @ ''/normalized.wav'') i \<noteq> dir @ ''/normalized.wav''"
    and "inside dir (dir @ ''/normalized.wav'')" "inside dir (slice_path (dir @ ''/normalized.wav'') i)"
proof -
  have "parent_of (dir @ ''/normalized.wav'') = dir"
    using assms by (simp add: parent_of_def temp_dir_def)
  then show slice: "slice_path (dir @ ''/normalized.wav'') i = dir @ ''/'' @ chunk_name i"
    using assms by (simp add: slice_path_def join_path_def temp_dir_def)
  show "slice_path (dir @ ''/normalized.wav'') i \<noteq> dir @ ''/normalized.wav''"
    unfolding slice by (simp add: chunk_name_def)
  show "inside dir (slice_path (dir @ ''/normalized.wav'') i)" unfolding slice by (simp add: inside_def)
qed (use assms in \<open>simp_all add: join_path_def temp_dir_def inside_def\<close>)

lemma cut_path: "chunk_path (pipeline_env sp show_float env) wav n (i, start, len) = Inr p \<Longrightarrow>
    p = (if n = 1 then wav else slice_path wav i)"
  by (auto simp: chunk_path_def pipeline_env_def cut_wav_result slice_path_def Let_def result_iff split: if_splits)

lemma tidy_one:
  assumes "inside dir w" and "\<forall>p \<in> D. \<not> inside dir p"
  shows "tidy dir D (insert w D) e \<longleftrightarrow> (\<forall>p. e = Listened p \<longrightarrow> p \<in> insert w D)"
    and "inside dir s \<Longrightarrow> tidy dir D (insert s (insert w D)) e \<longleftrightarrow> (\<forall>p. e = Listened p \<longrightarrow> p \<in> insert s (insert w D))"
proof -
  have "insert w D - D \<subseteq> {w}" "insert s (insert w D) - D \<subseteq> {s, w}" by auto
  then have "finite (insert w D - D) \<and> card (insert w D - D) \<le> 2"
    "finite (insert s (insert w D) - D) \<and> card (insert s (insert w D) - D) \<le> 2"
    using card_mono [of "{w}" "insert w D - D"] card_mono [of "{s, w}" "insert s (insert w D) - D"]
      card_insert_le_m1 [of 2 "{w}" s] by (auto intro: finite_subset)
  then show "tidy dir D (insert w D) e \<longleftrightarrow> (\<forall>p. e = Listened p \<longrightarrow> p \<in> insert w D)"
    and "inside dir s \<Longrightarrow> tidy dir D (insert s (insert w D)) e \<longleftrightarrow> (\<forall>p. e = Listened p \<longrightarrow> p \<in> insert s (insert w D))"
    using assms by (auto simp: tidy_def)
qed

text \<open>One round of the loop: the slice is cut, read and deleted.\<close>

lemma chunk_loop_tidy:
  assumes dir: "temp_dir dir" and wav: "wav = dir @ ''/normalized.wav''" and new: "\<forall>p \<in> D. \<not> inside dir p"
    and run: "chunk_loop_files unlink (pipeline_env sp show_float env) wav n cs merged lang = (r, reports, ops)"
  shows "moments (tidy dir D) (insert wav D) ops \<and>
    (disk_after ops (insert wav D) = insert wav D \<or> (\<exists>i. disk_after ops (insert wav D) = insert (slice_path wav i) (insert wav D)))"
  using run
proof (induction cs arbitrary: merged lang r reports ops)
  case (Cons c cs)
  let ?env = "pipeline_env sp show_float env" and ?d = "insert wav D"
  obtain i start len where c: "c = (i, start, len)" by (cases c)
  let ?s = "slice_path wav i" and ?p = "if n = 1 then wav else slice_path wav i"
  let ?cut = "if n = 1 then [] else [Written ?s]"
  note paths = temp_paths(3) [OF dir, of i, folded wav] temp_paths(4) [OF dir, folded wav] temp_paths(5) [OF dir, of i, folded wav]
  note one = tidy_one [OF paths(2) new] tidy_one(2) [OF paths(2) new paths(3)]
  have fresh: "?s \<notin> ?d" using new paths by auto
  have cut: "moments (tidy dir D) ?d ?cut" "disk_after ?cut ?d = (if n = 1 then ?d else insert ?s ?d)"
    "moments (tidy dir D) ?d (?cut @ [Listened ?p])" using one by simp_all
  show ?case
  proof (cases "chunk_path ?env wav n c")
    case (Inl e)
    then have "ops = ?cut" using Cons.prems by (simp add: c Let_def)
    then show ?thesis using cut by auto
  next
    case (Inr path)
    then have path: "path = ?p" using cut_path [of sp show_float env wav n i start len path] by (simp add: c)
    obtain t fractions where w: "transcribe_wav ?env path len = (t, fractions)" by fastforce
    let ?del = "if path \<noteq> wav then unlink path else Inr ()"
    show ?thesis
    proof (cases "(\<exists>e. t = Inl e) \<or> (\<exists>e. ?del = Inl e)")
      case True
      then have "ops = ?cut @ [Listened ?p]"
        using Cons.prems Inr w path by (auto simp: c Let_def split: sum.splits prod.splits)
      then show ?thesis using cut by auto
    next
      case False
      then obtain raw l u where t: "t = Inr (raw, l)" and u: "?del = Inr u" by (cases t; cases ?del) auto
      obtain r' later ops' where rec: "chunk_loop_files unlink ?env wav n cs (merged @ offset_segments raw start)
          (Some (py_or lang l)) = (r', later, ops')" by (cases rule: prod_cases3)
      have ops: "ops = (?cut @ [Listened ?p]) @ (if n = 1 then [] else [Deleted_file ?s]) @ ops'"
        using Cons.prems Inr w t u rec path paths(1) by (auto simp: c Let_def split: if_splits)
      have gone: "disk_after (if n = 1 then [] else [Deleted_file ?s]) (disk_after (?cut @ [Listened ?p]) ?d) = ?d"
        "moments (tidy dir D) (disk_after (?cut @ [Listened ?p]) ?d) (if n = 1 then [] else [Deleted_file ?s])"
        using fresh one by auto
      from moments_around [OF cut(3) gone(2,1), of ops', folded ops] show ?thesis using Cons.IH [OF rec] by simp
    qed
  qed
qed simp

lemma transcribe_files_cases:
  assumes "transcribe_files unlink env wav x = Some (r, reports, ops)"
  obtains (no_model) "ops = []" | (ran) n cs r' where "chunk_loop_files unlink env wav n cs [] None = (r', reports, ops)"
proof (cases "load_model env")
  case (Inr u)
  let ?plan = "if x > of_int (chunk_threshold_sec env) then plan_chunks x (chunk_sec env) else Some [(0, x)]"
  from assms Inr obtain chunks where chunks: "?plan = Some chunks"
    by (cases ?plan) (simp_all add: transcribe_files_def)
  obtain r' rs ops' where run: "chunk_loop_files unlink env wav (length chunks) (enumerate 0 chunks) [] None = (r', rs, ops')"
    by (cases rule: prod_cases3)
  from assms have "rs = reports" "ops' = ops"
    unfolding transcribe_files_def Inr sum.case chunks bind.bind_lunit run by simp_all
  with run show ?thesis using ran by simp
qed (use assms no_model in \<open>simp add: transcribe_files_def\<close>)

text \<open>
  C18. The pipeline keeps the disk tidy. It computes what \<open>run_pipeline\<close> computes as long as deleting
  a slice does not raise. At every moment, and however its commands, whisper and the deletions
  answer, at most two files are on the disk that were not there before, all of them in its
  temporary directory: a file of any length is sliced one slice at a time. Whisper only reads what
  is there. Nothing that was there before is touched, the upload included, and when the run has
  ended, with a transcript or an exception, the disk is as it was.
\<close>

theorem pipeline_leaves_no_files:
  assumes "case tmp of Inl _ \<Rightarrow> True | Inr dir \<Rightarrow> temp_dir dir \<and> (\<forall>p \<in> D. \<not> inside dir p)"
  shows "(case run_pipeline_files unlink sp show_float env tmp file of (res, ops) \<Rightarrow>
      (case tmp of Inl _ \<Rightarrow> ops = [] | Inr dir \<Rightarrow> moments (tidy dir D) D ops) \<and>
      (\<forall>r reports. res = Ended r reports \<longrightarrow> disk_after ops D = D)) \<and>
    ((\<forall>p. unlink p = Inr ()) \<longrightarrow>
      fst (run_pipeline_files unlink sp show_float env tmp file) = fst (run_pipeline sp show_float env tmp file))"
proof (intro conjI impI)
  show "case run_pipeline_files unlink sp show_float env tmp file of (res, ops) \<Rightarrow>
      (case tmp of Inl _ \<Rightarrow> ops = [] | Inr dir \<Rightarrow> moments (tidy dir D) D ops) \<and>
      (\<forall>r reports. res = Ended r reports \<longrightarrow> disk_after ops D = D)"
  proof (cases tmp)
    case (Inr dir)
    let ?wav = "dir @ ''/normalized.wav''" and ?env = "pipeline_env sp show_float env"
    from assms Inr have dir: "temp_dir dir" and new: "\<forall>p \<in> D. \<not> inside dir p" by simp_all
    note paths = temp_paths [OF dir]
    have first: "tidy dir D D e" if "\<And>p. e \<noteq> Listened p" for e using that by (simp add: tidy_def)
    have cleared: "disk_step (Removed_tree dir) (insert ?wav D) = D"
      "disk_step (Removed_tree dir) (insert (slice_path ?wav i) (insert ?wav D)) = D" for i
      using new paths(4,5) by auto
    note last = tidy_one(1) [OF paths(4) new] tidy_one(2) [OF paths(4) new paths(5)]
    have wav: "fst (normalize sp file dir) = Inr w \<Longrightarrow> w = ?wav" for w
      by (auto simp: normalize_result result_iff paths(1) split: if_splits)
    have ends: "moments (tidy dir D) D (Written ?wav # ops @ [Removed_tree dir]) \<and>
        disk_after (Written ?wav # ops @ [Removed_tree dir]) D = D"
      if "transcribe_files unlink ?env ?wav x = Some (r, reports, ops)" for x r reports ops
    proof -
      have "moments (tidy dir D) (insert ?wav D) ops \<and> (disk_after ops (insert ?wav D) = insert ?wav D \<or>
          (\<exists>i. disk_after ops (insert ?wav D) = insert (slice_path ?wav i) (insert ?wav D)))"
        using that
      proof (cases rule: transcribe_files_cases)
        case (ran n cs r')
        from chunk_loop_tidy [OF dir refl new this] show ?thesis .
      qed simp
      then show ?thesis using first cleared last by (auto simp del: disk_step.simps(4))
    qed
    have early: "moments (tidy dir D) D [Written ?wav, Removed_tree dir]" "disk_after [Written ?wav, Removed_tree dir] D = D"
      "moments (tidy dir D) D [Written ?wav]" "moments (tidy dir D) D []" "disk_after [] D = D"
      using first cleared(1) last(1) by (simp_all del: disk_step.simps(4))
    show ?thesis using ends early wav Inr
      by (auto simp: run_pipeline_files_def Let_def paths(1) simp del: moments.simps disk_after_simps disk_step.simps
          split: sum.splits py_float.splits option.splits)
  qed (auto simp: run_pipeline_files_def split: sum.splits)
qed (use run_pipeline_files_result [of unlink] in blast)

text \<open>A file of two seconds, in slices of one second, on a disk with the upload.\<close>

definition sliced_env :: transcriber_env where
  "sliced_env = tiny_env\<lparr>chunk_threshold_sec := 1, chunk_sec := 1\<rparr>"

lemma sliced_run: "snd (run_pipeline_files (\<lambda>_. Inr ()) tiny_subprocess (\<lambda>_. []) sliced_env (Inr ''/tmp/t'') ''/data/a.mp3'') =
  [Written ''/tmp/t/normalized.wav'', Written ''/tmp/t/chunk-0000.wav'', Listened ''/tmp/t/chunk-0000.wav'',
   Deleted_file ''/tmp/t/chunk-0000.wav'', Written ''/tmp/t/chunk-0001.wav'', Listened ''/tmp/t/chunk-0001.wav'',
   Deleted_file ''/tmp/t/chunk-0001.wav'', Removed_tree ''/tmp/t'']"
proof -
  have norm: "fst (normalize tiny_subprocess ''/data/a.mp3'' ''/tmp/t'') = Inr ''/tmp/t/normalized.wav''" by code_simp
  have plan: "plan_chunks 2 1 = Some [(0, 1), (1, 1)]"
    using plan_chunks_eq [of 1 2] fl_of_int [of 1] fl_of_int [of 2] by (simp add: upt_conv_Cons)
  have names: "join_path ''/tmp/t'' ''normalized.wav'' = ''/tmp/t/normalized.wav''"
    "slice_path ''/tmp/t/normalized.wav'' 0 = ''/tmp/t/chunk-0000.wav''"
    "slice_path ''/tmp/t/normalized.wav'' (Suc 0) = ''/tmp/t/chunk-0001.wav''" by code_simp+
  have cuts: "chunk_path (pipeline_env tiny_subprocess (\<lambda>_. []) sliced_env) ''/tmp/t/normalized.wav'' (Suc (Suc 0)) (i, x, y) =
      Inr (slice_path ''/tmp/t/normalized.wav'' i)" for i x y
    by (simp add: chunk_path_def pipeline_env_def cut_wav_result run_command_def tiny_subprocess_def slice_path_def Let_def)
  let ?env = "pipeline_env tiny_subprocess (\<lambda>_. []) sliced_env"
  have env: "load_model ?env = Inr ()" "chunk_threshold_sec ?env = 1" "chunk_sec ?env = 1"
    "whisper ?env p = ([(0, 1, '' hi ''), (1, 2, ''you'')], Inr ''en'')" for p
    by (simp_all add: pipeline_env_def sliced_env_def tiny_env_def)
  show ?thesis
    by (simp add: run_pipeline_files_def tiny_probe norm names cuts plan env transcribe_files_def transcribe_wav_def
        enumerate_eq_zip Let_def)
qed

theorem pipeline_leaves_no_files_witness:
  "let ops = snd (run_pipeline_files (\<lambda>_. Inr ()) tiny_subprocess (\<lambda>_. []) sliced_env (Inr ''/tmp/t'') ''/data/a.mp3'')
   in length ops = 8 \<and> moments (tidy ''/tmp/t'' {''/data/a.mp3''}) {''/data/a.mp3''} ops"
proof -
  let ?run = "run_pipeline_files (\<lambda>_. Inr ()) tiny_subprocess (\<lambda>_. []) sliced_env (Inr ''/tmp/t'') ''/data/a.mp3''"
  have "temp_dir ''/tmp/t''" "\<not> inside ''/tmp/t'' ''/data/a.mp3''" by (simp_all add: temp_dir_def inside_def)
  then have "case (Inr ''/tmp/t'' :: (py_exception, string) result) of Inl _ \<Rightarrow> True
    | Inr dir \<Rightarrow> temp_dir dir \<and> (\<forall>p \<in> {''/data/a.mp3''}. \<not> inside dir p)" by simp
  from pipeline_leaves_no_files [OF this, of "\<lambda>_. Inr ()" tiny_subprocess "\<lambda>_. []" sliced_env "''/data/a.mp3''"]
  have "moments (tidy ''/tmp/t'' {''/data/a.mp3''}) {''/data/a.mp3''} (snd ?run)"
    by (cases ?run) simp
  moreover have "length (snd ?run) = 8" unfolding sliced_run by simp
  ultimately show ?thesis by (simp only: Let_def simp_thms)
qed

end
