(* ===== verification/Worker_Settings.thy ===== *)
theory Worker_Settings
  imports Topology Transcriber Audio Worker_Startup
begin

text \<open>
  The worker's settings (\<open>worker/settings.py\<close>) and what they decide in its other parts. The
  environment gives the value of a variable by the name of its field (names are matched without
  regard to case); the conversion of a text to a number is pydantic's: two parameters, of
  which the one for floats may also give an infinity or not-a-number.
\<close>

type_synonym environment = "string \<Rightarrow> string option"

record worker_settings =
  database_url :: string
  rabbitmq_url :: string
  whisper_model :: string
  set_chunk_threshold_sec :: int
  set_chunk_sec :: int
  topology_names_of :: topology_settings
  startup_retry_max :: int
  startup_retry_delay_sec :: py_float
  shutdown_grace_sec :: py_float

definition required_field :: "environment \<Rightarrow> string \<Rightarrow> (string list, string) result" where
  \<comment> \<open>the value, or the fields at fault\<close>
  "required_field env name = (case env name of None \<Rightarrow> Inl [name] | Some v \<Rightarrow> Inr v)"

definition text_field :: "environment \<Rightarrow> string \<Rightarrow> string \<Rightarrow> (string list, string) result" where
  "text_field env name def = Inr (case env name of None \<Rightarrow> def | Some v \<Rightarrow> v)"

definition number_field :: "(string \<Rightarrow> 'n option) \<Rightarrow> environment \<Rightarrow> string \<Rightarrow> 'n \<Rightarrow> (string list, 'n) result" where
  "number_field parse env name def = (case env name of None \<Rightarrow> Inr def
     | Some v \<Rightarrow> (case parse v of None \<Rightarrow> Inl [name] | Some x \<Rightarrow> Inr x))"

definition with_field :: "(string list, 'a) result \<Rightarrow> (string list, 'a \<Rightarrow> 'b) result \<Rightarrow> (string list, 'b) result" where
  \<comment> \<open>all fields at fault are reported\<close>
  "with_field r f = (case (f, r) of (Inr g, Inr a) \<Rightarrow> Inr (g a) | (Inl es, Inl es') \<Rightarrow> Inl (es @ es')
     | (Inl es, Inr _) \<Rightarrow> Inl es | (Inr _, Inl es) \<Rightarrow> Inl es)"

definition topology_fields :: "environment \<Rightarrow> (string list, topology_settings) result" where
  "topology_fields env =
    with_field (text_field env ''dead_queue'' ''transcription.dead'')
    (with_field (text_field env ''retry_queue'' ''transcription.retry'')
    (with_field (text_field env ''jobs_queue'' ''transcription.jobs'')
    (with_field (text_field env ''dlx_exchange'' ''scribeflow.dlx'')
    (with_field (text_field env ''exchange'' ''scribeflow'') (Inr topology_settings.make)))))"

definition load_settings :: "(string \<Rightarrow> int option) \<Rightarrow> (string \<Rightarrow> py_float option) \<Rightarrow> environment \<Rightarrow>
    (string list, worker_settings) result" where
  "load_settings to_int to_float env =
    with_field (number_field to_float env ''shutdown_grace_sec'' (Finite 55))
    (with_field (number_field to_float env ''startup_retry_delay_sec'' (Finite 2))
    (with_field (number_field to_int env ''startup_retry_max'' 30)
    (with_field (topology_fields env)
    (with_field (number_field to_int env ''chunk_sec'' 300)
    (with_field (number_field to_int env ''chunk_threshold_sec'' 600)
    (with_field (text_field env ''whisper_model'' ''small'')
    (with_field (required_field env ''rabbitmq_url'')
    (with_field (required_field env ''database_url'') (Inr worker_settings.make)))))))))"

lemmas field_defs = required_field_def text_field_def number_field_def with_field_def

lemma with_field_Inr_iff [result_iff]: "with_field r f = Inr b \<longleftrightarrow> (\<exists>g a. f = Inr g \<and> r = Inr a \<and> b = g a)"
  by (auto simp: with_field_def split: sum.splits)

lemma with_field_faults: "(\<exists>es. with_field r f = Inl es) \<longleftrightarrow> (\<exists>es. r = Inl es) \<or> (\<exists>es. f = Inl es)"
  by (auto simp: with_field_def split: sum.splits)

lemma topology_fields_eq: "topology_fields env = Inr \<lparr>
    set_exchange = (case env ''exchange'' of None \<Rightarrow> ''scribeflow'' | Some v \<Rightarrow> v),
    set_dlx_exchange = (case env ''dlx_exchange'' of None \<Rightarrow> ''scribeflow.dlx'' | Some v \<Rightarrow> v),
    set_jobs_queue = (case env ''jobs_queue'' of None \<Rightarrow> ''transcription.jobs'' | Some v \<Rightarrow> v),
    set_retry_queue = (case env ''retry_queue'' of None \<Rightarrow> ''transcription.retry'' | Some v \<Rightarrow> v),
    set_dead_queue = (case env ''dead_queue'' of None \<Rightarrow> ''transcription.dead'' | Some v \<Rightarrow> v)\<rparr>"
  by (simp add: topology_fields_def field_defs topology_settings.defs)

definition topology_variables :: "(string \<times> string) list" where
  "topology_variables = [(''exchange'', EXCHANGE), (''dlx_exchange'', DLX_EXCHANGE), (''jobs_queue'', JOBS_QUEUE),
     (''retry_queue'', RETRY_QUEUE), (''dead_queue'', DEAD_QUEUE)]"

lemma declares_iff: "declare_topology s = assert_topology \<longleftrightarrow> set_exchange s = EXCHANGE \<and> set_dlx_exchange s = DLX_EXCHANGE \<and>
    set_jobs_queue s = JOBS_QUEUE \<and> set_retry_queue s = RETRY_QUEUE \<and> set_dead_queue s = DEAD_QUEUE"
  unfolding declare_topology_def assert_topology_def ROUTING_KEY_JOB_def ROUTING_KEY_RETRY_def ROUTING_KEY_DEAD_def by auto

lemma default_or: "(case v of None \<Rightarrow> def | Some x \<Rightarrow> x) = def \<longleftrightarrow> v \<in> {None, Some def}"
  by (cases v) auto

lemma same_topology:
  assumes "topology_fields env = Inr s"
  shows "declare_topology s = assert_topology \<longleftrightarrow> (\<forall>(name, v) \<in> set topology_variables. env name \<in> {None, Some v})"
proof -
  have s: "s = \<lparr>set_exchange = (case env ''exchange'' of None \<Rightarrow> EXCHANGE | Some v \<Rightarrow> v),
    set_dlx_exchange = (case env ''dlx_exchange'' of None \<Rightarrow> DLX_EXCHANGE | Some v \<Rightarrow> v),
    set_jobs_queue = (case env ''jobs_queue'' of None \<Rightarrow> JOBS_QUEUE | Some v \<Rightarrow> v),
    set_retry_queue = (case env ''retry_queue'' of None \<Rightarrow> RETRY_QUEUE | Some v \<Rightarrow> v),
    set_dead_queue = (case env ''dead_queue'' of None \<Rightarrow> DEAD_QUEUE | Some v \<Rightarrow> v)\<rparr>"
    using assms unfolding topology_fields_eq by (simp only: sum.inject topology_names)
  show ?thesis
    unfolding declares_iff s topology_settings.simps default_or topology_variables_def by simp
qed

definition reads :: "(string \<Rightarrow> 'n option) \<Rightarrow> string option \<Rightarrow> bool" where
  \<comment> \<open>absent, or a number\<close>
  "reads parse v = (case v of None \<Rightarrow> True | Some t \<Rightarrow> parse t \<noteq> None)"

definition needs :: "(string \<Rightarrow> int option) \<Rightarrow> (string \<Rightarrow> py_float option) \<Rightarrow> environment \<Rightarrow> bool" where
  \<comment> \<open>both addresses, and numbers where numbers are read\<close>
  "needs to_int to_float env \<longleftrightarrow> env ''database_url'' \<noteq> None \<and> env ''rabbitmq_url'' \<noteq> None \<and>
     reads to_int (env ''chunk_threshold_sec'') \<and> reads to_int (env ''chunk_sec'') \<and>
     reads to_int (env ''startup_retry_max'') \<and> reads to_float (env ''startup_retry_delay_sec'') \<and>
     reads to_float (env ''shutdown_grace_sec'')"

lemma field_faults:
  "(\<exists>es. required_field env name = Inl es) \<longleftrightarrow> env name = None"
  "(\<exists>es. text_field env name def = Inl es) \<longleftrightarrow> False"
  "(\<exists>es. number_field parse env name x = Inl es) \<longleftrightarrow> \<not> reads parse (env name)"
  "(\<exists>es. topology_fields env = Inl es) \<longleftrightarrow> False"
  "(\<exists>es. Inr a = Inl es) \<longleftrightarrow> False"
  by (auto simp: required_field_def text_field_def number_field_def reads_def topology_fields_eq split: option.splits)

text \<open>The value of a variable, or the default; \<open>None\<close> when it does not read as a number.\<close>

definition value_of :: "(string \<Rightarrow> 'n option) \<Rightarrow> environment \<Rightarrow> string \<Rightarrow> 'n \<Rightarrow> 'n option" where
  "value_of parse env name def = (case env name of None \<Rightarrow> Some def | Some v \<Rightarrow> parse v)"

lemma field_values:
  "required_field env name = Inr a \<longleftrightarrow> env name = Some a"
  "text_field env name d = Inr a \<longleftrightarrow> value_of Some env name d = Some a"
  "number_field parse env name x = Inr b \<longleftrightarrow> value_of parse env name x = Some b"
  by (auto simp: required_field_def text_field_def number_field_def value_of_def split: option.splits)

lemma load_settings_faults: "(\<exists>es. load_settings to_int to_float env = Inl es) \<longleftrightarrow> \<not> needs to_int to_float env"
  unfolding load_settings_def with_field_faults field_faults needs_def de_Morgan_conj by (simp only: simp_thms disj_ac)

lemma load_settings_values:
  assumes "load_settings to_int to_float env = Inr s"
  shows "env ''database_url'' = Some (database_url s)" "env ''rabbitmq_url'' = Some (rabbitmq_url s)"
    and "value_of Some env ''whisper_model'' ''small'' = Some (whisper_model s)"
    and "value_of to_int env ''chunk_threshold_sec'' 600 = Some (set_chunk_threshold_sec s)"
    and "value_of to_int env ''chunk_sec'' 300 = Some (set_chunk_sec s)"
    and "topology_fields env = Inr (topology_names_of s)"
    and "value_of to_int env ''startup_retry_max'' 30 = Some (startup_retry_max s)"
    and "value_of to_float env ''startup_retry_delay_sec'' (Finite 2) = Some (startup_retry_delay_sec s)"
    and "value_of to_float env ''shutdown_grace_sec'' (Finite 55) = Some (shutdown_grace_sec s)"
proof -
  obtain d r w th c tp n dl g where s: "s = worker_settings.make d r w th c tp n dl g"
    and f: "env ''database_url'' = Some d" "env ''rabbitmq_url'' = Some r"
    "value_of Some env ''whisper_model'' ''small'' = Some w"
    "value_of to_int env ''chunk_threshold_sec'' 600 = Some th" "value_of to_int env ''chunk_sec'' 300 = Some c"
    "topology_fields env = Inr tp" "value_of to_int env ''startup_retry_max'' 30 = Some n"
    "value_of to_float env ''startup_retry_delay_sec'' (Finite 2) = Some dl"
    "value_of to_float env ''shutdown_grace_sec'' (Finite 55) = Some g"
    using assms unfolding load_settings_def with_field_Inr_iff field_values by blast
  show "env ''database_url'' = Some (database_url s)" "env ''rabbitmq_url'' = Some (rabbitmq_url s)"
    "value_of Some env ''whisper_model'' ''small'' = Some (whisper_model s)"
    "value_of to_int env ''chunk_threshold_sec'' 600 = Some (set_chunk_threshold_sec s)"
    "value_of to_int env ''chunk_sec'' 300 = Some (set_chunk_sec s)"
    "topology_fields env = Inr (topology_names_of s)"
    "value_of to_int env ''startup_retry_max'' 30 = Some (startup_retry_max s)"
    "value_of to_float env ''startup_retry_delay_sec'' (Finite 2) = Some (startup_retry_delay_sec s)"
    "value_of to_float env ''shutdown_grace_sec'' (Finite 55) = Some (shutdown_grace_sec s)"
    unfolding s worker_settings.defs worker_settings.simps by (fact f)+
qed

text \<open>Which fields are reported.\<close>

definition at_fault :: "(string list, 'a) result \<Rightarrow> string set" where
  "at_fault r = (case r of Inl es \<Rightarrow> set es | Inr _ \<Rightarrow> {})"

lemma at_fault_simps:
  "at_fault (with_field r f) = at_fault f \<union> at_fault r"
  "at_fault (required_field env name) = {n. n = name \<and> env n = None}"
  "at_fault (text_field env name d) = {}" "at_fault (topology_fields env) = {}" "at_fault (Inr a) = {}"
  "at_fault (number_field parse env name x) = {n. n = name \<and> value_of parse env n x = None}"
  by (auto simp: at_fault_def field_defs topology_fields_eq value_of_def split: sum.splits option.splits)

lemma chunking_ends_iff:
  assumes "sec < 2 ^ 52"
  shows "(\<forall>d. 0 < d \<and> d \<le> 2 ^ 52 \<longrightarrow> plan_chunks d sec \<noteq> None) \<longleftrightarrow> 0 < sec"
proof
  assume "0 < sec"
  then show "\<forall>d. 0 < d \<and> d \<le> 2 ^ 52 \<longrightarrow> plan_chunks d sec \<noteq> None" using plan_chunks_eq assms by simp
next
  assume ends: "\<forall>d. 0 < d \<and> d \<le> 2 ^ 52 \<longrightarrow> plan_chunks d sec \<noteq> None"
  show "0 < sec"
  proof (rule ccontr)
    assume "\<not> 0 < sec"
    then have "plan_chunks 1 sec = None" unfolding plan_chunks_def by (intro plan_loop_diverges) simp_all
    moreover have "plan_chunks 1 sec \<noteq> None" using ends by (rule allE [of _ 1]) simp
    ultimately show False by blast
  qed
qed

lemma number_fault: "value_of parse env n x = None \<longleftrightarrow> \<not> reads parse (env n)"
  by (simp add: value_of_def reads_def split: option.split)

lemma with_field_nonempty: "r \<noteq> Inl [] \<Longrightarrow> f \<noteq> Inl [] \<Longrightarrow> with_field r f \<noteq> Inl []"
  by (auto simp: with_field_def split: sum.splits)

lemma field_nonempty:
  "required_field env name \<noteq> Inl []" "text_field env name d \<noteq> Inl []" "number_field parse env name x \<noteq> Inl []"
  "topology_fields env \<noteq> Inl []" "Inr a \<noteq> Inl []"
  by (auto simp: required_field_def text_field_def number_field_def topology_fields_eq split: option.split)

lemma no_empty_fault: "load_settings to_int to_float env \<noteq> Inl []"
  unfolding load_settings_def by (intro with_field_nonempty field_nonempty)

lemma all_attempts_fail:
  "connect_with_retry n (\<lambda>_. Inl e :: (string, unit) result) =
    (Inl (Raised (''could not connect to rabbitmq: '' @ (if n < 1 then ''None'' else e))), nat n)"
proof -
  obtain r sleeps where run: "connect_with_retry n (\<lambda>_. Inl e :: (string, unit) result) = (r, sleeps)" by fastforce
  have "case (r, sleeps) of (Inr c, k) \<Rightarrow> False | (Inl x, k) \<Rightarrow> int k = max 0 n \<and>
      x = Raised (''could not connect to rabbitmq: '' @ (if n < 1 then ''None'' else e))"
    using attempts_spec [where service = "''rabbitmq''" and dial = "\<lambda>_. Inl e :: (string, unit) result" and k = 1 and n = n
        and err = "''None''"] run
    by (auto simp: connect_with_retry_def split: sum.splits)
  then show ?thesis unfolding run by (auto split: sum.splits)
qed

text \<open>
  C31. What the environment of the worker decides. It fails to start with exactly the fields at
  fault: an address that is not set, or a number variable that is set and does not read as one.
  Otherwise every setting is the value of its variable, as it reads, or the default if it is not
  set. Then it declares the very topology of the API if and only if none of the five variables that
  can rename an exchange or a queue is set to another name; every file can be planned in chunks if
  and only if the value of \<open>CHUNK_SEC\<close> is positive; and it makes as many attempts at each service
  as the value of \<open>STARTUP_RETRY_MAX\<close> says.
\<close>

theorem settings_decide:
  "case load_settings to_int to_float env of
     Inl faults \<Rightarrow> faults \<noteq> [] \<and> (\<forall>name. name \<in> set faults \<longleftrightarrow>
         name \<in> {''database_url'', ''rabbitmq_url''} \<and> env name = None \<or>
         name \<in> {''chunk_threshold_sec'', ''chunk_sec'', ''startup_retry_max''} \<and> value_of to_int env name 0 = None \<or>
         name \<in> {''startup_retry_delay_sec'', ''shutdown_grace_sec''} \<and> value_of to_float env name (Finite 0) = None)
   | Inr s \<Rightarrow> needs to_int to_float env \<and>
       env ''database_url'' = Some (database_url s) \<and> env ''rabbitmq_url'' = Some (rabbitmq_url s) \<and>
       value_of Some env ''whisper_model'' ''small'' = Some (whisper_model s) \<and>
       value_of to_int env ''chunk_threshold_sec'' 600 = Some (set_chunk_threshold_sec s) \<and>
       value_of to_float env ''startup_retry_delay_sec'' (Finite 2) = Some (startup_retry_delay_sec s) \<and>
       value_of to_float env ''shutdown_grace_sec'' (Finite 55) = Some (shutdown_grace_sec s) \<and>
       (declare_topology (topology_names_of s) = assert_topology \<longleftrightarrow>
         (\<forall>(name, v) \<in> set topology_variables. env name \<in> {None, Some v})) \<and>
       (\<exists>sec. value_of to_int env ''chunk_sec'' 300 = Some sec \<and> set_chunk_sec s = sec \<and> (sec < 2 ^ 52 \<longrightarrow>
         (\<forall>d. 0 < d \<and> d \<le> 2 ^ 52 \<longrightarrow> plan_chunks d sec \<noteq> None) = (0 < sec))) \<and>
       (\<exists>n. value_of to_int env ''startup_retry_max'' 30 = Some n \<and> startup_retry_max s = n \<and>
         (\<forall>e. connect_with_retry (startup_retry_max s) (\<lambda>_. Inl e :: (string, unit) result) =
           (Inl (Raised (''could not connect to rabbitmq: '' @ (if n < 1 then ''None'' else e))), nat n)))"
proof (cases "load_settings to_int to_float env")
  case (Inl es)
  have "set es = at_fault (load_settings to_int to_float env)" by (simp add: Inl at_fault_def)
  also have "\<dots> = {n. n \<in> {''database_url'', ''rabbitmq_url''} \<and> env n = None \<or>
      n \<in> {''chunk_threshold_sec'', ''chunk_sec'', ''startup_retry_max''} \<and> value_of to_int env n 0 = None \<or>
      n \<in> {''startup_retry_delay_sec'', ''shutdown_grace_sec''} \<and> value_of to_float env n (Finite 0) = None}"
    unfolding load_settings_def at_fault_simps number_fault
    by (rule set_eqI) (simp only: Un_iff mem_Collect_eq insert_iff empty_iff conj_disj_distribR simp_thms disj_ac)
  finally have faults: "set es = \<dots>" .
  moreover have "es \<noteq> []" using no_empty_fault Inl by blast
  ultimately show ?thesis unfolding Inl sum.case by (simp only: faults mem_Collect_eq simp_thms)
next
  case (Inr s)
  then have needs: "needs to_int to_float env" using load_settings_faults [of to_int to_float env] by auto
  note vals = load_settings_values [OF Inr]
  show ?thesis unfolding Inr sum.case
    by (intro conjI exI [of _ "set_chunk_sec s"] exI [of _ "startup_retry_max s"] needs vals refl impI allI
        same_topology [OF vals(6)] chunking_ends_iff all_attempts_fail)
qed

theorem settings_decide_witness:
  "\<exists>s. load_settings (\<lambda>_. Some 120) (\<lambda>_. None) [''database_url'' \<mapsto> ''postgres://db'', ''rabbitmq_url'' \<mapsto> ''amqp://mq'',
      ''chunk_sec'' \<mapsto> ''120''] = Inr s \<and> set_chunk_sec s = 120 \<and> startup_retry_max s = 30 \<and>
      declare_topology (topology_names_of s) = assert_topology"
proof -
  let ?env = "[''database_url'' \<mapsto> ''postgres://db'', ''rabbitmq_url'' \<mapsto> ''amqp://mq'', ''chunk_sec'' \<mapsto> ''120'']"
  have "needs (\<lambda>_. Some 120) (\<lambda>_. None) ?env" by (simp add: needs_def reads_def)
  then obtain s where s: "load_settings (\<lambda>_. Some 120) (\<lambda>_. None) ?env = Inr s"
    using load_settings_faults [where to_int = "\<lambda>_. Some 120" and to_float = "\<lambda>_. None" and env = ?env]
    by (cases "load_settings (\<lambda>_. Some 120) (\<lambda>_. None) ?env") auto
  from settings_decide [where to_int = "\<lambda>_. Some 120" and to_float = "\<lambda>_. None" and env = ?env, unfolded s sum.case]
  have "value_of (\<lambda>_. Some 120) ?env ''chunk_sec'' 300 = Some (set_chunk_sec s)"
    "value_of (\<lambda>_. Some 120) ?env ''startup_retry_max'' 30 = Some (startup_retry_max s)"
    "declare_topology (topology_names_of s) = assert_topology"
    by (auto simp: topology_variables_def)
  with s show ?thesis by (simp add: value_of_def)
qed

end
