(* ===== verification/Spec2Isabelle.thy ===== *)
theory Spec2Isabelle
  imports Api_App Api_Docs Api_Key_Guard Api_Routes Audio Bootstrap Delivery Env_Validation
    Full_Stack Health Http_Errors JS_Json JS_Number JS_String Job_Db Job_Entity Job_Repository
    Lifecycle Model_Cache Pipeline Prelude Publisher Py_Json Shutdown Storage Subtitles System
    System_Bounds System_Progress System_Properties System_Refinement System_Safety
    System_Stranded Temp_Files Topology Transcriber Transcriptions_Controller
    Transcriptions_Service Upload_Validation Web_Page Web_Proxy Worker Worker_Message
    Worker_Outcomes Worker_Settings Worker_Startup
begin

text \<open>
  ScribeFlow turns uploaded audio files into timestamped transcripts. A NestJS API (\<open>src/api\<close>)
  validates an upload, stores the file, inserts a row in the jobs table and publishes a message to
  RabbitMQ; a Python worker (\<open>src/worker\<close>) consumes the message, transcribes the file and writes
  the transcript to the row; a Next.js front end (\<open>src/web\<close>) proxies the API and shows a job. The
  parts share two things only: the jobs table and the broker's three queues. The theories follow
  the parts; each names the file it models and opens with what it holds.

  \<^bold>\<open>Languages.\<close> \<open>Prelude\<close> (fallible code as a sum type), \<open>JS_Number\<close> (binary64 as the rationals it
  denotes, with the rounding of every operation written out, and the locale \<open>rounding\<close> that states
  what clients need of it), \<open>JS_String\<close> (decimal digits, padding, UTF-8, POSIX paths), \<open>JS_Json\<close>
  (\<open>JSON.stringify\<close>), \<open>Py_Json\<close> (\<open>json.loads\<close>, \<open>uuid.UUID\<close>, \<open>int()\<close>). Strings are lists of
  characters with codes up to 255.

  \<^bold>\<open>The API.\<close> \<open>Job_Entity\<close> (entity and response shapes), \<open>Subtitles\<close> (\<open>srt.util.ts\<close>),
  \<open>Upload_Validation\<close>, \<open>Http_Errors\<close> (exceptions as values), \<open>Api_Key_Guard\<close>, \<open>Env_Validation\<close>,
  \<open>Topology\<close> (both sides' declarations and where they route), \<open>Publisher\<close> (the publish, and the
  connection state machine: one step per continuation of \<open>connect\<close> and of the reconnect loops, and
  per event of the broker), \<open>Storage\<close> (over a map from paths to contents), \<open>Job_Repository\<close> (the
  interface of the table as a locale, in which a call that throws may have had its effect; provided by
  a table kept as a list),
  \<open>Transcriptions_Service\<close> (\<open>create\<close> as a state transformer over files, table, broker and the log
  of its effects), \<open>Transcriptions_Controller\<close> (the handlers), \<open>Health\<close>, \<open>Api_App\<close> (a request through
  guard, interceptor, pipes and handler), \<open>Api_Routes\<close> (the declared routes under the global prefix,
  and a request on the wire), \<open>Api_Docs\<close> (decorators, Swagger set-up and metadata, against the
  answers; the locale \<open>repository_errors\<close> says what a database error is to a client) and \<open>Bootstrap\<close>
  (the settings each part reads, and the start-up).

  \<^bold>\<open>The worker.\<close> \<open>Worker_Message\<close> (reading a message, the retry decision), \<open>Job_Db\<close> (its
  statements on the table), \<open>Worker\<close> (\<open>handle_message\<close> and \<open>handle_failure\<close> cut at their awaits: a
  \<open>handler\<close> is where the coroutine is suspended, \<open>worker_step\<close> the code up to the next await, and
  an awaited call may return, raise, or raise after its effect), \<open>Worker_Outcomes\<close> (what one
  message comes to: \<open>handling_outcome\<close> is the specification, a table of outcomes without suspension
  points, and every handler run is equal to it), \<open>Transcriber\<close> (chunk plan, chunk loop, transcript, progress), \<open>Model_Cache\<close> (the model
  a process loads once), \<open>Audio\<close>
  (\<open>audio.py\<close>: ffprobe and ffmpeg with their time limits, reading a duration, the errors; a call
  returns its result with a log that \<open>run_command\<close> writes: the command and the limit it was called with),
  \<open>Pipeline\<close> (\<open>run_pipeline\<close>), \<open>Temp_Files\<close> (the same run with its files: the temporary directory, the
  slices and their deletion), \<open>Worker_Settings\<close> (\<open>settings.py\<close>), \<open>Worker_Startup\<close> (the connection
  loops, the pool, and \<open>run\<close> from start to shutdown) and \<open>Shutdown\<close> (signals, the lock, the cancelling
  and the handlers in any order).

  \<^bold>\<open>The system.\<close> \<open>System\<close> composes the two services over one table and the three queues: uploads
  between their awaits, any number of workers with their unsettled delivery, deliveries, expiring
  retries, lost connections and crashes in any order. \<open>System_Safety\<close> proves the invariant,
  \<open>System_Properties\<close> what it gives and the two timings it has to exclude, \<open>System_Bounds\<close> the
  bounds that need no exclusion, \<open>System_Refinement\<close> that the upload events are what \<open>create\<close>
  does, \<open>System_Progress\<close> that from every reachable state the open jobs can be completed, and
  \<open>System_Stranded\<close> that nothing ever moves a job again that no message, worker or upload has to do with.
  An API process may die between the insert and the end of an upload (\<open>Upload_dies\<close>, which puts the id among \<open>given_up\<close>,
  with those whose undo failed).

  \<^bold>\<open>The front end.\<close> \<open>Web_Proxy\<close> (the server-side proxy, percent encoding, the path a URL parser
  makes of it) and \<open>Web_Page\<close> (the page: state, callbacks as events, what it renders).
  \<open>Full_Stack\<close> puts page, proxy, routes, handlers, table and workers together for a poll,
  \<open>Lifecycle\<close> for one upload from the page's POST to the transcript on the page, and \<open>Delivery\<close>
  for one message from the worker's handler and pipeline to what the page shows, errors included.

  \<^bold>\<open>What the properties show.\<close> An upload: its exact effect on every path, its order, its frame,
  what is left when the undo fails. Messages: the worker reads what the API wrote, the topologies
  agree, retry counts stay in 0 to 3, an acknowledged message is never the last trace of an
  unfinished job, and no accepted job is lost as long as no worker outlives its broker connection
  and no retry copy expires while its publisher still records the retry (both exclusions are
  needed: two runs, and a third in which the API dies before the publish, strand a job, and a
  stranded job stays as it is for ever). Progress: under the same exclusions every open job can
  be completed from every state, even if all workers die in it, and its transcript then reaches
  the page that watches it, through proxy, key check and routes. The worker's process: a shutdown
  that gets the lock cuts off no message, the disk is as before after every run, and the settings
  decide whether both sides agree on the queues and whether chunking ends, chunk by chunk as planned. Output: subtitle files
  and timestamps read back. Access: only requests with the key change anything, and answers are
  those the documentation lists, with two omissions. The page: one upload at a time, unfinished jobs are
  followed, and overlapping polls are decided by the last answer to arrive.

  \<^bold>\<open>Bounds and fuel.\<close> Timestamps are exact up to \<open>9 * 10 ^ 12\<close> seconds and page clocks below
  \<open>2 ^ 53\<close>, where every intermediate integer is a binary64 value; chunk plans are for durations up to
  \<open>2 ^ 52\<close> seconds. Text durations are read for any number of digits; a result of \<open>2 ^ 1024\<close> or more
  is infinite, as in Python. The JSON reader takes fuel \<open>2 * length + 1\<close>, which suffices because every
  recursive call consumes a character or goes one level down at a character already seen. The chunk
  loop is a partial function: that it returns, or does not, is proved. Dead-lettering does not add
  the \<open>x-death\<close> header RabbitMQ adds, which the worker never reads.

  \<^bold>\<open>Parameters.\<close> Code outside the repository enters as arguments or as locales: multer and the
  framework's pipes, TypeORM (locale \<open>job_repository\<close>), the digest, the broker's answers, \<open>fetch\<close>,
  class-validator's messages, the framework's router, query parser and JSON rendering (hypotheses on
  the router ask for what Express documents, for the declared routes only), whisper, and what a
  subprocess answers.

  \<^bold>\<open>Not modelled.\<close> Overflow to infinity, NaN and signed zero in the arithmetic (the reader of
  durations and settings tells them apart, and the pipeline stops there); characters above 255; the
  limits of Python's JSON and integer readers on nesting and on 4300 digits; log lines and delays; the order in which the framework runs its module hooks, and what it makes of the Swagger
  set-up; style classes other than those of the status chip, the static layout, dependency
  injection, build and lint configuration (declarations without logic); tests (what they check is
  covered by the properties).
\<close>

end
